(* ===== verification/Prelude.thy ===== *)
theory Prelude
  imports Main "HOL-Library.Word"
begin

text \<open>
  Shared vocabulary of the development: bytes and machine words, the outcome of a C routine
  (it returns, it waits for ever, or it leaves defined behaviour), byte buffers that are read
  and written at an offset, the host's byte order, and C strings.

  The host modelled is the one the sources were written for: a little-endian machine with
  32-bit \<open>int\<close>, \<open>long\<close>, \<open>size_t\<close> and pointers (the sources cast \<open>DIR *\<close> to \<open>int\<close> and back).
\<close>

unbundle bit_operations_syntax

named_theorems buffer_simps \<open>reading and writing a buffer at an offset\<close>
named_theorems order_simps \<open>host and network byte order\<close>
named_theorems cstring_simps \<open>C strings\<close>
named_theorems outcome_simps \<open>sequencing of C routines\<close>

section \<open>Bytes and words\<close>

type_synonym byte = "8 word"
type_synonym u16 = "16 word"
type_synonym u32 = "32 word"

section \<open>Outcomes\<close>

text \<open>
  \<open>Ret x\<close>: the routine returned \<open>x\<close>. \<open>Hang\<close>: it waits for ever in a system call.
  \<open>Crash\<close>: it read or wrote outside an object, so C gives it no meaning from there on.
\<close>

datatype 'a outcome = Ret 'a | Hang | Crash

fun obind :: "'a outcome \<Rightarrow> ('a \<Rightarrow> 'b outcome) \<Rightarrow> 'b outcome" where
  "obind (Ret x) f = f x"
| "obind Hang f = Hang"
| "obind Crash f = Crash"

declare obind.simps [outcome_simps]

fun omap :: "('a \<Rightarrow> 'b) \<Rightarrow> 'a outcome \<Rightarrow> 'b outcome" where
  "omap f (Ret x) = Ret (f x)"
| "omap f Hang = Hang"
| "omap f Crash = Crash"

lemma obind_assoc [outcome_simps]: "obind (obind m f) g = obind m (\<lambda>x. obind (f x) g)"
  by (cases m) auto

lemma obind_Ret_iff: "obind m f = Ret y \<longleftrightarrow> (\<exists>x. m = Ret x \<and> f x = Ret y)"
  by (cases m) auto

lemma obind_Crash_iff: "obind m f = Crash \<longleftrightarrow> m = Crash \<or> (\<exists>x. m = Ret x \<and> f x = Crash)"
  by (cases m) auto

lemma omap_Ret_iff: "omap f m = Ret y \<longleftrightarrow> (\<exists>x. m = Ret x \<and> y = f x)"
  by (cases m) auto

lemma omap_Crash_iff [simp]: "omap f m = Crash \<longleftrightarrow> m = Crash"
  by (cases m) auto

lemma omap_Hang_iff [simp]: "omap f m = Hang \<longleftrightarrow> m = Hang"
  by (cases m) auto

definition of_option :: "'a option \<Rightarrow> 'a outcome" where
  "of_option x = (case x of None \<Rightarrow> Crash | Some y \<Rightarrow> Ret y)"

lemma of_option_simps [simp]: "of_option None = Crash" "of_option (Some y) = Ret y"
  by (simp_all add: of_option_def)

lemma of_option_not_Hang [simp]: "of_option x \<noteq> Hang"
  by (cases x) auto

lemma of_option_Ret_iff [simp]: "of_option x = Ret y \<longleftrightarrow> x = Some y"
  by (cases x) auto

lemma of_option_Crash_iff [simp]: "of_option x = Crash \<longleftrightarrow> x = None"
  by (cases x) auto

text \<open>\<open>owhen ok m\<close>: \<open>m\<close>, if the memory accesses it makes are inside their objects.\<close>

definition oguard :: "bool \<Rightarrow> 'a outcome \<Rightarrow> 'a outcome" where
  "oguard ok m = (if ok then m else Crash)"

lemma oguard_simps [simp]: "oguard True m = m" "oguard False m = Crash"
  by (simp_all add: oguard_def)

lemma oguard_Ret_iff: "oguard ok m = Ret y \<longleftrightarrow> ok \<and> m = Ret y"
  by (simp add: oguard_def)

section \<open>Buffers\<close>

definition peek :: "nat \<Rightarrow> nat \<Rightarrow> 'a list \<Rightarrow> 'a list" where
  "peek off n buf = take n (drop off buf)"

definition poke :: "nat \<Rightarrow> 'a list \<Rightarrow> 'a list \<Rightarrow> 'a list" where
  "poke off bs buf = take off buf @ bs @ drop (off + length bs) buf"

lemma length_peek [buffer_simps]: "off + n \<le> length buf \<Longrightarrow> length (peek off n buf) = n"
  by (simp add: peek_def)

lemma length_poke [buffer_simps]: "off + length bs \<le> length buf \<Longrightarrow> length (poke off bs buf) = length buf"
  by (simp add: poke_def)

lemma peek_poke_same: "off + length bs \<le> length buf \<Longrightarrow> peek off (length bs) (poke off bs buf) = bs"
  by (simp add: peek_def poke_def)

lemma drop_poke_after:
  "off + length bs \<le> length buf \<Longrightarrow> off + length bs \<le> k \<Longrightarrow> drop k (poke off bs buf) = drop k buf"
  by (simp add: poke_def)

lemma take_poke_before: "off \<le> length buf \<Longrightarrow> k \<le> off \<Longrightarrow> take k (poke off bs buf) = take k buf"
  by (simp add: poke_def min_absorb1)

lemma peek_poke_before: "off \<le> length buf \<Longrightarrow> a + n \<le> off \<Longrightarrow> peek a n (poke off bs buf) = peek a n buf"
  by (simp add: peek_def poke_def take_drop min_absorb1 add.commute)

lemma peek_poke_after:
  "off + length bs \<le> length buf \<Longrightarrow> off + length bs \<le> a \<Longrightarrow> peek a n (poke off bs buf) = peek a n buf"
  by (simp add: peek_def drop_poke_after)

lemma peek_append_peek [buffer_simps]: "peek a m buf @ peek (a + m) n buf = peek a (m + n) buf"
  by (simp add: peek_def take_add add.commute)

lemma peek_append_peek_rest:
  "peek a m buf @ peek (a + m) n buf @ xs = peek a (m + n) buf @ xs"
  using peek_append_peek [of a m buf n] by (metis append.assoc)

lemma peek_0 [simp]: "peek 0 n buf = take n buf"
  by (simp add: peek_def)

lemma poke_Nil [simp]: "poke off [] buf = buf"
  by (simp add: poke_def)

lemma poke_poke_same: "length bs = length cs \<Longrightarrow> off + length bs \<le> length buf \<Longrightarrow>
   poke off cs (poke off bs buf) = poke off cs buf"
  by (simp add: poke_def)

lemma poke_peek: "off + n \<le> length buf \<Longrightarrow> poke off (peek off n buf) buf = buf"
  by (simp add: poke_def peek_def) (metis append_take_drop_id drop_drop add.commute)

section \<open>Byte order\<close>

definition le16 :: "u16 \<Rightarrow> byte list" where
  "le16 w = [ucast w, ucast (drop_bit 8 w)]"

definition le32 :: "u32 \<Rightarrow> byte list" where
  "le32 w = [ucast w, ucast (drop_bit 8 w), ucast (drop_bit 16 w), ucast (drop_bit 24 w)]"

fun un_le16 :: "byte list \<Rightarrow> u16" where
  "un_le16 (a # b # _) = ucast a OR push_bit 8 (ucast b)"
| "un_le16 _ = 0"

fun un_le32 :: "byte list \<Rightarrow> u32" where
  "un_le32 (a # b # c # d # _) =
     ucast a OR push_bit 8 (ucast b) OR push_bit 16 (ucast c) OR push_bit 24 (ucast d)"
| "un_le32 _ = 0"

text \<open>\<open>htonl\<close>, \<open>htons\<close>, \<open>ntohl\<close>, \<open>ntohs\<close> reverse the bytes of a word on this host.\<close>

definition htonl :: "u32 \<Rightarrow> u32" where "htonl w = un_le32 (rev (le32 w))"
definition htons :: "u16 \<Rightarrow> u16" where "htons w = un_le16 (rev (le16 w))"
definition ntohl :: "u32 \<Rightarrow> u32" where "ntohl w = htonl w"
definition ntohs :: "u16 \<Rightarrow> u16" where "ntohs w = htons w"

definition be32 :: "u32 \<Rightarrow> byte list" where "be32 w = rev (le32 w)"
definition be16 :: "u16 \<Rightarrow> byte list" where "be16 w = rev (le16 w)"

lemma length_le [simp]: "length (le16 w) = 2" "length (le32 v) = 4"
  by (simp_all add: le16_def le32_def)

lemma length_be [simp]: "length (be16 w) = 2" "length (be32 v) = 4"
  by (simp_all add: be16_def be32_def)

lemma un_le16_le16 [simp]: "un_le16 (le16 w @ bs) = w"
  by (rule bit_word_eqI) (auto simp: le16_def bit_simps)

lemma un_le32_le32 [simp]: "un_le32 (le32 w @ bs) = w"
proof (rule bit_word_eqI)
  fix n assume "n < LENGTH(32)"
  then have "n < 32" by simp
  then show "bit (un_le32 (le32 w @ bs)) n \<longleftrightarrow> bit w n"
    by (cases "n < 8"; cases "n < 16"; cases "n < 24") (auto simp: le32_def bit_simps)
qed

lemma un_le16_le16_Nil [simp]: "un_le16 (le16 w) = w"
  using un_le16_le16 [of w "[]"] by simp

lemma un_le32_le32_Nil [simp]: "un_le32 (le32 w) = w"
  using un_le32_le32 [of w "[]"] by simp

lemma le16_un_le16: "length bs = 2 \<Longrightarrow> le16 (un_le16 bs) = bs"
proof -
  assume "length bs = 2"
  then obtain a b where bs: "bs = [a, b]"
    by (auto simp: numeral_2_eq_2 length_Suc_conv)
  have "ucast (ucast a OR push_bit 8 (ucast b) :: u16) = a"
    by (rule bit_word_eqI) (auto simp: bit_simps)
  moreover have "ucast (drop_bit 8 (ucast a OR push_bit 8 (ucast b) :: u16)) = b"
    by (rule bit_word_eqI) (auto simp: bit_simps dest: bit_imp_le_length)
  ultimately show ?thesis by (simp add: bs le16_def)
qed

lemma le32_un_le32: "length bs = 4 \<Longrightarrow> le32 (un_le32 bs) = bs"
proof -
  assume "length bs = 4"
  then obtain a b c d where bs: "bs = [a, b, c, d]"
    by (auto simp: numeral_eq_Suc length_Suc_conv)
  let ?w = "ucast a OR push_bit 8 (ucast b) OR push_bit 16 (ucast c) OR push_bit 24 (ucast d) :: u32"
  have "ucast ?w = a"
    by (rule bit_word_eqI) (auto simp: bit_simps)
  moreover have "ucast (drop_bit 8 ?w) = b"
    by (rule bit_word_eqI) (auto simp: bit_simps dest: bit_imp_le_length)
  moreover have "ucast (drop_bit 16 ?w) = c"
    by (rule bit_word_eqI) (auto simp: bit_simps dest: bit_imp_le_length)
  moreover have "ucast (drop_bit 24 ?w) = d"
    by (rule bit_word_eqI) (auto simp: bit_simps dest: bit_imp_le_length)
  ultimately show ?thesis by (simp add: bs le32_def)
qed

lemma le16_htons [order_simps]: "le16 (htons w) = be16 w"
  by (simp add: htons_def be16_def le16_un_le16)

lemma le32_htonl [order_simps]: "le32 (htonl w) = be32 w"
  by (simp add: htonl_def be32_def le32_un_le32)

lemma ntohl_htonl [simp]: "ntohl (htonl w) = w"
proof -
  have "le32 (htonl (htonl w)) = le32 w"
    by (simp add: le32_htonl be32_def)
  then have "un_le32 (le32 (htonl (htonl w))) = un_le32 (le32 w)"
    by (rule arg_cong)
  then show ?thesis by (simp add: ntohl_def)
qed

lemma ntohs_htons [simp]: "ntohs (htons w) = w"
proof -
  have "le16 (htons (htons w)) = le16 w"
    by (simp add: le16_htons be16_def)
  then have "un_le16 (le16 (htons (htons w))) = un_le16 (le16 w)"
    by (rule arg_cong)
  then show ?thesis by (simp add: ntohs_def)
qed

lemma htonl_ntohl [simp]: "htonl (ntohl w) = w"
  using ntohl_htonl [of w] by (simp add: ntohl_def)

lemma htons_ntohs [simp]: "htons (ntohs w) = w"
  using ntohs_htons [of w] by (simp add: ntohs_def)

lemma htonl_eq_iff [simp]: "htonl v = htonl w \<longleftrightarrow> v = w"
  by (metis ntohl_htonl)

section \<open>Integers of C\<close>

text \<open>A C \<open>int\<close> is an \<open>int\<close> in the range of 32 bits; it is read from a word with \<open>sint\<close>.\<close>

definition is_cint :: "int \<Rightarrow> bool" where
  "is_cint i \<longleftrightarrow> - (2 ^ 31) \<le> i \<and> i < 2 ^ 31"

definition to_cint :: "u32 \<Rightarrow> int" where
  "to_cint w = sint w"

definition of_cint :: "int \<Rightarrow> u32" where
  "of_cint i = word_of_int i"

lemma is_cint_to_cint [simp]: "is_cint (to_cint w)"
  using sint_ge [of w] sint_lt [of w] by (simp add: is_cint_def to_cint_def)

lemma of_cint_to_cint [simp]: "of_cint (to_cint w) = w"
  by (simp add: of_cint_def to_cint_def)

lemma to_cint_of_cint [simp]: "is_cint i \<Longrightarrow> to_cint (of_cint i) = i"
  by (simp add: is_cint_def of_cint_def to_cint_def sint_sbintrunc' signed_take_bit_int_eq_self)

section \<open>C strings\<close>

text \<open>
  A C string is a \<open>string\<close>, its characters before the terminating NUL; a character array is
  a list of bytes in packets, and a list of characters elsewhere.
\<close>

definition bytes_of :: "string \<Rightarrow> byte list" where
  "bytes_of s = map of_char s"

definition string_of :: "byte list \<Rightarrow> string" where
  "string_of bs = map (\<lambda>b. char_of (unat b)) bs"

lemma char_of_unat_of_char [simp]: "char_of (unat (of_char c :: byte)) = c"
proof -
  have "(of_char c :: byte) = of_nat (of_char c)"
    by (simp only: of_nat_of_char)
  then have "unat (of_char c :: byte) = (of_char c :: nat)"
    using nat_of_char_less_256 [of c] by (simp only: unat_of_nat) simp
  then show ?thesis by simp
qed

lemma string_of_bytes_of [simp]: "string_of (bytes_of s) = s"
  by (simp add: string_of_def bytes_of_def o_def)

lemma length_bytes_of [simp]: "length (bytes_of s) = length s"
  by (simp add: bytes_of_def)

lemma length_string_of [simp]: "length (string_of s) = length s"
  by (simp add: string_of_def)

end
