(* ===== verification/Cstring.thy ===== *)
theory Cstring
  imports Prelude "HOL-Library.Sublist"
begin

text \<open>
  The functions of \<open><string.h>\<close> the sources call, on the characters of a C string before its
  NUL: \<open>strstr\<close> and \<open>strchr\<close> return an index, \<open>strncmp\<close> is compared with zero, and \<open>strncpy\<close>
  fills a field of a packet. \<open>c_str\<close> reads a string back from an array of bytes.
\<close>

abbreviation NUL :: char where "NUL \<equiv> CHR 0x00"

definition no_nul :: "string \<Rightarrow> bool" where
  "no_nul s \<longleftrightarrow> NUL \<notin> set s"

fun strstr :: "string \<Rightarrow> string \<Rightarrow> nat option" where
  "strstr [] needle = (if needle = [] then Some 0 else None)"
| "strstr (c # s) needle =
     (if prefix needle (c # s) then Some 0 else map_option Suc (strstr s needle))"

fun strchr :: "string \<Rightarrow> char \<Rightarrow> nat option" where
  "strchr [] x = None"
| "strchr (c # s) x = (if c = x then Some 0 else map_option Suc (strchr s x))"

definition strncmp_eq :: "string \<Rightarrow> string \<Rightarrow> nat \<Rightarrow> bool" where
  "strncmp_eq s t n \<longleftrightarrow> take n (s @ [NUL]) = take n (t @ [NUL])"

definition strncpy :: "string \<Rightarrow> nat \<Rightarrow> byte list" where
  "strncpy s n = take n (bytes_of s @ replicate n 0)"

definition c_str :: "byte list \<Rightarrow> string option" where
  "c_str bs = (if 0 \<in> set bs then Some (string_of (takeWhile (\<lambda>b. b \<noteq> 0) bs)) else None)"

lemma no_nul_simps [simp]:
  "no_nul []" "no_nul (c # s) \<longleftrightarrow> c \<noteq> NUL \<and> no_nul s" "no_nul (s @ t) \<longleftrightarrow> no_nul s \<and> no_nul t"
  by (auto simp: no_nul_def)

lemma strstr_Some_iff:
  "strstr s needle = Some i \<longleftrightarrow>
     i \<le> length s \<and> prefix needle (drop i s) \<and> (\<forall>j < i. \<not> prefix needle (drop j s))"
proof (induction s needle arbitrary: i rule: strstr.induct)
  case (1 needle)
  then show ?case by auto
next
  case (2 c s needle)
  show ?case
  proof (cases i)
    case 0
    then show ?thesis by auto
  next
    case (Suc k)
    then show ?thesis using "2.IH" [of k]
      by (auto simp: All_less_Suc2)
  qed
qed

lemma strstr_None_iff: "strstr s needle = None \<longleftrightarrow> \<not> sublist needle s"
  by (induction s needle rule: strstr.induct) (auto simp: sublist_Cons_right)

lemma strchr_None_iff [cstring_simps]: "strchr s x = None \<longleftrightarrow> x \<notin> set s"
  by (induction s) auto

lemma strchr_Some_iff:
  "strchr s x = Some i \<longleftrightarrow> i < length s \<and> s ! i = x \<and> x \<notin> set (take i s)"
proof (induction s arbitrary: i)
  case Nil
  then show ?case by simp
next
  case (Cons c s)
  then show ?case by (cases i) auto
qed

lemma strstr_char: "strstr s [x] = strchr s x"
  by (induction s) auto

lemma strchr_eq_length_takeWhile:
  "x \<in> set s \<Longrightarrow> strchr s x = Some (length (takeWhile (\<lambda>c. c \<noteq> x) s))"
  by (induction s) auto

lemma length_strncpy [simp]: "length (strncpy s n) = n"
  by (simp add: strncpy_def)

lemma of_char_eq_0_iff [simp]: "(of_char c :: byte) = 0 \<longleftrightarrow> c = NUL"
proof
  assume h: "(of_char c :: byte) = 0"
  have "char_of (unat (of_char c :: byte)) = c" by simp
  with h have "char_of (unat (0 :: byte)) = c" by simp
  then show "c = NUL" by (simp add: char_of_def)
qed simp

lemma takeWhile_bytes_of: "no_nul s \<Longrightarrow> takeWhile (\<lambda>b. b \<noteq> 0) (bytes_of s @ 0 # bs) = bytes_of s"
  by (induction s) (auto simp: bytes_of_def)

lemma c_str_bytes_of [cstring_simps]: "no_nul s \<Longrightarrow> c_str (bytes_of s @ 0 # bs) = Some s"
  by (simp add: c_str_def takeWhile_bytes_of)

lemma strncpy_short: "length s < n \<Longrightarrow> strncpy s n = bytes_of s @ replicate (n - length s) 0"
  by (simp add: strncpy_def)

lemma c_str_strncpy [cstring_simps]:
  assumes "no_nul s" and "length s < n"
  shows "c_str (strncpy s n @ bs) = Some s"
proof -
  obtain k where "n - length s = Suc k"
    using assms(2) by (metis Suc_diff_Suc)
  then show ?thesis using assms by (simp add: strncpy_short c_str_bytes_of)
qed

lemma strncpy_long:
  assumes "no_nul s" and "n \<le> length s"
  shows "0 \<notin> set (strncpy s n)"
proof -
  have "strncpy s n = bytes_of (take n s)"
    using assms(2) by (simp add: strncpy_def bytes_of_def take_map)
  moreover have "no_nul (take n s)"
    using assms(1) by (auto simp: no_nul_def dest: in_set_takeD)
  ultimately show ?thesis by (auto simp: bytes_of_def no_nul_def)
qed

lemma char_of_unat_eq_NUL [simp]: "char_of (unat (b :: byte)) = NUL \<longleftrightarrow> b = 0"
proof
  assume "char_of (unat b) = NUL"
  then have "of_char (char_of (unat b)) = (0 :: nat)" by simp
  moreover have "unat b < 256" using unsigned_less [of b, where ?'a = nat] by simp
  ultimately have "unat b = 0" by simp
  then show "b = 0" by (simp add: unat_eq_zero)
qed (simp add: char_of_def)

lemma no_nul_string_of: "0 \<notin> set bs \<Longrightarrow> no_nul (string_of bs)"
proof (induction bs)
  case Nil
  then show ?case by (simp add: string_of_def)
next
  case (Cons b bs)
  then show ?case by (simp add: string_of_def)
qed

lemma c_str_no_nul: "c_str bs = Some s \<Longrightarrow> no_nul s"
  by (auto simp: c_str_def dest: set_takeWhileD intro!: no_nul_string_of split: if_splits)

lemma bytes_of_string_of [simp]: "bytes_of (string_of bs) = bs"
proof -
  have "(of_char (char_of (unat b)) :: byte) = b" for b :: byte
  proof -
    have "(of_char (char_of (unat b)) :: byte) = of_nat (of_char (char_of (unat b)))"
      by (simp only: of_nat_of_char)
    also have "\<dots> = of_nat (unat b mod 256)" by (simp only: of_char_of)
    also have "\<dots> = b" using unsigned_less [of b, where ?'a = nat] by simp
    finally show ?thesis .
  qed
  then show ?thesis by (simp add: bytes_of_def string_of_def o_def map_idI)
qed

lemma c_str_split:
  assumes "c_str bs = Some s"
  obtains rest where "bs = bytes_of s @ 0 # rest"
proof -
  from assms have mem: "0 \<in> set bs" and s: "s = string_of (takeWhile (\<lambda>b. b \<noteq> 0) bs)"
    by (simp_all add: c_str_def split: if_splits)
  have "dropWhile (\<lambda>b. b \<noteq> 0) bs \<noteq> []" using mem by auto
  then have "dropWhile (\<lambda>b. b \<noteq> 0) bs = 0 # tl (dropWhile (\<lambda>b. b \<noteq> 0) bs)"
    using hd_dropWhile [of "\<lambda>b. b \<noteq> 0" bs] by (metis list.collapse)
  then have "bs = bytes_of s @ 0 # tl (dropWhile (\<lambda>b. b \<noteq> 0) bs)"
    unfolding s bytes_of_string_of by (metis takeWhile_dropWhile_id)
  with that show thesis by blast
qed

end
