(* ===== verification/Sockets.thy ===== *)
theory Sockets
  imports Cstring
begin

text \<open>
  Stream sockets as the sources see them, and the two loops of \<open>linkproto_core.c\<close> that move an
  exact number of bytes through them.

  What a socket will do is a script. \<open>rx_event\<close> lists what arrives on it: segments of bytes in
  any cut, the peer's close, an error of \<open>recv\<close>; an exhausted script is a socket on which
  nothing more ever arrives, so a read on it does not return. \<open>tx_event\<close> lists what \<open>send\<close> will
  accept: part of the bytes, or an error; an exhausted plan accepts everything. Every finite
  behaviour of a socket is some script, so a theorem over all scripts is a theorem over all
  fragmentations, closes and errors.
\<close>

datatype errno = EPIPE | ECONNRESET | ECONNABORTED | EAGAIN | EINTR | EOther

text \<open>The three errors on which the loops give up.\<close>

definition fatal :: "errno \<Rightarrow> bool" where
  "fatal e \<longleftrightarrow> e = EPIPE \<or> e = ECONNRESET \<or> e = ECONNABORTED"

datatype rx_event = Arrive "byte list" | PeerClosed | RxError errno

datatype rx_result = Got "byte list" | Eof | Failed errno | Blocked

fun sys_recv :: "nat \<Rightarrow> rx_event list \<Rightarrow> rx_result \<times> rx_event list" where
  "sys_recv n [] = (Blocked, [])"
| "sys_recv n (Arrive bs # es) =
     (if bs = [] then sys_recv n es
      else (Got (take n bs), if length bs \<le> n then es else Arrive (drop n bs) # es))"
| "sys_recv n (PeerClosed # es) = (Eof, PeerClosed # es)"
| "sys_recv n (RxError e # es) = (Failed e, es)"

datatype tx_event = Accept nat | TxError errno

fun sys_send :: "tx_event list \<Rightarrow> byte list \<Rightarrow> (errno + nat) \<times> tx_event list" where
  "sys_send [] bs = (Inr (length bs), [])"
| "sys_send (Accept k # p) bs = (Inr (min k (length bs)), p)"
| "sys_send (TxError e # p) bs = (Inl e, p)"

section \<open>What a script delivers\<close>

text \<open>
  The abstract reading of a script: the bytes it delivers before it ends, and how it ends. The
  errors the loops retry on do not show.
\<close>

datatype ending = Waits | Closes | Breaks

fun stream :: "rx_event list \<Rightarrow> byte list" where
  "stream [] = []"
| "stream (Arrive bs # es) = bs @ stream es"
| "stream (PeerClosed # es) = []"
| "stream (RxError e # es) = (if fatal e then [] else stream es)"

fun script_end :: "rx_event list \<Rightarrow> ending" where
  "script_end [] = Waits"
| "script_end (Arrive bs # es) = script_end es"
| "script_end (PeerClosed # es) = Closes"
| "script_end (RxError e # es) = (if fatal e then Breaks else script_end es)"

fun weight :: "rx_event list \<Rightarrow> nat" where
  "weight [] = 0"
| "weight (Arrive bs # es) = Suc (length bs + weight es)"
| "weight (_ # es) = Suc (weight es)"

lemma sys_recv_Failed_weight: "sys_recv n es = (Failed e, es') \<Longrightarrow> weight es' < weight es"
  by (induction n es rule: sys_recv.induct) (auto split: if_splits)

lemma sys_recv_Got_weight: "sys_recv n es = (Got bs, es') \<Longrightarrow> 0 < n \<Longrightarrow> weight es' < weight es"
  by (induction n es rule: sys_recv.induct) (auto split: if_splits)

lemma sys_recv_Got:
  "sys_recv n es = (Got bs, es') \<Longrightarrow> 0 < n \<Longrightarrow>
     bs \<noteq> [] \<and> length bs \<le> n \<and> stream es = bs @ stream es' \<and> script_end es = script_end es'"
  by (induction n es rule: sys_recv.induct) (auto split: if_splits)

lemma sys_recv_Failed:
  "sys_recv n es = (Failed e, es') \<Longrightarrow>
     (if fatal e then stream es = [] \<and> script_end es = Breaks
      else stream es = stream es' \<and> script_end es = script_end es')"
  by (induction n es rule: sys_recv.induct) (auto split: if_splits)

lemma sys_recv_Eof:
  "sys_recv n es = (Eof, es') \<Longrightarrow>
     stream es = [] \<and> script_end es = Closes \<and> stream es' = [] \<and> script_end es' = Closes"
  by (induction n es rule: sys_recv.induct) (auto split: if_splits)

lemma sys_recv_Blocked: "sys_recv n es = (Blocked, es') \<Longrightarrow> stream es = [] \<and> script_end es = Waits"
  by (induction n es rule: sys_recv.induct) (auto split: if_splits)

lemmas sys_recv_stream = sys_recv_Got sys_recv_Failed sys_recv_Eof sys_recv_Blocked

section \<open>\<open>pko_recv_bytes\<close>\<close>

text \<open>
  The loop \<open>while (left > 0)\<close>: \<open>room\<close> is how many bytes may still be written into the object
  behind \<open>buf\<close>; writing more than that is \<open>Crash\<close>. The result is the returned value, the bytes
  written, and what is left of the script.
\<close>

function recv_loop ::
  "int \<Rightarrow> nat \<Rightarrow> nat \<Rightarrow> rx_event list \<Rightarrow> (int \<times> byte list \<times> rx_event list) outcome" where
  "recv_loop bytes room left es =
     (if left = 0 then Ret (bytes, [], es)
      else case sys_recv left es of
        (Blocked, es') \<Rightarrow> Hang
      | (Failed e, es') \<Rightarrow> if fatal e then Ret (-1, [], es') else recv_loop bytes room left es'
      | (Eof, es') \<Rightarrow> Ret (0, [], es')
      | (Got bs, es') \<Rightarrow>
          if room < length bs then Crash
          else omap (\<lambda>(r, cs, es''). (r, bs @ cs, es''))
                 (recv_loop bytes (room - length bs) (left - length bs) es'))"
  by pat_completeness auto
termination
  by (relation "measure (\<lambda>(bytes, room, left, es). weight es)")
     (auto dest: sys_recv_Failed_weight [OF sym] sys_recv_Got_weight [OF sym])

declare recv_loop.simps [simp del]

definition recv_bytes ::
  "nat \<Rightarrow> int \<Rightarrow> rx_event list \<Rightarrow> (int \<times> byte list \<times> rx_event list) outcome" where
  "recv_bytes room bytes es = recv_loop bytes room (nat bytes) es"

lemma recv_loop_0: "recv_loop bytes room 0 es = Ret (bytes, [], es)"
  by (simp add: recv_loop.simps)

lemma recv_loop_Got:
  "left \<noteq> 0 \<Longrightarrow> sys_recv left es = (Got bs, es') \<Longrightarrow> recv_loop bytes room left es =
     (if room < length bs then Crash
      else omap (\<lambda>(r, cs, es''). (r, bs @ cs, es''))
             (recv_loop bytes (room - length bs) (left - length bs) es'))"
  by (simp add: recv_loop.simps [of bytes room left es])

lemma recv_loop_Failed:
  "left \<noteq> 0 \<Longrightarrow> sys_recv left es = (Failed e, es') \<Longrightarrow> recv_loop bytes room left es =
     (if fatal e then Ret (-1, [], es') else recv_loop bytes room left es')"
  by (simp add: recv_loop.simps [of bytes room left es])

lemma recv_loop_Eof:
  "left \<noteq> 0 \<Longrightarrow> sys_recv left es = (Eof, es') \<Longrightarrow> recv_loop bytes room left es = Ret (0, [], es')"
  by (simp add: recv_loop.simps [of bytes room left es])

lemma recv_loop_Blocked:
  "left \<noteq> 0 \<Longrightarrow> sys_recv left es = (Blocked, es') \<Longrightarrow> recv_loop bytes room left es = Hang"
  by (simp add: recv_loop.simps [of bytes room left es])

lemmas recv_loop_steps = recv_loop_0 recv_loop_Got recv_loop_Failed recv_loop_Eof recv_loop_Blocked

text \<open>One rule for proofs about the loop: by cases on what the next \<open>recv\<close> gives.\<close>

lemma recv_loop_cases [case_names Done Got Retry Broken Eof Blocked]:
  fixes P :: "int \<Rightarrow> nat \<Rightarrow> nat \<Rightarrow> rx_event list \<Rightarrow> bool"
  assumes "\<And>bytes room es. P bytes room 0 es"
    and "\<And>bytes room left es bs es'. left \<noteq> 0 \<Longrightarrow> sys_recv left es = (Got bs, es') \<Longrightarrow>
      bs \<noteq> [] \<Longrightarrow> length bs \<le> left \<Longrightarrow> stream es = bs @ stream es' \<Longrightarrow>
      script_end es = script_end es' \<Longrightarrow>
      (length bs \<le> room \<Longrightarrow> P bytes (room - length bs) (left - length bs) es') \<Longrightarrow>
      P bytes room left es"
    and "\<And>bytes room left es e es'. left \<noteq> 0 \<Longrightarrow> sys_recv left es = (Failed e, es') \<Longrightarrow>
      \<not> fatal e \<Longrightarrow> stream es = stream es' \<Longrightarrow> script_end es = script_end es' \<Longrightarrow>
      P bytes room left es' \<Longrightarrow> P bytes room left es"
    and "\<And>bytes room left es e es'. left \<noteq> 0 \<Longrightarrow> sys_recv left es = (Failed e, es') \<Longrightarrow>
      fatal e \<Longrightarrow> stream es = [] \<Longrightarrow> script_end es = Breaks \<Longrightarrow> P bytes room left es"
    and "\<And>bytes room left es es'. left \<noteq> 0 \<Longrightarrow> sys_recv left es = (Eof, es') \<Longrightarrow>
      stream es = [] \<Longrightarrow> script_end es = Closes \<Longrightarrow> stream es' = [] \<Longrightarrow> script_end es' = Closes \<Longrightarrow>
      P bytes room left es"
    and "\<And>bytes room left es es'. left \<noteq> 0 \<Longrightarrow> sys_recv left es = (Blocked, es') \<Longrightarrow>
      stream es = [] \<Longrightarrow> script_end es = Waits \<Longrightarrow> P bytes room left es"
  shows "P bytes room left es"
proof (induction bytes room left es rule: recv_loop.induct)
  case (1 bytes room left es)
  show ?case
  proof (cases "left = 0")
    case True
    with assms(1) show ?thesis by simp
  next
    case False
    obtain res es' where rcv: "sys_recv left es = (res, es')" by fastforce
    show ?thesis
    proof (cases res)
      case (Got bs)
      with rcv False have "bs \<noteq> []" "length bs \<le> left" "stream es = bs @ stream es'"
        "script_end es = script_end es'"
        using sys_recv_Got by blast+
      with assms(2) [OF False] rcv Got "1.IH"(1) [OF False rcv [symmetric] Got] show ?thesis
        by (simp add: not_less)
    next
      case (Failed e)
      have now: "if fatal e then stream es = [] \<and> script_end es = Breaks
         else stream es = stream es' \<and> script_end es = script_end es'"
        using rcv Failed sys_recv_Failed [of left es e es'] by simp
      show ?thesis
      proof (cases "fatal e")
        case True
        with now assms(4) [OF False] rcv Failed show ?thesis by simp
      next
        case nf: False
        with now assms(3) [OF False] rcv Failed "1.IH"(2) [OF False rcv [symmetric] Failed nf]
        show ?thesis by simp
      qed
    next
      case Eof
      with rcv sys_recv_Eof [of left es es'] assms(5) [OF False] show ?thesis by simp
    next
      case Blocked
      with rcv sys_recv_Blocked [of left es es'] assms(6) [OF False] show ?thesis by simp
    qed
  qed
qed

section \<open>The loop against its abstract reading\<close>

text \<open>
  Only the bytes a script delivers and the way it ends matter, not how they are cut: the
  abstract reading of \<open>pko_recv_bytes\<close>.
\<close>

definition recv_spec ::
  "int \<Rightarrow> nat \<Rightarrow> nat \<Rightarrow> byte list \<Rightarrow> ending \<Rightarrow> (int \<times> byte list) outcome" where
  "recv_spec bytes room left bs fin =
     (if room < left \<and> room < length bs then Crash
      else if left \<le> length bs then Ret (bytes, take left bs)
      else case fin of Waits \<Rightarrow> Hang | Closes \<Rightarrow> Ret (0, bs) | Breaks \<Rightarrow> Ret (-1, bs))"

lemma recv_spec_append:
  "length bs \<le> left \<Longrightarrow> recv_spec bytes room left (bs @ cs) fin =
     (if room < length bs then Crash
      else omap (\<lambda>(r, ds). (r, bs @ ds)) (recv_spec bytes (room - length bs) (left - length bs) cs fin))"
  by (auto simp: recv_spec_def split: ending.splits)

lemma omap_omap: "omap f (omap g m) = omap (\<lambda>x. f (g x)) m"
  by (cases m) auto

lemma recv_loop_refines:
  "omap (\<lambda>(r, cs, es'). (r, cs)) (recv_loop bytes room left es) =
     recv_spec bytes room left (stream es) (script_end es)"
proof (induction bytes room left es rule: recv_loop_cases)
  case (Got bytes room left es bs es')
  show ?case
  proof (cases "length bs \<le> room")
    case True
    have "omap (\<lambda>(r, cs, es'). (r, cs)) (recv_loop bytes room left es) =
        omap (\<lambda>(r, ds). (r, bs @ ds)) (omap (\<lambda>(r, cs, es'). (r, cs))
          (recv_loop bytes (room - length bs) (left - length bs) es'))"
      using Got.hyps True by (simp add: recv_loop_Got omap_omap split_def)
    also have "\<dots> = recv_spec bytes room left (stream es) (script_end es)"
      using Got.hyps True by (simp only: Got.IH) (simp add: recv_spec_append)
    finally show ?thesis .
  qed (use Got in \<open>simp add: recv_loop_Got recv_spec_append\<close>)
qed (simp_all add: recv_loop_steps recv_spec_def)

lemma recv_loop_rest:
  "recv_loop bytes room left es = Ret (r, cs, es') \<Longrightarrow>
     left \<le> length (stream es) \<or> script_end es \<noteq> Breaks \<Longrightarrow>
     stream es = cs @ stream es' \<and> script_end es' = script_end es"
proof (induction bytes room left es arbitrary: r cs rule: recv_loop_cases)
  case (Got bytes room left es bs es1)
  then have room: "length bs \<le> room" by (simp add: recv_loop_Got split: if_splits)
  with Got.prems(1) Got.hyps obtain ds where
    "recv_loop bytes (room - length bs) (left - length bs) es1 = Ret (r, ds, es')" "cs = bs @ ds"
    by (auto simp: recv_loop_Got omap_Ret_iff)
  moreover have "left - length bs \<le> length (stream es1) \<or> script_end es1 \<noteq> Breaks"
    using Got.prems(2) Got.hyps by auto
  ultimately show ?case using Got.IH [OF room, of r ds] Got.hyps by simp
qed (simp_all add: recv_loop_steps)

lemma recv_loop_length:
  "recv_loop bytes room left es = Ret (r, cs, es') \<Longrightarrow> length cs \<le> room \<and> length cs \<le> left"
proof (induction bytes room left es arbitrary: cs rule: recv_loop_cases)
  case (Got bytes room left es bs es1)
  then have room: "length bs \<le> room" by (simp add: recv_loop_Got split: if_splits)
  with Got.prems Got.hyps obtain ds where
    "recv_loop bytes (room - length bs) (left - length bs) es1 = Ret (r, ds, es')" "cs = bs @ ds"
    by (auto simp: recv_loop_Got omap_Ret_iff)
  with Got.IH [OF room, of ds] Got.hyps room show ?case by auto
qed (simp_all add: recv_loop_steps)

lemma recv_loop_enough:
  assumes "left \<le> room" and "left \<le> length (stream es)"
  obtains es' where "recv_loop bytes room left es = Ret (bytes, take left (stream es), es')"
    and "stream es' = drop left (stream es)" and "script_end es' = script_end es"
proof -
  have "omap (\<lambda>(r, cs, es'). (r, cs)) (recv_loop bytes room left es)
      = Ret (bytes, take left (stream es))"
    using assms by (simp add: recv_loop_refines recv_spec_def)
  then obtain es' where es': "recv_loop bytes room left es = Ret (bytes, take left (stream es), es')"
    by (auto simp: omap_Ret_iff)
  with recv_loop_rest [OF es'] assms(2) that show thesis
    by (metis append_eq_conv_conj length_take min.absorb2)
qed

lemma recv_bytes_none [simp]: "bytes \<le> 0 \<Longrightarrow> recv_bytes room bytes es = Ret (bytes, [], es)"
  by (simp add: recv_bytes_def recv_loop_0)

section \<open>\<open>pko_send_bytes\<close>\<close>

text \<open>
  The loop of \<open>pko_send_bytes\<close> over the bytes that are left: the returned value, the pieces the
  socket accepted, one for each \<open>send\<close> that moved something, and what is left of the plan.
\<close>

function send_loop ::
  "int \<Rightarrow> tx_event list \<Rightarrow> byte list \<Rightarrow> int \<times> byte list list \<times> tx_event list" where
  "send_loop bytes p bs =
     (if bs = [] then (bytes, [], p)
      else case sys_send p bs of
        (Inl e, p') \<Rightarrow> if fatal e then (-1, [], p') else send_loop bytes p' bs
      | (Inr k, p') \<Rightarrow>
          if k = 0 then (0, [], p')
          else let (r, css, p'') = send_loop bytes p' (drop k bs) in (r, take k bs # css, p''))"
  by pat_completeness auto

lemma sys_send_Inl: "sys_send p bs = (Inl e, p') \<Longrightarrow> p = TxError e # p'"
  by (induction p bs rule: sys_send.induct) auto

lemma sys_send_Inr: "sys_send p bs = (Inr k, p') \<Longrightarrow>
   k \<le> length bs \<and> (p = [] \<and> p' = [] \<and> k = length bs \<or> (\<exists>j. p = Accept j # p' \<and> k = min j (length bs)))"
  by (induction p bs rule: sys_send.induct) auto

termination send_loop
  by (relation "measure (\<lambda>(bytes, p, bs). length p + length bs)")
     (auto dest!: sys_send_Inl [OF sym] sys_send_Inr [OF sym])

declare send_loop.simps [simp del]

text \<open>A plan that keeps the connection up: no fatal error, no \<open>send\<close> that takes nothing.\<close>

fun plan_ok :: "tx_event list \<Rightarrow> bool" where
  "plan_ok [] = True"
| "plan_ok (Accept k # p) = (k \<noteq> 0 \<and> plan_ok p)"
| "plan_ok (TxError e # p) = (\<not> fatal e \<and> plan_ok p)"

lemma send_loop_open: "snd (snd (send_loop n [] bs)) = []"
  by (simp add: send_loop.simps)

lemma send_loop_prefix:
  "send_loop bytes p bs = (r, css, p') \<Longrightarrow> prefix (concat css) bs \<and>
     (r = bytes \<and> concat css = bs \<or> r = 0 \<or> r = -1)"
proof (induction bytes p bs arbitrary: r css p' rule: send_loop.induct)
  case (1 bytes p bs)
  show ?case
  proof (cases "bs = []")
    case True
    with "1.prems" show ?thesis by (simp add: send_loop.simps)
  next
    case False
    obtain res p1 where snd: "sys_send p bs = (res, p1)" by fastforce
    show ?thesis
    proof (cases res)
      case (Inl e)
      with "1.IH"(1) [OF False snd [symmetric] Inl] "1.prems" False snd show ?thesis
        by (auto simp: send_loop.simps [of bytes p bs] split: if_splits)
    next
      case (Inr k)
      show ?thesis
      proof (cases "k = 0")
        case True
        with Inr "1.prems" False snd show ?thesis by (simp add: send_loop.simps [of bytes p bs])
      next
        case pos: False
        obtain r' css' p'' where rest: "send_loop bytes p1 (drop k bs) = (r', css', p'')"
          by (cases "send_loop bytes p1 (drop k bs)")
        with Inr pos "1.prems" False snd have res: "r = r'" "css = take k bs # css'"
          by (simp_all add: send_loop.simps [of bytes p bs])
        have IH: "prefix (concat css') (drop k bs) \<and>
            (r' = bytes \<and> concat css' = drop k bs \<or> r' = 0 \<or> r' = -1)"
          using "1.IH"(2) [OF False snd [symmetric] Inr pos rest] .
        then have "prefix (take k bs @ concat css') (take k bs @ drop k bs)"
          by (simp only: same_prefix_prefix)
        then have "prefix (concat css) bs" by (simp add: res)
        moreover have "concat css = bs" if "concat css' = drop k bs"
          using that by (simp add: res)
        ultimately show ?thesis using IH res by blast
      qed
    qed
  qed
qed

lemma send_loop_complete:
  "plan_ok p \<Longrightarrow> \<exists>css p'. send_loop bytes p bs = (bytes, css, p') \<and> concat css = bs \<and> plan_ok p'"
proof (induction bytes p bs rule: send_loop.induct)
  case (1 bytes p bs)
  show ?case
  proof (cases "bs = []")
    case True
    with "1.prems" show ?thesis by (simp add: send_loop.simps)
  next
    case False
    obtain res p1 where snd: "sys_send p bs = (res, p1)" by fastforce
    show ?thesis
    proof (cases res)
      case (Inl e)
      with snd "1.prems" have "\<not> fatal e" "plan_ok p1" by (auto dest: sys_send_Inl)
      with "1.IH"(1) [OF False snd [symmetric] Inl] False snd Inl show ?thesis
        by (simp add: send_loop.simps [of bytes p bs])
    next
      case (Inr k)
      with snd "1.prems" False have ok: "k \<noteq> 0" "plan_ok p1"
        by (auto dest!: sys_send_Inr)
      with "1.IH"(2) [OF False snd [symmetric] Inr] obtain css p' where
        "send_loop bytes p1 (drop k bs) = (bytes, css, p')" "concat css = drop k bs" "plan_ok p'"
        by blast
      with False snd Inr ok show ?thesis
        by (simp add: send_loop.simps [of bytes p bs])
    qed
  qed
qed

end
