(* ===== verification/Packets.thy ===== *)
theory Packets
  imports Sockets
begin

text \<open>
  The packets of the protocols as the headers declare them, under \<open>#pragma pack(1)\<close>: one record
  for each \<open>struct\<close>, extending the record of the common header, with the function that lays it
  out in bytes (\<open>enc_\<close>), the one that reads it through a cast of a buffer (\<open>view_\<close>), and the
  lengths of its character arrays (\<open>ok_\<close>). Fields hold what the C fields hold, so a value in
  network order is \<open>htonl\<close> of it, as in the code.

  The contract of a layout is the locale \<open>packed_struct\<close>. Writing fields through a pointer into
  a packet buffer is \<open>store\<close> of an updated view: the fields that are not assigned keep the bytes
  that were there before.
\<close>

abbreviation (input) MAX_PATH :: nat where "MAX_PATH \<equiv> 256"
abbreviation (input) PACKET_MAXSIZE :: nat where "PACKET_MAXSIZE \<equiv> 4096"

section \<open>Writing through a pointer into a buffer\<close>

definition store :: "('r \<Rightarrow> byte list) \<Rightarrow> 'r \<Rightarrow> byte list \<Rightarrow> byte list" where
  "store enc r buf = poke 0 (enc r) buf"

locale packed_struct =
  fixes enc :: "'r \<Rightarrow> byte list"
    and view :: "byte list \<Rightarrow> 'r"
    and size_of :: nat
    and ok :: "'r \<Rightarrow> bool"
  assumes length_enc: "ok r \<Longrightarrow> length (enc r) = size_of"
    and view_enc: "ok r \<Longrightarrow> view (enc r @ rest) = r"
    and enc_view: "size_of \<le> length buf \<Longrightarrow> enc (view buf) = take size_of buf"
    and ok_view: "size_of \<le> length buf \<Longrightarrow> ok (view buf)"
begin

lemma length_store: "ok r \<Longrightarrow> size_of \<le> length buf \<Longrightarrow> length (store enc r buf) = length buf"
  by (simp add: store_def length_poke length_enc)

lemma view_store: "ok r \<Longrightarrow> view (store enc r buf) = r"
  by (simp add: store_def poke_def view_enc)

lemma take_store: "ok r \<Longrightarrow> take size_of (store enc r buf) = enc r"
  by (simp add: store_def poke_def length_enc)

lemma drop_store: "ok r \<Longrightarrow> size_of \<le> length buf \<Longrightarrow> drop size_of (store enc r buf) = drop size_of buf"
  by (simp add: store_def poke_def length_enc)

lemma store_view: "size_of \<le> length buf \<Longrightarrow> store enc (view buf) buf = buf"
  by (simp add: store_def poke_def enc_view)

lemma store_store: "ok r \<Longrightarrow> ok r' \<Longrightarrow> size_of \<le> length buf \<Longrightarrow> store enc r' (store enc r buf) = store enc r' buf"
  by (simp add: store_def poke_poke_same length_enc)

lemma enc_inject: "ok r \<Longrightarrow> ok r' \<Longrightarrow> enc r = enc r' \<longleftrightarrow> r = r'"
  by (metis append_Nil2 view_enc)

lemma view_take: "size_of \<le> n \<Longrightarrow> n \<le> length buf \<Longrightarrow> view (take n buf) = view buf"
  using view_enc [of "view buf" "drop size_of (take n buf)"] ok_view [of buf] enc_view [of buf]
  by (metis append_take_drop_id min.absorb1 order_trans take_take)

end

section \<open>Reading fields\<close>

lemma le32_peek: "off + 4 \<le> length buf \<Longrightarrow> le32 (un_le32 (peek off 4 buf)) = peek off 4 buf"
  by (simp add: le32_un_le32 length_peek)

lemma le16_peek: "off + 2 \<le> length buf \<Longrightarrow> le16 (un_le16 (peek off 2 buf)) = peek off 2 buf"
  by (simp add: le16_un_le16 length_peek)

lemma peek_glue: "b = a + m \<Longrightarrow> peek a m buf @ peek b n buf = peek a (m + n) buf"
  by (simp add: peek_append_peek)

lemma peek_glue_rest: "b = a + m \<Longrightarrow> peek a m buf @ peek b n buf @ xs = peek a (m + n) buf @ xs"
  by (simp add: peek_append_peek_rest)

lemma le32_take: "4 \<le> length buf \<Longrightarrow> le32 (un_le32 (take 4 buf)) = take 4 buf"
  by (simp add: le32_un_le32)

lemma take_glue: "take m buf @ take n (drop m buf) = take (m + n) buf"
  by (simp add: take_add)

lemmas peek_fields = le32_peek le16_peek peek_glue peek_glue_rest
lemmas layout_simps = peek_def peek_fields [unfolded peek_def] le32_take take_glue

section \<open>The packets\<close>

text \<open>The header every packet starts with; \<open>pkt_reset_req\<close>, \<open>pkt_poweroff_req\<close>, \<open>pkt_dump2pc_req\<close>
  and \<open>pkt_dump2screen_req\<close> are nothing else.\<close>

record pkt_hdr =
  p_cmd :: u32
  p_len :: u16

abbreviation (input) sizeof_pkt_hdr :: nat where "sizeof_pkt_hdr \<equiv> 6"

definition enc_hdr :: "pkt_hdr \<Rightarrow> byte list" where
  "enc_hdr r = le32 (p_cmd r) @ le16 (p_len r)"

definition view_hdr :: "byte list \<Rightarrow> pkt_hdr" where
  "view_hdr buf =
     \<lparr>p_cmd = un_le32 (peek 0 4 buf), p_len = un_le16 (peek 4 2 buf)\<rparr>"

definition ok_hdr :: "pkt_hdr \<Rightarrow> bool" where
  "ok_hdr r \<longleftrightarrow> True"

lemmas hdr_layout = enc_hdr_def view_hdr_def ok_hdr_def

interpretation hdr: packed_struct enc_hdr view_hdr sizeof_pkt_hdr ok_hdr
  by unfold_locales (simp_all add: hdr_layout layout_simps)

record pkt_file_rly = pkt_hdr +
  fy_retval :: u32

abbreviation (input) sizeof_pkt_file_rly :: nat where "sizeof_pkt_file_rly \<equiv> 10"

definition enc_file_rly :: "pkt_file_rly \<Rightarrow> byte list" where
  "enc_file_rly r = le32 (p_cmd r) @ le16 (p_len r) @ le32 (fy_retval r)"

definition view_file_rly :: "byte list \<Rightarrow> pkt_file_rly" where
  "view_file_rly buf =
     \<lparr>p_cmd = un_le32 (peek 0 4 buf), p_len = un_le16 (peek 4 2 buf),
      fy_retval = un_le32 (peek 6 4 buf)\<rparr>"

definition ok_file_rly :: "pkt_file_rly \<Rightarrow> bool" where
  "ok_file_rly r \<longleftrightarrow> True"

lemmas file_rly_layout = enc_file_rly_def view_file_rly_def ok_file_rly_def

interpretation file_rly: packed_struct enc_file_rly view_file_rly sizeof_pkt_file_rly ok_file_rly
  by unfold_locales (simp_all add: file_rly_layout layout_simps)

record pkt_file_req = pkt_hdr +
  fq_flags :: u32
  fq_path :: "byte list"

abbreviation (input) sizeof_pkt_file_req :: nat where "sizeof_pkt_file_req \<equiv> 266"

definition enc_file_req :: "pkt_file_req \<Rightarrow> byte list" where
  "enc_file_req r = le32 (p_cmd r) @ le16 (p_len r) @ le32 (fq_flags r) @ fq_path r"

definition view_file_req :: "byte list \<Rightarrow> pkt_file_req" where
  "view_file_req buf =
     \<lparr>p_cmd = un_le32 (peek 0 4 buf), p_len = un_le16 (peek 4 2 buf),
      fq_flags = un_le32 (peek 6 4 buf), fq_path = peek 10 256 buf\<rparr>"

definition ok_file_req :: "pkt_file_req \<Rightarrow> bool" where
  "ok_file_req r \<longleftrightarrow> length (fq_path r) = 256"

lemmas file_req_layout = enc_file_req_def view_file_req_def ok_file_req_def

interpretation file_req: packed_struct enc_file_req view_file_req sizeof_pkt_file_req ok_file_req
  by unfold_locales (simp_all add: file_req_layout layout_simps)

record pkt_close_req = pkt_hdr +
  cq_fd :: u32

abbreviation (input) sizeof_pkt_close_req :: nat where "sizeof_pkt_close_req \<equiv> 10"

definition enc_close_req :: "pkt_close_req \<Rightarrow> byte list" where
  "enc_close_req r = le32 (p_cmd r) @ le16 (p_len r) @ le32 (cq_fd r)"

definition view_close_req :: "byte list \<Rightarrow> pkt_close_req" where
  "view_close_req buf =
     \<lparr>p_cmd = un_le32 (peek 0 4 buf), p_len = un_le16 (peek 4 2 buf),
      cq_fd = un_le32 (peek 6 4 buf)\<rparr>"

definition ok_close_req :: "pkt_close_req \<Rightarrow> bool" where
  "ok_close_req r \<longleftrightarrow> True"

lemmas close_req_layout = enc_close_req_def view_close_req_def ok_close_req_def

interpretation close_req: packed_struct enc_close_req view_close_req sizeof_pkt_close_req ok_close_req
  by unfold_locales (simp_all add: close_req_layout layout_simps)

record pkt_read_req = pkt_hdr +
  rq_fd :: u32
  rq_nbytes :: u32

abbreviation (input) sizeof_pkt_read_req :: nat where "sizeof_pkt_read_req \<equiv> 14"

definition enc_read_req :: "pkt_read_req \<Rightarrow> byte list" where
  "enc_read_req r = le32 (p_cmd r) @ le16 (p_len r) @ le32 (rq_fd r) @ le32 (rq_nbytes r)"

definition view_read_req :: "byte list \<Rightarrow> pkt_read_req" where
  "view_read_req buf =
     \<lparr>p_cmd = un_le32 (peek 0 4 buf), p_len = un_le16 (peek 4 2 buf),
      rq_fd = un_le32 (peek 6 4 buf), rq_nbytes = un_le32 (peek 10 4 buf)\<rparr>"

definition ok_read_req :: "pkt_read_req \<Rightarrow> bool" where
  "ok_read_req r \<longleftrightarrow> True"

lemmas read_req_layout = enc_read_req_def view_read_req_def ok_read_req_def

interpretation read_req: packed_struct enc_read_req view_read_req sizeof_pkt_read_req ok_read_req
  by unfold_locales (simp_all add: read_req_layout layout_simps)

record pkt_read_rly = pkt_hdr +
  ry_retval :: u32
  ry_nbytes :: u32

abbreviation (input) sizeof_pkt_read_rly :: nat where "sizeof_pkt_read_rly \<equiv> 14"

definition enc_read_rly :: "pkt_read_rly \<Rightarrow> byte list" where
  "enc_read_rly r = le32 (p_cmd r) @ le16 (p_len r) @ le32 (ry_retval r) @ le32 (ry_nbytes r)"

definition view_read_rly :: "byte list \<Rightarrow> pkt_read_rly" where
  "view_read_rly buf =
     \<lparr>p_cmd = un_le32 (peek 0 4 buf), p_len = un_le16 (peek 4 2 buf),
      ry_retval = un_le32 (peek 6 4 buf), ry_nbytes = un_le32 (peek 10 4 buf)\<rparr>"

definition ok_read_rly :: "pkt_read_rly \<Rightarrow> bool" where
  "ok_read_rly r \<longleftrightarrow> True"

lemmas read_rly_layout = enc_read_rly_def view_read_rly_def ok_read_rly_def

interpretation read_rly: packed_struct enc_read_rly view_read_rly sizeof_pkt_read_rly ok_read_rly
  by unfold_locales (simp_all add: read_rly_layout layout_simps)

record pkt_write_req = pkt_hdr +
  wq_fd :: u32
  wq_nbytes :: u32

abbreviation (input) sizeof_pkt_write_req :: nat where "sizeof_pkt_write_req \<equiv> 14"

definition enc_write_req :: "pkt_write_req \<Rightarrow> byte list" where
  "enc_write_req r = le32 (p_cmd r) @ le16 (p_len r) @ le32 (wq_fd r) @ le32 (wq_nbytes r)"

definition view_write_req :: "byte list \<Rightarrow> pkt_write_req" where
  "view_write_req buf =
     \<lparr>p_cmd = un_le32 (peek 0 4 buf), p_len = un_le16 (peek 4 2 buf),
      wq_fd = un_le32 (peek 6 4 buf), wq_nbytes = un_le32 (peek 10 4 buf)\<rparr>"

definition ok_write_req :: "pkt_write_req \<Rightarrow> bool" where
  "ok_write_req r \<longleftrightarrow> True"

lemmas write_req_layout = enc_write_req_def view_write_req_def ok_write_req_def

interpretation write_req: packed_struct enc_write_req view_write_req sizeof_pkt_write_req ok_write_req
  by unfold_locales (simp_all add: write_req_layout layout_simps)

record pkt_lseek_req = pkt_hdr +
  lq_fd :: u32
  lq_offset :: u32
  lq_whence :: u32

abbreviation (input) sizeof_pkt_lseek_req :: nat where "sizeof_pkt_lseek_req \<equiv> 18"

definition enc_lseek_req :: "pkt_lseek_req \<Rightarrow> byte list" where
  "enc_lseek_req r = le32 (p_cmd r) @ le16 (p_len r) @ le32 (lq_fd r) @ le32 (lq_offset r)
      @ le32 (lq_whence r)"

definition view_lseek_req :: "byte list \<Rightarrow> pkt_lseek_req" where
  "view_lseek_req buf =
     \<lparr>p_cmd = un_le32 (peek 0 4 buf), p_len = un_le16 (peek 4 2 buf),
      lq_fd = un_le32 (peek 6 4 buf), lq_offset = un_le32 (peek 10 4 buf),
      lq_whence = un_le32 (peek 14 4 buf)\<rparr>"

definition ok_lseek_req :: "pkt_lseek_req \<Rightarrow> bool" where
  "ok_lseek_req r \<longleftrightarrow> True"

lemmas lseek_req_layout = enc_lseek_req_def view_lseek_req_def ok_lseek_req_def

interpretation lseek_req: packed_struct enc_lseek_req view_lseek_req sizeof_pkt_lseek_req ok_lseek_req
  by unfold_locales (simp_all add: lseek_req_layout layout_simps)

record pkt_dread_rly = pkt_hdr +
  dy_retval :: u32
  dy_mode :: u32
  dy_attr :: u32
  dy_size :: u32
  dy_ctime :: "byte list"
  dy_atime :: "byte list"
  dy_mtime :: "byte list"
  dy_hisize :: u32
  dy_path :: "byte list"

abbreviation (input) sizeof_pkt_dread_rly :: nat where "sizeof_pkt_dread_rly \<equiv> 306"

definition enc_dread_rly :: "pkt_dread_rly \<Rightarrow> byte list" where
  "enc_dread_rly r = le32 (p_cmd r) @ le16 (p_len r) @ le32 (dy_retval r) @ le32 (dy_mode r)
      @ le32 (dy_attr r) @ le32 (dy_size r) @ dy_ctime r @ dy_atime r @ dy_mtime r
      @ le32 (dy_hisize r) @ dy_path r"

definition view_dread_rly :: "byte list \<Rightarrow> pkt_dread_rly" where
  "view_dread_rly buf =
     \<lparr>p_cmd = un_le32 (peek 0 4 buf), p_len = un_le16 (peek 4 2 buf),
      dy_retval = un_le32 (peek 6 4 buf), dy_mode = un_le32 (peek 10 4 buf),
      dy_attr = un_le32 (peek 14 4 buf), dy_size = un_le32 (peek 18 4 buf),
      dy_ctime = peek 22 8 buf, dy_atime = peek 30 8 buf, dy_mtime = peek 38 8 buf,
      dy_hisize = un_le32 (peek 46 4 buf), dy_path = peek 50 256 buf\<rparr>"

definition ok_dread_rly :: "pkt_dread_rly \<Rightarrow> bool" where
  "ok_dread_rly r \<longleftrightarrow> length (dy_ctime r) = 8 \<and> length (dy_atime r) = 8 \<and> length (dy_mtime r) = 8 \<and> length (dy_path r) = 256"

lemmas dread_rly_layout = enc_dread_rly_def view_dread_rly_def ok_dread_rly_def

interpretation dread_rly: packed_struct enc_dread_rly view_dread_rly sizeof_pkt_dread_rly ok_dread_rly
  by unfold_locales (simp_all add: dread_rly_layout layout_simps)

record pkt_dread_req = pkt_hdr +
  dq_fd :: u32

abbreviation (input) sizeof_pkt_dread_req :: nat where "sizeof_pkt_dread_req \<equiv> 10"

definition enc_dread_req :: "pkt_dread_req \<Rightarrow> byte list" where
  "enc_dread_req r = le32 (p_cmd r) @ le16 (p_len r) @ le32 (dq_fd r)"

definition view_dread_req :: "byte list \<Rightarrow> pkt_dread_req" where
  "view_dread_req buf =
     \<lparr>p_cmd = un_le32 (peek 0 4 buf), p_len = un_le16 (peek 4 2 buf),
      dq_fd = un_le32 (peek 6 4 buf)\<rparr>"

definition ok_dread_req :: "pkt_dread_req \<Rightarrow> bool" where
  "ok_dread_req r \<longleftrightarrow> True"

lemmas dread_req_layout = enc_dread_req_def view_dread_req_def ok_dread_req_def

interpretation dread_req: packed_struct enc_dread_req view_dread_req sizeof_pkt_dread_req ok_dread_req
  by unfold_locales (simp_all add: dread_req_layout layout_simps)

record pkt_mount_req = pkt_hdr +
  mq_fsname :: "byte list"
  mq_devname :: "byte list"
  mq_flag :: u32
  mq_arg :: "byte list"
  mq_arglen :: u32

abbreviation (input) sizeof_pkt_mount_req :: nat where "sizeof_pkt_mount_req \<equiv> 782"

definition enc_mount_req :: "pkt_mount_req \<Rightarrow> byte list" where
  "enc_mount_req r = le32 (p_cmd r) @ le16 (p_len r) @ mq_fsname r @ mq_devname r
      @ le32 (mq_flag r) @ mq_arg r @ le32 (mq_arglen r)"

definition view_mount_req :: "byte list \<Rightarrow> pkt_mount_req" where
  "view_mount_req buf =
     \<lparr>p_cmd = un_le32 (peek 0 4 buf), p_len = un_le16 (peek 4 2 buf),
      mq_fsname = peek 6 256 buf, mq_devname = peek 262 256 buf,
      mq_flag = un_le32 (peek 518 4 buf), mq_arg = peek 522 256 buf,
      mq_arglen = un_le32 (peek 778 4 buf)\<rparr>"

definition ok_mount_req :: "pkt_mount_req \<Rightarrow> bool" where
  "ok_mount_req r \<longleftrightarrow> length (mq_fsname r) = 256 \<and> length (mq_devname r) = 256 \<and> length (mq_arg r) = 256"

lemmas mount_req_layout = enc_mount_req_def view_mount_req_def ok_mount_req_def

interpretation mount_req: packed_struct enc_mount_req view_mount_req sizeof_pkt_mount_req ok_mount_req
  by unfold_locales (simp_all add: mount_req_layout layout_simps)

record pkt_devlist_rly = pkt_hdr +
  vy_retval :: u32
  vy_count :: u32
  vy_list :: "byte list"

abbreviation (input) sizeof_pkt_devlist_rly :: nat where "sizeof_pkt_devlist_rly \<equiv> 270"

definition enc_devlist_rly :: "pkt_devlist_rly \<Rightarrow> byte list" where
  "enc_devlist_rly r = le32 (p_cmd r) @ le16 (p_len r) @ le32 (vy_retval r) @ le32 (vy_count r)
      @ vy_list r"

definition view_devlist_rly :: "byte list \<Rightarrow> pkt_devlist_rly" where
  "view_devlist_rly buf =
     \<lparr>p_cmd = un_le32 (peek 0 4 buf), p_len = un_le16 (peek 4 2 buf),
      vy_retval = un_le32 (peek 6 4 buf), vy_count = un_le32 (peek 10 4 buf),
      vy_list = peek 14 256 buf\<rparr>"

definition ok_devlist_rly :: "pkt_devlist_rly \<Rightarrow> bool" where
  "ok_devlist_rly r \<longleftrightarrow> length (vy_list r) = 256"

lemmas devlist_rly_layout = enc_devlist_rly_def view_devlist_rly_def ok_devlist_rly_def

interpretation devlist_rly: packed_struct enc_devlist_rly view_devlist_rly sizeof_pkt_devlist_rly ok_devlist_rly
  by unfold_locales (simp_all add: devlist_rly_layout layout_simps)

record pkt_devlist_req = pkt_hdr +
  vq_flags :: u32
  vq_path :: "byte list"

abbreviation (input) sizeof_pkt_devlist_req :: nat where "sizeof_pkt_devlist_req \<equiv> 266"

definition enc_devlist_req :: "pkt_devlist_req \<Rightarrow> byte list" where
  "enc_devlist_req r = le32 (p_cmd r) @ le16 (p_len r) @ le32 (vq_flags r) @ vq_path r"

definition view_devlist_req :: "byte list \<Rightarrow> pkt_devlist_req" where
  "view_devlist_req buf =
     \<lparr>p_cmd = un_le32 (peek 0 4 buf), p_len = un_le16 (peek 4 2 buf),
      vq_flags = un_le32 (peek 6 4 buf), vq_path = peek 10 256 buf\<rparr>"

definition ok_devlist_req :: "pkt_devlist_req \<Rightarrow> bool" where
  "ok_devlist_req r \<longleftrightarrow> length (vq_path r) = 256"

lemmas devlist_req_layout = enc_devlist_req_def view_devlist_req_def ok_devlist_req_def

interpretation devlist_req: packed_struct enc_devlist_req view_devlist_req sizeof_pkt_devlist_req ok_devlist_req
  by unfold_locales (simp_all add: devlist_req_layout layout_simps)

text \<open>\<open>pkt_execee_req\<close> and \<open>pkt_execiop_req\<close> have the same fields.\<close>

record pkt_exec_req = pkt_hdr +
  xq_argc :: u32
  xq_argv :: "byte list"

abbreviation (input) sizeof_pkt_exec_req :: nat where "sizeof_pkt_exec_req \<equiv> 266"

definition enc_exec_req :: "pkt_exec_req \<Rightarrow> byte list" where
  "enc_exec_req r = le32 (p_cmd r) @ le16 (p_len r) @ le32 (xq_argc r) @ xq_argv r"

definition view_exec_req :: "byte list \<Rightarrow> pkt_exec_req" where
  "view_exec_req buf =
     \<lparr>p_cmd = un_le32 (peek 0 4 buf), p_len = un_le16 (peek 4 2 buf),
      xq_argc = un_le32 (peek 6 4 buf), xq_argv = peek 10 256 buf\<rparr>"

definition ok_exec_req :: "pkt_exec_req \<Rightarrow> bool" where
  "ok_exec_req r \<longleftrightarrow> length (xq_argv r) = 256"

lemmas exec_req_layout = enc_exec_req_def view_exec_req_def ok_exec_req_def

interpretation exec_req: packed_struct enc_exec_req view_exec_req sizeof_pkt_exec_req ok_exec_req
  by unfold_locales (simp_all add: exec_req_layout layout_simps)

record pkt_gsexec_req = pkt_hdr +
  gq_size :: u16
  gq_file :: "byte list"

abbreviation (input) sizeof_pkt_gsexec_req :: nat where "sizeof_pkt_gsexec_req \<equiv> 264"

definition enc_gsexec_req :: "pkt_gsexec_req \<Rightarrow> byte list" where
  "enc_gsexec_req r = le32 (p_cmd r) @ le16 (p_len r) @ le16 (gq_size r) @ gq_file r"

definition view_gsexec_req :: "byte list \<Rightarrow> pkt_gsexec_req" where
  "view_gsexec_req buf =
     \<lparr>p_cmd = un_le32 (peek 0 4 buf), p_len = un_le16 (peek 4 2 buf),
      gq_size = un_le16 (peek 6 2 buf), gq_file = peek 8 256 buf\<rparr>"

definition ok_gsexec_req :: "pkt_gsexec_req \<Rightarrow> bool" where
  "ok_gsexec_req r \<longleftrightarrow> length (gq_file r) = 256"

lemmas gsexec_req_layout = enc_gsexec_req_def view_gsexec_req_def ok_gsexec_req_def

interpretation gsexec_req: packed_struct enc_gsexec_req view_gsexec_req sizeof_pkt_gsexec_req ok_gsexec_req
  by unfold_locales (simp_all add: gsexec_req_layout layout_simps)

record pkt_memio_req = pkt_hdr +
  iq_offset :: u32
  iq_size :: u32
  iq_argv :: "byte list"

abbreviation (input) sizeof_pkt_memio_req :: nat where "sizeof_pkt_memio_req \<equiv> 270"

definition enc_memio_req :: "pkt_memio_req \<Rightarrow> byte list" where
  "enc_memio_req r = le32 (p_cmd r) @ le16 (p_len r) @ le32 (iq_offset r) @ le32 (iq_size r)
      @ iq_argv r"

definition view_memio_req :: "byte list \<Rightarrow> pkt_memio_req" where
  "view_memio_req buf =
     \<lparr>p_cmd = un_le32 (peek 0 4 buf), p_len = un_le16 (peek 4 2 buf),
      iq_offset = un_le32 (peek 6 4 buf), iq_size = un_le32 (peek 10 4 buf),
      iq_argv = peek 14 256 buf\<rparr>"

definition ok_memio_req :: "pkt_memio_req \<Rightarrow> bool" where
  "ok_memio_req r \<longleftrightarrow> length (iq_argv r) = 256"

lemmas memio_req_layout = enc_memio_req_def view_memio_req_def ok_memio_req_def

interpretation memio_req: packed_struct enc_memio_req view_memio_req sizeof_pkt_memio_req ok_memio_req
  by unfold_locales (simp_all add: memio_req_layout layout_simps)

text \<open>\<open>pkt_stopvu_req\<close> and \<open>pkt_startvu_req\<close> have the same fields.\<close>

record pkt_vu_req = pkt_hdr +
  uq_vpu :: u32

abbreviation (input) sizeof_pkt_vu_req :: nat where "sizeof_pkt_vu_req \<equiv> 10"

definition enc_vu_req :: "pkt_vu_req \<Rightarrow> byte list" where
  "enc_vu_req r = le32 (p_cmd r) @ le16 (p_len r) @ le32 (uq_vpu r)"

definition view_vu_req :: "byte list \<Rightarrow> pkt_vu_req" where
  "view_vu_req buf =
     \<lparr>p_cmd = un_le32 (peek 0 4 buf), p_len = un_le16 (peek 4 2 buf),
      uq_vpu = un_le32 (peek 6 4 buf)\<rparr>"

definition ok_vu_req :: "pkt_vu_req \<Rightarrow> bool" where
  "ok_vu_req r \<longleftrightarrow> True"

lemmas vu_req_layout = enc_vu_req_def view_vu_req_def ok_vu_req_def

interpretation vu_req: packed_struct enc_vu_req view_vu_req sizeof_pkt_vu_req ok_vu_req
  by unfold_locales (simp_all add: vu_req_layout layout_simps)

record pkt_dumpregs_req = pkt_hdr +
  eq_regs :: u32
  eq_argv :: "byte list"

abbreviation (input) sizeof_pkt_dumpregs_req :: nat where "sizeof_pkt_dumpregs_req \<equiv> 266"

definition enc_dumpregs_req :: "pkt_dumpregs_req \<Rightarrow> byte list" where
  "enc_dumpregs_req r = le32 (p_cmd r) @ le16 (p_len r) @ le32 (eq_regs r) @ eq_argv r"

definition view_dumpregs_req :: "byte list \<Rightarrow> pkt_dumpregs_req" where
  "view_dumpregs_req buf =
     \<lparr>p_cmd = un_le32 (peek 0 4 buf), p_len = un_le16 (peek 4 2 buf),
      eq_regs = un_le32 (peek 6 4 buf), eq_argv = peek 10 256 buf\<rparr>"

definition ok_dumpregs_req :: "pkt_dumpregs_req \<Rightarrow> bool" where
  "ok_dumpregs_req r \<longleftrightarrow> length (eq_argv r) = 256"

lemmas dumpregs_req_layout = enc_dumpregs_req_def view_dumpregs_req_def ok_dumpregs_req_def

interpretation dumpregs_req: packed_struct enc_dumpregs_req view_dumpregs_req sizeof_pkt_dumpregs_req ok_dumpregs_req
  by unfold_locales (simp_all add: dumpregs_req_layout layout_simps)

end
