(* ===== verification/Linkcore.thy ===== *)
theory Linkcore
  imports Packets
begin

text \<open>
  \<open>linkproto_core.c\<close>: the state of a ps2link connection, the exact reads and writes on its
  sockets, and the handlers that serve the file requests of the console from the host's files.
  All state of the C file and of its header is the record \<open>link\<close>; the host's files are behind
  the parameter \<open>os\<close>, the system calls the handlers make.
\<close>

section \<open>Constants\<close>

abbreviation (input) MAXPATHLEN :: nat where "MAXPATHLEN \<equiv> 4096"

abbreviation (input) OPEN_CMD :: u32 where "OPEN_CMD \<equiv> 0xbabe0111"
abbreviation (input) OPEN_RLY :: u32 where "OPEN_RLY \<equiv> 0xbabe0112"
abbreviation (input) CLOSE_CMD :: u32 where "CLOSE_CMD \<equiv> 0xbabe0121"
abbreviation (input) CLOSE_RLY :: u32 where "CLOSE_RLY \<equiv> 0xbabe0122"
abbreviation (input) READ_CMD :: u32 where "READ_CMD \<equiv> 0xbabe0131"
abbreviation (input) READ_RLY :: u32 where "READ_RLY \<equiv> 0xbabe0132"
abbreviation (input) WRITE_CMD :: u32 where "WRITE_CMD \<equiv> 0xbabe0141"
abbreviation (input) WRITE_RLY :: u32 where "WRITE_RLY \<equiv> 0xbabe0142"
abbreviation (input) LSEEK_CMD :: u32 where "LSEEK_CMD \<equiv> 0xbabe0151"
abbreviation (input) LSEEK_RLY :: u32 where "LSEEK_RLY \<equiv> 0xbabe0152"
abbreviation (input) DOPEN_CMD :: u32 where "DOPEN_CMD \<equiv> 0xbabe0161"
abbreviation (input) DOPEN_RLY :: u32 where "DOPEN_RLY \<equiv> 0xbabe0162"
abbreviation (input) DCLOSE_CMD :: u32 where "DCLOSE_CMD \<equiv> 0xbabe0171"
abbreviation (input) DCLOSE_RLY :: u32 where "DCLOSE_RLY \<equiv> 0xbabe0172"
abbreviation (input) DREAD_CMD :: u32 where "DREAD_CMD \<equiv> 0xbabe0181"
abbreviation (input) DREAD_RLY :: u32 where "DREAD_RLY \<equiv> 0xbabe0182"

text \<open>The flags of the console, and those of the host's \<open>open\<close> (Linux).\<close>

abbreviation (input) PS2_O_RDONLY :: u32 where "PS2_O_RDONLY \<equiv> 0x0001"
abbreviation (input) PS2_O_WRONLY :: u32 where "PS2_O_WRONLY \<equiv> 0x0002"
abbreviation (input) PS2_O_RDWR :: u32 where "PS2_O_RDWR \<equiv> 0x0003"
abbreviation (input) PS2_O_NBLOCK :: u32 where "PS2_O_NBLOCK \<equiv> 0x0010"
abbreviation (input) PS2_O_APPEND :: u32 where "PS2_O_APPEND \<equiv> 0x0100"
abbreviation (input) PS2_O_CREAT :: u32 where "PS2_O_CREAT \<equiv> 0x0200"
abbreviation (input) PS2_O_TRUNC :: u32 where "PS2_O_TRUNC \<equiv> 0x0400"

abbreviation (input) O_RDONLY :: u32 where "O_RDONLY \<equiv> 0"
abbreviation (input) O_WRONLY :: u32 where "O_WRONLY \<equiv> 1"
abbreviation (input) O_RDWR :: u32 where "O_RDWR \<equiv> 2"
abbreviation (input) O_CREAT :: u32 where "O_CREAT \<equiv> 0x40"
abbreviation (input) O_TRUNC :: u32 where "O_TRUNC \<equiv> 0x200"
abbreviation (input) O_APPEND :: u32 where "O_APPEND \<equiv> 0x400"
abbreviation (input) O_NONBLOCK :: u32 where "O_NONBLOCK \<equiv> 0x800"

section \<open>The host's files\<close>

record tm =
  tm_year :: int
  tm_mon :: int
  tm_mday :: int
  tm_hour :: int
  tm_min :: int
  tm_sec :: int

text \<open>\<open>struct stat\<close>; its three times as \<open>localtime_r\<close> breaks them down, \<open>None\<close> where it fails.\<close>

record stat =
  st_mode :: u32
  st_size :: u32
  st_ctime :: "tm option"
  st_atime :: "tm option"
  st_mtime :: "tm option"

text \<open>
  The system calls of the handlers. \<open>os_read\<close> gives the returned value and the bytes it put at
  the start of the buffer; \<open>os_readdir\<close> the address of the entry (0 is \<open>NULL\<close>) and its name;
  \<open>os_isdir\<close> tells whether an address is that of an open directory stream, which \<open>readdir\<close> and
  \<open>closedir\<close> need;
  \<open>os_stat\<close> the returned value and what the structure then holds; \<open>os_malloc\<close> tells whether an
  allocation of that size succeeds.
\<close>

record 'fs os =
  os_open :: "'fs \<Rightarrow> string \<Rightarrow> u32 \<Rightarrow> u32 \<Rightarrow> int \<times> 'fs"
  os_close :: "'fs \<Rightarrow> int \<Rightarrow> int \<times> 'fs"
  os_read :: "'fs \<Rightarrow> int \<Rightarrow> u32 \<Rightarrow> (int \<times> byte list) \<times> 'fs"
  os_write :: "'fs \<Rightarrow> int \<Rightarrow> byte list \<Rightarrow> int \<times> 'fs"
  os_lseek :: "'fs \<Rightarrow> int \<Rightarrow> int \<Rightarrow> int \<Rightarrow> int \<times> 'fs"
  os_opendir :: "'fs \<Rightarrow> string \<Rightarrow> u32 \<times> 'fs"
  os_readdir :: "'fs \<Rightarrow> u32 \<Rightarrow> (u32 \<times> string) \<times> 'fs"
  os_closedir :: "'fs \<Rightarrow> u32 \<Rightarrow> int \<times> 'fs"
  os_isdir :: "'fs \<Rightarrow> u32 \<Rightarrow> bool"
  os_stat :: "'fs \<Rightarrow> string \<Rightarrow> int \<times> stat"
  os_malloc :: "'fs \<Rightarrow> u32 \<Rightarrow> bool"

section \<open>State\<close>

record 'fs link =
  host :: 'fs
  rx :: "int \<Rightarrow> rx_event list"
  tx_plan :: "int \<Rightarrow> tx_event list"
  tx_log :: "(int \<times> byte list) list"
  closed :: "int list"
  send_packet :: "byte list"
  recv_packet :: "byte list"
  pko_srv_fd :: int
  pksh_srv_fd :: int
  cmd_fd :: int
  log_fd :: int
  ps2_netfs_fd :: int
  DEBUG :: int
  path_list :: "string list"

text \<open>The two packet buffers keep their size.\<close>

definition wf_link :: "('fs, 'z) link_scheme \<Rightarrow> bool" where
  "wf_link s \<longleftrightarrow> length (send_packet s) = PACKET_MAXSIZE \<and> length (recv_packet s) = PACKET_MAXSIZE"

text \<open>The globals of the program as they are before \<open>main\<close>, on sockets where nothing happens.\<close>

definition link_init :: "'fs \<Rightarrow> 'fs link" where
  "link_init fs = \<lparr>host = fs, rx = \<lambda>_. [], tx_plan = \<lambda>_. [], tx_log = [], closed = [],
     send_packet = replicate PACKET_MAXSIZE 0, recv_packet = replicate PACKET_MAXSIZE 0,
     pko_srv_fd = 0, pksh_srv_fd = 0, cmd_fd = 0, log_fd = 0, ps2_netfs_fd = 0, DEBUG = 0,
     path_list = []\<rparr>"

lemma wf_link_init [simp]: "wf_link (link_init fs)"
  by (simp add: wf_link_def link_init_def)

text \<open>What was sent on a descriptor, in order.\<close>

definition sent_on :: "int \<Rightarrow> ('fs, 'z) link_scheme \<Rightarrow> byte list" where
  "sent_on fd s = concat (map snd (filter (\<lambda>(f, _). f = fd) (tx_log s)))"

section \<open>Small state operations\<close>

definition pko_set_debug :: "int \<Rightarrow> ('fs, 'z) link_scheme \<Rightarrow> ('fs, 'z) link_scheme" where
  "pko_set_debug level s = s\<lparr>DEBUG := level\<rparr>"

definition pko_debug :: "('fs, 'z) link_scheme \<Rightarrow> int" where
  "pko_debug s = DEBUG s"

text \<open>\<open>pko_set_root\<close> has an empty body.\<close>

definition pko_set_root :: "string \<Rightarrow> ('fs, 'z) link_scheme \<Rightarrow> ('fs, 'z) link_scheme" where
  "pko_set_root p s = s"

definition pko_set_path :: "string list \<Rightarrow> ('fs, 'z) link_scheme \<Rightarrow> ('fs, 'z) link_scheme" where
  "pko_set_path ptr s = s\<lparr>path_list := ptr\<rparr>"

definition pko_get_path :: "('fs, 'z) link_scheme \<Rightarrow> string list" where
  "pko_get_path s = path_list s"

section \<open>Sockets\<close>

text \<open>One \<open>send(fd, bs, length bs, 0)\<close>.\<close>

definition send_fd :: "int \<Rightarrow> byte list \<Rightarrow> ('fs, 'z) link_scheme \<Rightarrow> int \<times> ('fs, 'z) link_scheme" where
  "send_fd fd bs s =
     (case sys_send (tx_plan s fd) bs of
        (Inl e, p) \<Rightarrow> (-1, s\<lparr>tx_plan := (tx_plan s)(fd := p)\<rparr>)
      | (Inr k, p) \<Rightarrow> (int k, s\<lparr>tx_plan := (tx_plan s)(fd := p), tx_log := tx_log s @ [(fd, take k bs)]\<rparr>))"

definition close_fd :: "int \<Rightarrow> ('fs, 'z) link_scheme \<Rightarrow> ('fs, 'z) link_scheme" where
  "close_fd fd s = s\<lparr>closed := closed s @ [fd]\<rparr>"

definition pko_send_bytes ::
  "int \<Rightarrow> byte list \<Rightarrow> int \<Rightarrow> ('fs, 'z) link_scheme \<Rightarrow> int \<times> ('fs, 'z) link_scheme" where
  "pko_send_bytes fd buf bytes s =
     (let (r, css, p) = send_loop bytes (tx_plan s fd) (take (nat bytes) buf)
      in (r, s\<lparr>tx_plan := (tx_plan s)(fd := p), tx_log := tx_log s @ map (Pair fd) css\<rparr>))"

text \<open>
  \<open>pko_recv_bytes\<close> into an object with \<open>room\<close> bytes from \<open>buf\<close> on: the returned value, the bytes
  written there, and the new state.
\<close>

definition pko_recv_bytes ::
  "int \<Rightarrow> nat \<Rightarrow> int \<Rightarrow> ('fs, 'z) link_scheme \<Rightarrow> (int \<times> byte list \<times> ('fs, 'z) link_scheme) outcome" where
  "pko_recv_bytes fd room bytes s =
     omap (\<lambda>(r, bs, es). (r, bs, s\<lparr>rx := (rx s)(fd := es)\<rparr>)) (recv_bytes room bytes (rx s fd))"

text \<open>The same into \<open>recv_packet\<close>, from an offset on.\<close>

definition recv_into_packet ::
  "int \<Rightarrow> nat \<Rightarrow> int \<Rightarrow> ('fs, 'z) link_scheme \<Rightarrow> (int \<times> ('fs, 'z) link_scheme) outcome" where
  "recv_into_packet fd off bytes s =
     omap (\<lambda>(r, bs, s'). (r, s'\<lparr>recv_packet := poke off bs (recv_packet s')\<rparr>))
       (pko_recv_bytes fd (length (recv_packet s) - off) bytes s)"

section \<open>Paths and flags\<close>

text \<open>\<open>pko_fix_path\<close> on the bytes from \<open>a\<close> to the end of the object; \<open>None\<close>: it ran past the end.\<close>

fun fix_slashes :: "byte list \<Rightarrow> byte list option" where
  "fix_slashes [] = None"
| "fix_slashes (c # a) =
     (if c = 0 then Some (c # a)
      else map_option ((#) (if c = of_char CHR 0x5C then of_char CHR ''/'' else c)) (fix_slashes a))"

definition pko_fix_path :: "byte list \<Rightarrow> byte list option" where
  "pko_fix_path a =
     (case a of [] \<Rightarrow> None
      | c # _ \<Rightarrow> if c = 0 then (if length a < 2 then None else fix_slashes (poke 0 (bytes_of ''.'' @ [0]) a))
                else fix_slashes a)"

definition pko_fix_flags :: "u32 \<Rightarrow> u32" where
  "pko_fix_flags flags =
     (let newflags = 0;
          newflags = (if flags AND PS2_O_RDONLY \<noteq> 0 then newflags OR O_RDONLY else newflags);
          newflags = (if flags AND PS2_O_WRONLY \<noteq> 0 then newflags OR O_WRONLY else newflags);
          newflags = (if flags AND PS2_O_NBLOCK \<noteq> 0 then newflags OR O_NONBLOCK else newflags);
          newflags = (if flags AND PS2_O_APPEND \<noteq> 0 then newflags OR O_APPEND else newflags);
          newflags = (if flags AND PS2_O_CREAT \<noteq> 0 then newflags OR O_CREAT else newflags);
          newflags = (if flags AND PS2_O_TRUNC \<noteq> 0 then newflags OR O_TRUNC else newflags);
          flags = flags AND NOT (PS2_O_RDWR OR PS2_O_NBLOCK OR PS2_O_APPEND OR PS2_O_CREAT OR PS2_O_TRUNC)
      in newflags OR flags)"

text \<open>The fixed path of a request, written back into \<open>recv_packet\<close>, and as a string.\<close>

abbreviation (input) path_offset :: nat where "path_offset \<equiv> 10"

definition fix_request_path :: "('fs, 'z) link_scheme \<Rightarrow> (string \<times> ('fs, 'z) link_scheme) outcome" where
  "fix_request_path s =
     obind (of_option (pko_fix_path (drop path_offset (recv_packet s)))) (\<lambda>a.
     obind (of_option (c_str a)) (\<lambda>name.
       Ret (name, s\<lparr>recv_packet := poke path_offset a (recv_packet s)\<rparr>)))"

section \<open>Replies\<close>

text \<open>\<open>send(pko_srv_fd, send_packet, n, 0)\<close>, its result ignored.\<close>

definition send_reply :: "nat \<Rightarrow> ('fs, 'z) link_scheme \<Rightarrow> ('fs, 'z) link_scheme" where
  "send_reply n s = snd (send_fd (pko_srv_fd s) (take n (send_packet s)) s)"

text \<open>A \<open>pkt_file_rly\<close> built at the start of \<open>send_packet\<close> and sent on \<open>pko_srv_fd\<close>.\<close>

definition file_reply :: "u32 \<Rightarrow> u32 \<Rightarrow> ('fs, 'z) link_scheme \<Rightarrow> ('fs, 'z) link_scheme" where
  "file_reply cmd retval s =
     (let reply = \<lparr>p_cmd = htonl cmd, p_len = htons (of_nat sizeof_pkt_file_rly), fy_retval = htonl retval\<rparr>;
          s = s\<lparr>send_packet := store enc_file_rly reply (send_packet s)\<rparr>
      in send_reply sizeof_pkt_file_rly s)"

section \<open>File requests\<close>

text \<open>\<open>S_IRUSR|S_IWUSR|S_IRGRP|S_IWGRP|S_IROTH|S_IWOTH\<close>\<close>

abbreviation (input) open_mode :: u32 where "open_mode \<equiv> 0x1B6"

fun try_path_list ::
  "'fs os \<Rightarrow> string \<Rightarrow> u32 \<Rightarrow> string list \<Rightarrow> int \<Rightarrow> 'fs \<Rightarrow> (int \<times> 'fs) outcome" where
  "try_path_list os name flags [] retval fs = Ret (retval, fs)"
| "try_path_list os name flags (dir # ds) retval fs =
     (let path = dir @ ''/'' @ name in
      oguard (length path < MAXPATHLEN)
        (let (retval, fs) = os_open os fs path flags open_mode in
         if retval \<noteq> -1 then Ret (retval, fs) else try_path_list os name flags ds retval fs))"

definition pko_open_file :: "'fs os \<Rightarrow> ('fs, 'z) link_scheme \<Rightarrow> (int \<times> ('fs, 'z) link_scheme) outcome" where
  "pko_open_file os s =
     (let flags = pko_fix_flags (ntohl (fq_flags (view_file_req (recv_packet s)))) in
      obind (fix_request_path s) (\<lambda>(name, s).
      let (retval, fs) = os_open os (host s) name flags open_mode in
      obind (if retval = -1 then try_path_list os name flags (pko_get_path s) retval fs
             else Ret (retval, fs)) (\<lambda>(retval, fs).
      Ret (0, file_reply OPEN_RLY (of_cint retval) (s\<lparr>host := fs\<rparr>)))))"

definition pko_open_dir :: "'fs os \<Rightarrow> ('fs, 'z) link_scheme \<Rightarrow> (int \<times> ('fs, 'z) link_scheme) outcome" where
  "pko_open_dir os s =
     (let s = s\<lparr>send_packet := store enc_file_rly ((view_file_rly (send_packet s))\<lparr>
            p_cmd := htonl DOPEN_RLY, p_len := htons (of_nat sizeof_pkt_file_rly)\<rparr>) (send_packet s)\<rparr> in
      obind (fix_request_path s) (\<lambda>(name, s).
      let (dirp, fs) = os_opendir os (host s) name; s = s\<lparr>host := fs\<rparr> in
      if dirp = 0 then Ret (-1, s)
      else Ret (0, file_reply DOPEN_RLY dirp s)))"

definition S_ISDIR :: "u32 \<Rightarrow> bool" where "S_ISDIR m \<longleftrightarrow> m AND 0xF000 = 0x4000"
definition S_ISLNK :: "u32 \<Rightarrow> bool" where "S_ISLNK m \<longleftrightarrow> m AND 0xF000 = 0xA000"
definition S_ISREG :: "u32 \<Rightarrow> bool" where "S_ISREG m \<longleftrightarrow> m AND 0xF000 = 0x8000"

text \<open>Bytes 1 to 6 of one of the eight-byte times; 0 and 7 are not written.\<close>

definition put_time :: "tm option \<Rightarrow> byte list \<Rightarrow> byte list" where
  "put_time t old = (case t of None \<Rightarrow> old | Some t \<Rightarrow>
     poke 1 (map word_of_int [tm_sec t, tm_min t, tm_hour t, tm_mday t, tm_mon t + 1, tm_year t]) old)"

definition dirent_mode :: "u32 \<Rightarrow> u32" where
  "dirent_mode m =
     (let mode = m AND 0x07;
          mode = (if S_ISDIR m then mode OR 0x20 else mode);
          mode = (if S_ISLNK m then mode OR 0x08 else mode);
          mode = (if S_ISREG m then mode OR 0x10 else mode)
      in mode)"

text \<open>The fields \<open>pko_read_dir\<close> assigns in the reply, over the packet built there before.\<close>

definition dread_reply :: "u32 \<Rightarrow> string \<Rightarrow> stat \<Rightarrow> pkt_dread_rly \<Rightarrow> pkt_dread_rly" where
  "dread_reply dirp d_name st reply =
     (let reply = reply\<lparr>p_cmd := htonl DREAD_RLY, p_len := htons (of_nat sizeof_pkt_dread_rly),
            dy_retval := htonl dirp\<rparr>
      in if dirp \<noteq> 0 then
           reply\<lparr>dy_mode := htonl (dirent_mode (st_mode st)), dy_attr := htonl 0,
             dy_size := htonl (st_size st), dy_ctime := put_time (st_ctime st) (dy_ctime reply),
             dy_atime := put_time (st_atime st) (dy_atime reply),
             dy_mtime := put_time (st_mtime st) (dy_mtime reply),
             dy_hisize := htonl 0, dy_path := strncpy d_name 256\<rparr>
         else reply)"

definition pko_read_dir :: "'fs os \<Rightarrow> ('fs, 'z) link_scheme \<Rightarrow> (int \<times> ('fs, 'z) link_scheme) outcome" where
  "pko_read_dir os s =
     (let dir = ntohl (rq_fd (view_read_req (recv_packet s))) in
      oguard (os_isdir os (host s) dir)
        (let ((dirp, d_name), fs) = os_readdir os (host s) dir;
             st = snd (os_stat os fs d_name);
             reply = dread_reply dirp d_name st (view_dread_rly (send_packet s));
             s = s\<lparr>host := fs, send_packet := store enc_dread_rly reply (send_packet s)\<rparr>
         in Ret (0, send_reply sizeof_pkt_dread_rly s)))"

definition pko_close_dir :: "'fs os \<Rightarrow> ('fs, 'z) link_scheme \<Rightarrow> (int \<times> ('fs, 'z) link_scheme) outcome" where
  "pko_close_dir os s =
     (let fd = ntohl (cq_fd (view_close_req (recv_packet s))) in
      oguard (os_isdir os (host s) fd)
        (let (retval, fs) = os_closedir os (host s) fd
         in Ret (0, file_reply DCLOSE_RLY (of_cint retval) (s\<lparr>host := fs\<rparr>))))"

definition pko_close_file :: "'fs os \<Rightarrow> ('fs, 'z) link_scheme \<Rightarrow> (int \<times> ('fs, 'z) link_scheme) outcome" where
  "pko_close_file os s =
     (let fd = to_cint (ntohl (cq_fd (view_close_req (recv_packet s))));
          (retval, fs) = os_close os (host s) fd
      in Ret (0, file_reply CLOSE_RLY (of_cint retval) (s\<lparr>host := fs\<rparr>)))"

definition pko_read_file :: "'fs os \<Rightarrow> ('fs, 'z) link_scheme \<Rightarrow> (int \<times> ('fs, 'z) link_scheme) outcome" where
  "pko_read_file os s =
     (let pkt = view_read_req (recv_packet s);
          nbytes = ntohl (rq_nbytes pkt); fd = to_cint (ntohl (rq_fd pkt)); retval = ntohl (rq_fd pkt);
          reply = (view_read_rly (send_packet s))\<lparr>p_cmd := htonl READ_RLY,
            p_len := htons (of_nat sizeof_pkt_read_rly), ry_retval := htonl retval\<rparr>;
          s = s\<lparr>send_packet := store enc_read_rly reply (send_packet s)\<rparr> in
      if \<not> os_malloc os (host s) nbytes then Ret (-1, s)
      else
        let ((readbytes, filebuf), fs) = os_read os (host s) fd nbytes;
            s = s\<lparr>host := fs, send_packet := store enc_read_rly
              ((view_read_rly (send_packet s))\<lparr>ry_nbytes := htonl (of_cint readbytes)\<rparr>) (send_packet s)\<rparr>;
            s = send_reply sizeof_pkt_read_rly s;
            (ret, s) = pko_send_bytes (pko_srv_fd s) filebuf readbytes s
        in Ret (0, s))"

lemma obind_cong [fundef_cong]:
  "m = m' \<Longrightarrow> (\<And>x. m' = Ret x \<Longrightarrow> f x = g x) \<Longrightarrow> obind m f = obind m' g"
  by (cases m') auto

text \<open>The \<open>do \<dots> while (bytes_left > 0)\<close> of \<open>pko_write_file\<close>; its result is \<open>bytes_left\<close>.\<close>

function write_loop ::
  "'fs os \<Rightarrow> int \<Rightarrow> int \<Rightarrow> ('fs, 'z) link_scheme \<Rightarrow> (int \<times> ('fs, 'z) link_scheme) outcome" where
  "write_loop os fd bytes_left s =
     (let read_bytes = (if bytes_left > int PACKET_MAXSIZE then int PACKET_MAXSIZE else bytes_left) in
      obind (recv_into_packet (pko_srv_fd s) 0 read_bytes s) (\<lambda>(recvlen, s1).
      if recvlen < 0 then Ret (bytes_left, s1)
      else if recvlen = 0 then Ret (bytes_left, s1)
      else
        let (written, fs) = os_write os (host s1) fd (take (nat recvlen) (recv_packet s1));
            s2 = s1\<lparr>host := fs\<rparr> in
        if written < 0 then Ret (bytes_left, s2)
        else
          let bytes_left' = bytes_left - written in
          if written < recvlen then Ret (bytes_left', s2)
          else if bytes_left' > 0 then write_loop os fd bytes_left' s2
          else Ret (bytes_left', s2)))"
  by pat_completeness auto
termination
  by (relation "measure (\<lambda>(os, fd, bytes_left, s). nat bytes_left)") auto

declare write_loop.simps [simp del]

definition pko_write_file :: "'fs os \<Rightarrow> ('fs, 'z) link_scheme \<Rightarrow> (int \<times> ('fs, 'z) link_scheme) outcome" where
  "pko_write_file os s =
     (let pkt = view_write_req (recv_packet s);
          fd = to_cint (ntohl (wq_fd pkt)); nbytes = to_cint (ntohl (wq_nbytes pkt)) in
      obind (write_loop os fd nbytes s) (\<lambda>(bytes_left, s).
      Ret (0, file_reply WRITE_RLY (of_cint (nbytes - bytes_left)) s)))"

definition pko_lseek_file :: "'fs os \<Rightarrow> ('fs, 'z) link_scheme \<Rightarrow> (int \<times> ('fs, 'z) link_scheme) outcome" where
  "pko_lseek_file os s =
     (let pkt = view_lseek_req (recv_packet s);
          fd = to_cint (ntohl (lq_fd pkt)); offset = to_cint (ntohl (lq_offset pkt));
          whence = to_cint (ntohl (lq_whence pkt));
          (retval, fs) = os_lseek os (host s) fd offset whence
      in Ret (0, file_reply LSEEK_RLY (of_cint retval) (s\<lparr>host := fs\<rparr>)))"

end
