(* ===== verification/Common.thy ===== *)
theory Common
  imports Linkcore
begin

text \<open>
  \<open>common.c\<close>: the string and argument helpers of the shell and the batch tools. Strings are the
  characters before the NUL; a write past the end of the object a function is given, or past what
  it allocated, is \<open>Crash\<close>. The capacities of objects that only the caller knows are arguments.
\<close>

section \<open>Lines and pairs\<close>

abbreviation (input) NEWLINE :: char where "NEWLINE \<equiv> CHR 0x0A"

text \<open>\<open>read_pair\<close>: the key and the value, around the first equals sign.\<close>

definition read_pair :: "string \<Rightarrow> string \<times> string" where
  "read_pair line =
     (case strchr line CHR ''='' of
        None \<Rightarrow> (line, '''')
      | Some i \<Rightarrow> (take i line, drop (Suc i) line))"

text \<open>
  The loop of \<open>read_line\<close> from its counter \<open>i\<close> on: the characters read and the rest of the file, or
  \<open>None\<close> when \<open>feof\<close> is seen. The file is the list of its characters.
\<close>

function read_line_loop :: "nat \<Rightarrow> char \<Rightarrow> string \<Rightarrow> (string \<times> string) option" where
  "read_line_loop i c file =
     (if c \<noteq> NEWLINE \<and> i < MAXPATHLEN then
        (case file of [] \<Rightarrow> None
         | c # file \<Rightarrow> map_option (\<lambda>(line, rest). (c # line, rest)) (read_line_loop (Suc i) c file))
      else Some ([], file))"
  by pat_completeness auto
termination by (relation "measure (\<lambda>(i, c, file). MAXPATHLEN - i)") auto

declare read_line_loop.simps [simp del]

text \<open>\<open>read_line\<close>: the line without its last character, which \<open>*--line = NULL\<close> overwrites.\<close>

definition read_line :: "string \<Rightarrow> (string \<times> string) option" where
  "read_line file = map_option (\<lambda>(line, rest). (butlast line, rest)) (read_line_loop 0 NUL file)"

text \<open>\<open>get_home\<close>: the whole first entry of the environment that starts with \<open>HOME=\<close>.\<close>

fun get_home :: "string list \<Rightarrow> string option" where
  "get_home [] = None"
| "get_home (e # environ) = (if strncmp_eq e ''HOME='' 5 then Some e else get_home environ)"

section \<open>Blanks\<close>

fun last_nonblank :: "string \<Rightarrow> nat \<Rightarrow> nat" where
  "last_nonblank s 0 = 0"
| "last_nonblank s (Suc i) = (if s ! i \<noteq> CHR '' '' then Suc i else last_nonblank s i)"

fun leading_blanks :: "string \<Rightarrow> nat" where
  "leading_blanks [] = 0"
| "leading_blanks (c # s) = (if c \<noteq> CHR '' '' then 0 else Suc (leading_blanks s))"

text \<open>
  \<open>trim\<close> on a string in an array of \<open>cap\<close> characters: how far the returned pointer is into the
  array, and the string there. The terminator is stored at index \<open>i\<close> behind the advanced pointer.
\<close>

definition trim :: "nat \<Rightarrow> string \<Rightarrow> (nat \<times> string) outcome" where
  "trim cap s =
     (let i = last_nonblank s (length s); k = leading_blanks s
      in oguard (k + i < cap) (Ret (k, take i (drop k s))))"

text \<open>\<open>dupstr\<close>, when \<open>malloc\<close> succeeds.\<close>

definition dupstr :: "string \<Rightarrow> string" where
  "dupstr s = s"

text \<open>\<open>stripwhite\<close>; \<open>whitespace\<close> is the macro of readline, false on NUL.\<close>

fun strip_back :: "(char \<Rightarrow> bool) \<Rightarrow> string \<Rightarrow> nat \<Rightarrow> nat" where
  "strip_back whitespace s 0 = 0"
| "strip_back whitespace s (Suc t) = (if whitespace (s ! Suc t) then strip_back whitespace s t else Suc t)"

definition stripwhite :: "(char \<Rightarrow> bool) \<Rightarrow> string \<Rightarrow> string" where
  "stripwhite whitespace string =
     (let s = dropWhile whitespace string
      in if s = [] then s else take (Suc (strip_back whitespace s (length s - 1))) s)"

section \<open>Devices\<close>

definition arg_device_check :: "string \<Rightarrow> bool" where
  "arg_device_check arg \<longleftrightarrow>
     (if strstr arg '':/'' \<noteq> None then True
      else if strstr arg ''host:'' \<noteq> None then True
      else if strstr arg '':'' \<noteq> None then True
      else False)"

definition arg_prepend_host :: "string \<Rightarrow> string" where
  "arg_prepend_host old =
     (case strstr old '':/'' of Some _ \<Rightarrow> old
      | None \<Rightarrow>
        (case strstr old ''host:'' of
           Some p \<Rightarrow>
             (case strstr (drop p old) '':'' of
                Some q \<Rightarrow> ''host:'' @ drop (Suc q) (drop p old)
              | None \<Rightarrow> ''host:'')
         | None \<Rightarrow>
             (case strstr old '':'' of Some _ \<Rightarrow> old | None \<Rightarrow> ''host:'' @ old)))"

definition is_file :: "'fs os \<Rightarrow> 'fs \<Rightarrow> string \<Rightarrow> bool" where
  "is_file os fs file = (let (r, finfo) = os_stat os fs file in if r \<noteq> 0 then False else S_ISREG (st_mode finfo))"

definition size_file :: "'fs os \<Rightarrow> 'fs \<Rightarrow> string \<Rightarrow> int" where
  "size_file os fs file = (let (r, finfo) = os_stat os fs file in if r \<noteq> 0 then 0 else to_cint (st_size finfo))"

section \<open>Argument vectors\<close>

text \<open>The two inner loops over \<open>cmd[pi]\<close>.\<close>

function skip_word :: "string \<Rightarrow> nat \<Rightarrow> nat" where
  "skip_word cmd p = (if p < length cmd \<and> cmd ! p \<noteq> CHR '' '' then skip_word cmd (Suc p) else p)"
  by pat_completeness auto
termination by (relation "measure (\<lambda>(cmd, p). length cmd - p)") auto

function skip_spaces :: "string \<Rightarrow> nat \<Rightarrow> nat" where
  "skip_spaces cmd p = (if p < length cmd \<and> cmd ! p = CHR '' '' then skip_spaces cmd (Suc p) else p)"
  by pat_completeness auto
termination by (relation "measure (\<lambda>(cmd, p). length cmd - p)") auto

declare skip_word.simps [simp del] skip_spaces.simps [simp del]

lemma skip_word_eq: "skip_word cmd p = p + length (takeWhile (\<lambda>c. c \<noteq> CHR '' '') (drop p cmd))"
proof (induction cmd p rule: skip_word.induct)
  case (1 cmd p)
  then show ?case
    by (cases "p < length cmd")
       (auto simp: skip_word.simps [of cmd p] takeWhile_eq_Nil_iff hd_drop_conv_nth simp flip: Cons_nth_drop_Suc)
qed

lemma skip_spaces_eq: "skip_spaces cmd p = p + length (takeWhile (\<lambda>c. c = CHR '' '') (drop p cmd))"
proof (induction cmd p rule: skip_spaces.induct)
  case (1 cmd p)
  then show ?case
    by (cases "p < length cmd")
       (auto simp: skip_spaces.simps [of cmd p] takeWhile_eq_Nil_iff hd_drop_conv_nth simp flip: Cons_nth_drop_Suc)
qed

lemma skip_moves: "p < length cmd \<Longrightarrow> p < skip_spaces cmd (skip_word cmd p)"
  by (auto simp: skip_word_eq skip_spaces_eq simp flip: Cons_nth_drop_Suc)

text \<open>
  \<open>fix_cmd_arg\<close> into an array of \<open>cap\<close> characters: \<open>ai\<close> and \<open>p\<close> are the indices \<open>ai\<close> and \<open>pi\<close>,
  \<open>argv\<close> what was written, \<open>ac\<close> characters of it. The result is \<open>argc\<close> and the array's contents up
  to \<open>argvlen\<close>. The local \<open>arg\<close> holds \<open>MAXPATHLEN\<close> characters.
\<close>

function fix_loop ::
  "(string \<Rightarrow> bool) \<Rightarrow> nat \<Rightarrow> string \<Rightarrow> nat \<Rightarrow> nat \<Rightarrow> nat \<Rightarrow> string \<Rightarrow> (nat \<times> string) outcome" where
  "fix_loop isf cap cmd ai p argc argv =
     (if p < length cmd then
        let p1 = skip_word cmd p; arg = take (p1 - ai) (drop ai cmd) in
        oguard (p1 - ai < MAXPATHLEN)
          (let piece = (if isf arg then if \<not> arg_device_check arg then ''host:'' @ arg else arg else arg);
               argv = argv @ piece @ [NUL] in
           oguard (length argv \<le> cap)
             (fix_loop isf cap cmd (Suc p1) (skip_spaces cmd p1) (Suc argc) argv))
      else Ret (argc, argv))"
  by pat_completeness auto
termination
  by (relation "measure (\<lambda>(isf, cap, cmd, ai, p, argc, argv). length cmd - p)")
     (use skip_moves in \<open>auto intro: diff_less_mono2\<close>)

declare fix_loop.simps [simp del]

definition fix_cmd_arg :: "(string \<Rightarrow> bool) \<Rightarrow> nat \<Rightarrow> string \<Rightarrow> (nat \<times> string) outcome" where
  "fix_cmd_arg isf cap cmd = fix_loop isf cap cmd 0 0 0 []"

text \<open>\<open>read_file\<close> on a file that is not there (\<open>fopen\<close> gives \<open>NULL\<close>, which \<open>fread\<close> uses) or
  with the given contents; \<open>fread(data, size, 1, fd)\<close> returns the number of items of \<open>size\<close> bytes.\<close>

definition read_file :: "byte list option \<Rightarrow> nat \<Rightarrow> int outcome" where
  "read_file file n =
     (case file of None \<Rightarrow> Crash
      | Some bs \<Rightarrow>
          let items = (if n \<noteq> 0 \<and> n \<le> length bs then 1 else 0)
          in if items \<noteq> n then Ret (-1) else Ret (int n))"

text \<open>
  \<open>split_filename\<close> into arrays of the given sizes: the strings in \<open>device\<close> and \<open>dir\<close>, and the
  \<open>MAXPATHLEN\<close> characters of \<open>filename\<close>.
\<close>

definition split_filename :: "nat \<Rightarrow> nat \<Rightarrow> nat \<Rightarrow> string \<Rightarrow> (string \<times> string \<times> byte list) outcome" where
  "split_filename device_size dir_size filename_size arg =
     oguard (MAXPATHLEN \<le> device_size \<and> MAXPATHLEN \<le> dir_size \<and> MAXPATHLEN \<le> filename_size)
       (case strstr arg '':'' of
          Some i \<Rightarrow>
            if i > MAXPATHLEN then Ret ('''', '''', strncpy (drop (Suc i) arg) MAXPATHLEN)
            else oguard (Suc i < device_size)
                   (Ret (take (Suc i) arg, '''', strncpy (drop (Suc i) arg) MAXPATHLEN))
        | None \<Rightarrow> Ret ('''', '''', strncpy arg MAXPATHLEN))"

abbreviation (input) DUMP_REG_MAX :: nat where "DUMP_REG_MAX \<equiv> 12"

definition DUMP_REG_SYM :: "string list" where
  "DUMP_REG_SYM = [''dma'', ''intc'', ''timer'', ''gs'', ''sif'', ''fifo'',
     ''gif'', ''vif0'', ''vif1'', ''ipu'', ''all'', ''vu0'', ''vu1'']"

fun register_loop :: "string \<Rightarrow> nat \<Rightarrow> nat \<Rightarrow> string list \<Rightarrow> nat" where
  "register_loop str n i [] = i"
| "register_loop str n i (reg # regs) =
     (if strncmp_eq str reg n then i else register_loop str n (Suc i) regs)"

definition get_register_index :: "string \<Rightarrow> nat \<Rightarrow> nat" where
  "get_register_index str n = register_loop str n 0 (take DUMP_REG_MAX DUMP_REG_SYM)"

text \<open>
  \<open>build_argv\<close>: \<open>room n\<close> is how many bytes the block behind \<open>malloc(n)\<close> really has, at least \<open>n\<close>.
  The result is the returned count and the strings stored; \<open>arg\<close> is \<open>None\<close> for \<open>NULL\<close>.
\<close>

abbreviation (input) MAX_ARGV :: nat where "MAX_ARGV \<equiv> 256"

function build_loop :: "(nat \<Rightarrow> nat) \<Rightarrow> nat \<Rightarrow> string \<Rightarrow> (nat \<times> string list) outcome" where
  "build_loop room i aptr =
     (if i < MAX_ARGV then
        let w = takeWhile (\<lambda>c. c \<noteq> CHR '' '') aptr; ai = length w in
        oguard (ai < room ai)
          (let aptr = dropWhile (\<lambda>c. c = CHR '' '') (drop ai aptr) in
           if aptr = [] then Ret (i + 1, [w])
           else omap (\<lambda>(n, ws). (n, w # ws)) (build_loop room (Suc i) aptr))
      else Ret (i + 1, []))"
  by pat_completeness auto
termination by (relation "measure (\<lambda>(room, i, aptr). MAX_ARGV - i)") auto

declare build_loop.simps [simp del]

definition build_argv :: "(nat \<Rightarrow> nat) \<Rightarrow> string option \<Rightarrow> (nat \<times> string list) outcome" where
  "build_argv room arg =
     (case arg of None \<Rightarrow> Ret (0, [])
      | Some aptr \<Rightarrow> if length aptr = 0 then Ret (0, []) else build_loop room 0 aptr)"

text \<open>\<open>free_argv\<close>: every index below \<open>argc\<close> has to be a string of the array.\<close>

definition free_argv :: "string list \<Rightarrow> nat \<Rightarrow> unit outcome" where
  "free_argv argv argc = oguard (argc \<le> length argv) (Ret ())"

section \<open>Reading lines\<close>

lemma read_line_loop_line:
  "NEWLINE \<notin> set l \<Longrightarrow> i + length l < MAXPATHLEN \<Longrightarrow> c \<noteq> NEWLINE \<Longrightarrow>
     read_line_loop i c (l @ NEWLINE # rest) = Some (l @ [NEWLINE], rest)"
proof (induction l arbitrary: i c)
  case Nil
  then show ?case by (simp add: read_line_loop.simps)
next
  case (Cons x l)
  from Cons.IH [of "Suc i" x] Cons.prems show ?case
    by (auto simp: read_line_loop.simps [of i c])
qed

lemma read_line_loop_eof:
  "NEWLINE \<notin> set l \<Longrightarrow> i + length l < MAXPATHLEN \<Longrightarrow> c \<noteq> NEWLINE \<Longrightarrow> read_line_loop i c l = None"
proof (induction l arbitrary: i c)
  case Nil
  then show ?case by (simp add: read_line_loop.simps)
next
  case (Cons x l)
  from Cons.IH [of "Suc i" x] Cons.prems show ?case
    by (auto simp: read_line_loop.simps [of i c])
qed

lemma read_line_loop_full:
  "NEWLINE \<notin> set l \<Longrightarrow> i + length l = MAXPATHLEN \<Longrightarrow> c \<noteq> NEWLINE \<Longrightarrow>
     read_line_loop i c (l @ rest) = Some (l, rest)"
proof (induction l arbitrary: i c)
  case Nil
  then show ?case by (simp add: read_line_loop.simps)
next
  case (Cons x l)
  from Cons.IH [of "Suc i" x] Cons.prems show ?case
    by (auto simp: read_line_loop.simps [of i c])
qed

lemma read_line_loop_bound:
  "read_line_loop i c chars = Some (line, rest) \<Longrightarrow> i + length line \<le> max i MAXPATHLEN \<and> chars = line @ rest"
proof (induction i c chars arbitrary: line rule: read_line_loop.induct)
  case (1 i c chars)
  show ?case
  proof (cases "c \<noteq> NEWLINE \<and> i < MAXPATHLEN")
    case False
    with "1.prems" show ?thesis by (subst (asm) read_line_loop.simps) auto
  next
    case True
    with "1.prems" obtain x f l where f: "chars = x # f" "line = x # l"
      "read_line_loop (Suc i) x f = Some (l, rest)"
      by (subst (asm) read_line_loop.simps) (auto split: list.splits)
    from "1.IH" [OF True f(1,3)] True f show ?thesis by auto
  qed
qed

text \<open>
  \<open>read_line\<close> and the file it reads: a line that ends in a newline and fits is returned without
  the newline; a last line without one is lost, the result is end of file; in a line too long for the
  buffer the character at its end is dropped and the rest is the next line. It never stores more than
  \<open>MAXPATHLEN\<close> characters.
\<close>

theorem read_line_lines:
  assumes "NEWLINE \<notin> set l"
  shows "(length l < MAXPATHLEN \<longrightarrow> read_line (l @ NEWLINE # rest) = Some (l, rest) \<and> read_line l = None)
    \<and> (length l = MAXPATHLEN \<longrightarrow> read_line (l @ rest) = Some (butlast l, rest))
    \<and> (\<forall>chars line rest'. read_line chars = Some (line, rest') \<longrightarrow> length line < MAXPATHLEN)"
proof (intro conjI impI allI)
  fix chars line rest'
  assume "read_line chars = Some (line, rest')"
  then obtain line' where "read_line_loop 0 NUL chars = Some (line', rest')" "line = butlast line'"
    by (auto simp: read_line_def)
  moreover have "read_line_loop 0 NUL chars \<noteq> Some ([], rest')"
    by (subst read_line_loop.simps) (auto split: list.splits)
  ultimately show "length line < MAXPATHLEN"
    using read_line_loop_bound [of 0 NUL chars line' rest'] by (cases line') auto
qed (use assms in \<open>simp_all add: read_line_def read_line_loop_line read_line_loop_eof read_line_loop_full\<close>)

theorem read_line_lines_witness:
  "read_line (''ip=1'' @ NEWLINE # ''x'') = Some (''ip=1'', ''x'') \<and> read_line ''ip=1'' = None"
  using read_line_lines [of "''ip=1''" "''x''"] by simp

lemma read_pair_at:
  "CHR ''='' \<notin> set k \<Longrightarrow> read_pair (k @ CHR ''='' # v) = (k, v)"
proof (induction k)
  case Nil
  then show ?case by (simp add: read_pair_def)
next
  case (Cons c k)
  then show ?case by (auto simp: read_pair_def split: option.splits)
qed

lemma read_pair_none: "CHR ''='' \<notin> set line \<Longrightarrow> read_pair line = (line, '''')"
  using strchr_None_iff [of line "CHR ''=''"] by (simp add: read_pair_def)

section \<open>Blanks\<close>

lemma last_nonblank_le: "last_nonblank s i \<le> i"
  by (induction i) auto

lemma last_nonblank_blanks:
  "i \<le> length s \<Longrightarrow> (\<forall>j. last_nonblank s i \<le> j \<and> j < i \<longrightarrow> s ! j = CHR '' '') \<and>
     (last_nonblank s i = 0 \<or> s ! (last_nonblank s i - 1) \<noteq> CHR '' '')"
  by (induction i) (auto simp: less_Suc_eq)

lemma leading_blanks_replicate:
  "leading_blanks (replicate k CHR '' '' @ s) = k + leading_blanks s"
  by (induction k) auto

lemma last_nonblank_cong: "(\<And>j. j < i \<Longrightarrow> s ! j = s' ! j) \<Longrightarrow> last_nonblank s i = last_nonblank s' i"
  by (induction i) auto

lemma last_nonblank_append:
  "s \<noteq> [] \<Longrightarrow> last s \<noteq> CHR '' '' \<Longrightarrow>
     last_nonblank (s @ replicate t CHR '' '') (length s + t) = length s"
proof (induction t)
  case 0
  then show ?case by (cases "length s") (auto simp: last_conv_nth)
next
  case (Suc t)
  have "last_nonblank (s @ replicate (Suc t) CHR '' '') (length s + t) =
      last_nonblank (s @ replicate t CHR '' '') (length s + t)"
    by (rule last_nonblank_cong) (simp add: nth_append nth_Cons' )
  with Suc show ?case by (simp add: nth_append nth_Cons' del: replicate_Suc)
qed

text \<open>
  \<open>trim\<close> of a word between \<open>k\<close> leading and \<open>t\<close> trailing blanks: the pointer moves over the
  leading ones, but of the trailing ones \<open>min k t\<close> stay, because the index of the terminator was
  taken before the pointer moved. With more leading than trailing blanks the terminator is stored
  behind the string, outside the array when that is too small.
\<close>

theorem trim_result:
  assumes "w \<noteq> []" and "hd w \<noteq> CHR '' ''" and "last w \<noteq> CHR '' ''"
  shows "trim cap (replicate k CHR '' '' @ w @ replicate t CHR '' '') =
     (if 2 * k + length w < cap then Ret (k, w @ replicate (min k t) CHR '' '') else Crash)"
proof -
  let ?s = "replicate k CHR '' '' @ w @ replicate t CHR '' ''"
  have "leading_blanks ?s = k"
    using assms(1,2) by (cases w) (simp_all add: leading_blanks_replicate)
  moreover have "last_nonblank ?s (length ?s) = k + length w"
    using assms last_nonblank_append [of "replicate k CHR '' '' @ w" t] by (simp add: add.assoc)
  ultimately show ?thesis
    by (simp add: trim_def Let_def oguard_def min.commute)
qed

theorem trim_result_witness:
  "trim 10 ''  ab   '' = Ret (2, ''ab  '') \<and> trim 6 ''  ab'' = Crash \<and> trim 6 ''ab   '' = Ret (0, ''ab'')"
  using trim_result [of "''ab''" 10 2 3] trim_result [of "''ab''" 6 2 0] trim_result [of "''ab''" 6 0 3]
  by (simp add: eval_nat_numeral)

lemma strip_back_le: "strip_back ws s t \<le> t"
  by (induction t) auto

lemma strip_back_rev:
  "t < length s \<Longrightarrow> \<not> ws (s ! 0) \<Longrightarrow>
     take (Suc (strip_back ws s t)) s = rev (dropWhile ws (rev (take (Suc t) s)))"
proof (induction t)
  case 0
  then show ?case by (cases s) auto
next
  case (Suc t)
  then show ?case
    by (cases "ws (s ! Suc t)") (simp_all add: take_Suc_conv_app_nth)
qed

text \<open>
  \<open>stripwhite\<close> does remove all white space on both sides and nothing in between, whatever the
  predicate of readline is, and a second pass changes nothing.
\<close>

theorem stripwhite_both_sides:
  "stripwhite ws s = rev (dropWhile ws (rev (dropWhile ws s)))
   \<and> stripwhite ws (stripwhite ws s) = stripwhite ws s"
proof -
  have main: "stripwhite ws s = rev (dropWhile ws (rev (dropWhile ws s)))" for s
  proof (cases "dropWhile ws s")
    case Nil
    then show ?thesis by (simp add: stripwhite_def Nil del: dropWhile_eq_Nil_conv)
  next
    case (Cons c r)
    then have "\<not> ws c" using hd_dropWhile [of ws s] by (metis list.distinct(1) list.sel(1))
    then have "take (Suc (strip_back ws (c # r) (length (c # r) - 1))) (c # r) =
        rev (dropWhile ws (rev (take (Suc (length (c # r) - 1)) (c # r))))"
      by (intro strip_back_rev) simp_all
    then show ?thesis by (simp add: stripwhite_def Cons)
  qed
  have idem: "dropWhile ws (rev (dropWhile ws (rev (dropWhile ws s)))) = rev (dropWhile ws (rev (dropWhile ws s)))"
  proof (cases "rev (dropWhile ws (rev (dropWhile ws s)))")
    case (Cons c r)
    have "prefix (rev (dropWhile ws (rev (dropWhile ws s)))) (dropWhile ws s)"
      using suffix_dropWhile [of ws "rev (dropWhile ws s)"] by (simp add: suffix_to_prefix)
    then obtain zs where "dropWhile ws s = c # r @ zs"
      unfolding Cons prefix_def by auto
    then have "\<not> ws c" by (metis dropWhile_eq_Cons_conv)
    with Cons show ?thesis by simp
  qed (simp only: dropWhile.simps)
  show ?thesis by (simp add: main idem)
qed

section \<open>Devices\<close>

lemma arg_device_check_colon: "arg_device_check arg \<longleftrightarrow> CHR '':'' \<in> set arg"
proof -
  have "strstr arg '':'' = None \<longleftrightarrow> CHR '':'' \<notin> set arg"
    by (simp add: strstr_char strchr_None_iff)
  moreover have "CHR '':'' \<in> set arg" if "sublist s arg" "CHR '':'' \<in> set s" for s
    using that by (auto simp: sublist_def)
  ultimately show ?thesis
    by (auto simp: arg_device_check_def strstr_None_iff)
qed

lemma strstr_host_colon: "strstr (''host:'' @ post) '':'' = Some 4"
  by simp

lemma strstr_host: "strstr (''host:'' @ post) ''host:'' = Some 0"
  by simp

lemma arg_prepend_host_cases:
  obtains (colon_slash) "strstr old '':/'' \<noteq> None" "arg_prepend_host old = old"
    | (host) pre post where "strstr old '':/'' = None" "old = pre @ ''host:'' @ post"
        "arg_prepend_host old = ''host:'' @ post"
    | (device) "strstr old '':/'' = None" "strstr old ''host:'' = None" "CHR '':'' \<in> set old"
        "arg_prepend_host old = old"
    | (plain) "CHR '':'' \<notin> set old" "arg_prepend_host old = ''host:'' @ old"
proof (cases "strstr old '':/''")
  case (Some p)
  then show thesis by (intro colon_slash) (simp_all add: arg_prepend_host_def)
next
  case None
  show thesis
  proof (cases "strstr old ''host:''")
    case (Some p)
    then have "prefix ''host:'' (drop p old)" by (simp add: strstr_Some_iff)
    then obtain post where post: "drop p old = ''host:'' @ post" by (auto simp: prefix_def)
    then have "arg_prepend_host old = ''host:'' @ post"
      using None Some by (simp add: arg_prepend_host_def)
    with None post show thesis
      using append_take_drop_id [of p old] by (intro host [of "take p old" post]) simp_all
  next
    case none: None
    show thesis
    proof (cases "CHR '':'' \<in> set old")
      case True
      then obtain q where "strstr old '':'' = Some q"
        using strstr_char [of old "CHR '':''"] strchr_None_iff [of old "CHR '':''"] by fastforce
      with None none True show thesis by (intro device) (simp_all add: arg_prepend_host_def)
    next
      case False
      then have "strstr old '':'' = None" by (simp add: strstr_char strchr_None_iff)
      with None none False show thesis by (intro plain) (simp_all add: arg_prepend_host_def)
    qed
  qed
qed

text \<open>
  \<open>arg_device_check\<close> is true exactly on the names with a colon. \<open>arg_prepend_host\<close> gives every
  name without a device the device \<open>host:\<close>, leaves the names of other devices and every absolute
  device path alone, and its result always names a device; a second pass changes nothing. (What
  stands before a \<open>host:\<close> inside a name is cut off.)
\<close>

theorem arg_prepend_host_device:
  "(arg_device_check old \<longleftrightarrow> CHR '':'' \<in> set old)
   \<and> arg_device_check (arg_prepend_host old)
   \<and> (\<not> arg_device_check old \<longrightarrow> arg_prepend_host old = ''host:'' @ old)
   \<and> (arg_device_check old \<longrightarrow> suffix (arg_prepend_host old) old)
   \<and> arg_prepend_host (arg_prepend_host old) = arg_prepend_host old"
proof (cases old rule: arg_prepend_host_cases)
  case colon_slash
  then have "sublist '':/'' old" by (simp add: strstr_None_iff)
  then have "CHR '':'' \<in> set old" by (auto simp: sublist_def)
  with colon_slash show ?thesis by (simp add: arg_device_check_colon)
next
  case (host pre post)
  have "\<not> sublist '':/'' (''host:'' @ post)"
    using host(1,2) by (auto simp: strstr_None_iff sublist_def) (metis append.assoc append_Cons append_Nil)
  then have "strstr (''host:'' @ post) '':/'' = None" by (subst strstr_None_iff)
  then have "arg_prepend_host (''host:'' @ post) = ''host:'' @ post"
    by (simp only: arg_prepend_host_def strstr_host strstr_host_colon option.case drop0) simp
  with host show ?thesis by (simp add: arg_device_check_colon suffix_def)
next
  case device
  then show ?thesis by (simp add: arg_device_check_colon)
next
  case plain
  have "arg_prepend_host (''host:'' @ old) = ''host:'' @ old"
    by (simp only: arg_prepend_host_def strstr_host strstr_host_colon option.case drop0)
       (simp split: option.splits)
  with plain show ?thesis by (simp add: arg_device_check_colon)
qed

theorem arg_prepend_host_device_witness:
  "arg_prepend_host ''f'' = ''host:f'' \<and> suffix (arg_prepend_host ''mc0:f'') ''mc0:f''"
  using arg_prepend_host_device [of "''f''"] arg_prepend_host_device [of "''mc0:f''"]
  by (simp add: arg_device_check_def)

section \<open>Argument vectors\<close>

fun unwords :: "string list \<Rightarrow> string" where
  "unwords [] = ''''"
| "unwords [w] = w"
| "unwords (w # ws) = w @ '' '' @ unwords ws"

definition word :: "string \<Rightarrow> bool" where
  "word w \<longleftrightarrow> w \<noteq> [] \<and> CHR '' '' \<notin> set w"

definition arg_piece :: "(string \<Rightarrow> bool) \<Rightarrow> string \<Rightarrow> string" where
  "arg_piece isf w = (if isf w \<and> CHR '':'' \<notin> set w then ''host:'' @ w else w)"

lemma unwords_Cons: "ws \<noteq> [] \<Longrightarrow> unwords (w # ws) = w @ '' '' @ unwords ws"
  by (cases ws) auto

lemma takeWhile_word:
  "word w \<Longrightarrow> takeWhile (\<lambda>c. c \<noteq> CHR '' '') w = w"
  by (auto simp: word_def)

lemma takeWhile_word_append:
  "word w \<Longrightarrow> takeWhile (\<lambda>c. c \<noteq> CHR '' '') (w @ CHR '' '' # r) = w"
  by (cases w) (auto simp: word_def intro!: takeWhile_eq_all_conv [THEN iffD2] simp: takeWhile_append)

lemma unwords_starts:
  "\<forall>w \<in> set ws. word w \<Longrightarrow> takeWhile (\<lambda>c. c = CHR '' '') (unwords ws) = []"
  by (induction ws rule: unwords.induct) (auto simp: word_def neq_Nil_conv)

lemma dropWhile_unwords:
  "\<forall>w \<in> set ws. word w \<Longrightarrow> dropWhile (\<lambda>c. c = CHR '' '') (unwords ws) = unwords ws"
  by (induction ws rule: unwords.induct) (auto simp: word_def neq_Nil_conv)

lemma unwords_Nil_iff: "\<forall>w \<in> set ws. word w \<Longrightarrow> unwords ws = [] \<longleftrightarrow> ws = []"
  by (cases ws rule: unwords.cases) (auto simp: word_def)

lemma fix_piece: "(if isf w then if \<not> arg_device_check w then ''host:'' @ w else w else w) = arg_piece isf w"
  by (simp add: arg_piece_def arg_device_check_colon)

lemma fix_loop_done: "length cmd \<le> p \<Longrightarrow> fix_loop isf cap cmd ai p argc argv = Ret (argc, argv)"
  by (simp add: fix_loop.simps)

lemma fix_loop_words:
  assumes "\<forall>w \<in> set ws. word w \<and> length w < MAXPATHLEN" and "length argv \<le> cap"
  shows "fix_loop isf cap (pre @ unwords ws) (length pre) (length pre) argc argv =
     (let out = argv @ concat (map (\<lambda>w. arg_piece isf w @ [NUL]) ws)
      in if length out \<le> cap then Ret (argc + length ws, out) else Crash)"
  using assms
proof (induction ws arbitrary: pre argc argv)
  case Nil
  then show ?case by (simp add: fix_loop.simps)
next
  case (Cons w ws)
  then have w: "word w" "length w < MAXPATHLEN" and ws: "\<forall>w \<in> set ws. word w" by auto
  define out where "out = argv @ arg_piece isf w @ [NUL]"
  show ?case
  proof (cases "ws = []")
    case True
    have "skip_word (pre @ w) (length pre) = length pre + length w"
      using w(1) by (simp add: skip_word_eq takeWhile_word)
    then show ?thesis using w True
      by (subst fix_loop.simps)
         (simp add: Let_def fix_piece fix_loop_done skip_spaces_eq word_def oguard_def)
  next
    case False
    define cmd where "cmd = pre @ unwords (w # ws)"
    have cmd: "cmd = (pre @ w @ '' '') @ unwords ws" "cmd = pre @ w @ CHR '' '' # unwords ws"
      using False by (simp_all add: cmd_def unwords_Cons)
    have p: "skip_word cmd (length pre) = length pre + length w"
      using w(1) by (simp add: cmd(2) skip_word_eq takeWhile_word_append)
    have q: "skip_spaces cmd (length pre + length w) = length (pre @ w @ '' '')"
      using ws by (simp add: cmd(2) skip_spaces_eq unwords_starts)
    have here: "take (length w) (drop (length pre) cmd) = w" "length pre < length cmd"
      by (simp_all add: cmd(2))
    have "fix_loop isf cap cmd (length pre) (length pre) argc argv =
        (if length out \<le> cap then fix_loop isf cap cmd (length (pre @ w @ '' '')) (length (pre @ w @ '' ''))
           (Suc argc) out else Crash)"
      using w(2) here by (subst fix_loop.simps) (simp add: Let_def p q fix_piece oguard_def out_def)
    also have "\<dots> = (let out = argv @ concat (map (\<lambda>w. arg_piece isf w @ [NUL]) (w # ws))
        in if length out \<le> cap then Ret (argc + length (w # ws), out) else Crash)"
      using Cons.IH [of out "pre @ w @ '' ''" "Suc argc"] Cons.prems
      unfolding cmd(1) by (simp add: out_def Let_def)
    finally show ?thesis by (simp only: cmd_def)
  qed
qed

text \<open>
  \<open>fix_cmd_arg\<close> on words with one blank between them: the words one after the other, each with a
  terminator and with \<open>host:\<close> in front if it is the name of a regular file on this host and has no
  device, and their number; the array overflows exactly when that is longer than the array.
\<close>

theorem fix_cmd_arg_words:
  assumes "\<forall>w \<in> set ws. word w \<and> length w < MAXPATHLEN"
  shows "fix_cmd_arg isf cap (unwords ws) =
     (let out = concat (map (\<lambda>w. arg_piece isf w @ [NUL]) ws)
      in if length out \<le> cap then Ret (length ws, out) else Crash)"
  using fix_loop_words [OF assms, of "[]" cap isf "[]" 0] by (simp add: fix_cmd_arg_def Let_def)

theorem fix_cmd_arg_words_witness:
  "fix_cmd_arg (\<lambda>f. f = ''a'') 256 ''a bc'' = Ret (2, ''host:a'' @ [NUL] @ ''bc'' @ [NUL])
   \<and> fix_cmd_arg (\<lambda>f. f = ''a'') 9 ''a bc'' = Crash"
  using fix_cmd_arg_words [of "[''a'', ''bc'']" "\<lambda>f. f = ''a''" 256]
    fix_cmd_arg_words [of "[''a'', ''bc'']" "\<lambda>f. f = ''a''" 9]
  by (simp add: word_def arg_piece_def)

text \<open>
  \<open>fix_cmd_arg\<close> skips only the first of several blanks: the others become part of the next
  argument, so a word after two blanks is not recognised as a file of the host.
\<close>

theorem fix_cmd_arg_extra_blanks:
  assumes "word v" and "word w" and "length v + length w + m < MAXPATHLEN"
    and "length (arg_piece isf v) + length (arg_piece isf (replicate m CHR '' '' @ w)) + 2 \<le> cap"
  shows "fix_cmd_arg isf cap (v @ replicate (Suc m) CHR '' '' @ w) =
     Ret (2, arg_piece isf v @ [NUL] @ arg_piece isf (replicate m CHR '' '' @ w) @ [NUL])"
proof -
  let ?cmd = "v @ CHR '' '' # replicate m CHR '' '' @ w"
  have sw: "skip_word ?cmd 0 = length v"
    using assms(1) by (simp add: skip_word_eq takeWhile_word_append)
  have ss: "skip_spaces ?cmd (length v) = length v + Suc m"
    using assms(2) by (simp add: skip_spaces_eq word_def takeWhile_append neq_Nil_conv) auto
  have sw': "skip_word ?cmd (Suc (length v + m)) = Suc (length v + (m + length w))"
    using assms(2) by (simp add: skip_word_eq takeWhile_word)
  have "fix_loop isf cap ?cmd 0 0 0 [] =
      fix_loop isf cap ?cmd (Suc (length v)) (length v + Suc m) 1 (arg_piece isf v @ [NUL])"
    using assms by (subst fix_loop.simps) (simp add: Let_def sw ss fix_piece)
  also have "\<dots> = Ret (2, arg_piece isf v @ [NUL] @ arg_piece isf (replicate m CHR '' '' @ w) @ [NUL])"
    using assms by (subst fix_loop.simps)
      (simp add: Let_def sw' fix_piece word_def fix_loop_done skip_spaces_eq)
  finally show ?thesis by (simp add: fix_cmd_arg_def)
qed

theorem fix_cmd_arg_extra_blanks_witness:
  "fix_cmd_arg (\<lambda>f. f = ''a'' \<or> f = ''b'') 256 ''a  b'' = Ret (2, ''host:a'' @ [NUL] @ '' b'' @ [NUL])"
  using fix_cmd_arg_extra_blanks [of "''a''" "''b''" 1 "\<lambda>f. f = ''a'' \<or> f = ''b''" 256]
  by (simp add: word_def arg_piece_def)

lemma build_loop_words:
  "ws \<noteq> [] \<Longrightarrow> \<forall>w \<in> set ws. word w \<Longrightarrow> \<forall>n. n < room n \<Longrightarrow> i < MAX_ARGV \<Longrightarrow>
     build_loop room i (unwords ws) =
       Ret (if i + length ws \<le> MAX_ARGV then (i + length ws, ws)
            else (Suc MAX_ARGV, take (MAX_ARGV - i) ws))"
proof (induction ws arbitrary: i rule: list_nonempty_induct)
  case (single w)
  then show ?case
    by (subst build_loop.simps) (simp add: Let_def takeWhile_word)
next
  case (cons w ws)
  then have w: "word w" and ws: "\<forall>w \<in> set ws. word w" by auto
  have tw: "takeWhile (\<lambda>c. c \<noteq> CHR '' '') (unwords (w # ws)) = w"
    using w cons.hyps by (simp add: unwords_Cons takeWhile_word_append)
  have rest: "dropWhile (\<lambda>c. c = CHR '' '') (drop (length w) (unwords (w # ws))) = unwords ws"
    using cons.hyps ws by (simp add: unwords_Cons dropWhile_unwords)
  have step: "build_loop room i (unwords (w # ws)) =
      omap (\<lambda>(n, vs). (n, w # vs)) (build_loop room (Suc i) (unwords ws))"
  proof -
    have "unwords ws \<noteq> []" using unwords_Nil_iff ws cons.hyps by blast
    moreover have "length w < room (length w)" using cons.prems(2) by blast
    ultimately show ?thesis
      using cons.prems(3) by (subst build_loop.simps) (simp only: Let_def tw rest if_True if_False oguard_simps)
  qed
  show ?case
  proof (cases "Suc i < MAX_ARGV")
    case True
    with cons.IH [of "Suc i"] cons.prems ws step show ?thesis
      by (auto simp: take_Cons')
  next
    case False
    with cons.prems(3) have "i = 255" by simp
    then have "build_loop room (Suc i) (unwords ws) = Ret (257, [])"
      by (subst build_loop.simps) simp
    with step \<open>i = 255\<close> cons.hyps show ?thesis by (cases ws) simp_all
  qed
qed

text \<open>
  \<open>build_argv\<close> on words with one blank between them, on an allocator whose blocks are larger than
  what was asked for: up to 256 words are stored and counted; with more, the first 256 are stored but
  257 returned, and \<open>free_argv\<close> with that count reads past the array. On blocks of exactly the size
  asked for every call overflows the first one: \<open>malloc(ai)\<close> leaves no room for the terminator.
\<close>

theorem build_argv_words:
  assumes "ws \<noteq> []" and "\<forall>w \<in> set ws. word w" and "\<forall>n. n < room n"
  shows "(length ws \<le> MAX_ARGV \<longrightarrow> build_argv room (Some (unwords ws)) = Ret (length ws, ws)
        \<and> free_argv ws (length ws) = Ret ())
    \<and> (MAX_ARGV < length ws \<longrightarrow> build_argv room (Some (unwords ws)) = Ret (257, take MAX_ARGV ws)
        \<and> free_argv (take MAX_ARGV ws) 257 = Crash)
    \<and> build_argv (\<lambda>n. n) (Some (unwords ws)) = Crash"
proof -
  have ne: "unwords ws \<noteq> []" using unwords_Nil_iff assms(1,2) by blast
  have "build_argv (\<lambda>n. n) (Some (unwords ws)) = Crash"
    using ne by (simp add: build_argv_def, subst build_loop.simps) (simp add: Let_def)
  moreover have "build_argv room (Some (unwords ws)) = build_loop room 0 (unwords ws)"
    using ne by (simp add: build_argv_def)
  ultimately show ?thesis
    using build_loop_words [OF assms, of 0] by (simp add: free_argv_def)
qed

theorem build_argv_words_witness:
  "build_argv Suc (Some ''cp a b'') = Ret (3, [''cp'', ''a'', ''b'']) \<and> build_argv (\<lambda>n. n) (Some ''cp a b'') = Crash"
  using build_argv_words [of "[''cp'', ''a'', ''b'']" Suc] by (simp add: word_def)

section \<open>Registers and files\<close>

lemma register_loop_spec:
  "register_loop str n i regs = i + length (takeWhile (\<lambda>reg. \<not> strncmp_eq str reg n) regs)"
  by (induction regs arbitrary: i) auto

lemma register_loop_least:
  "register_loop str n 0 regs \<le> length regs \<and>
   (\<forall>j < register_loop str n 0 regs. \<not> strncmp_eq str (regs ! j) n) \<and>
   (register_loop str n 0 regs < length regs \<longrightarrow> strncmp_eq str (regs ! register_loop str n 0 regs) n)"
  using length_takeWhile_le [of "\<lambda>reg. \<not> strncmp_eq str reg n" regs]
    nth_length_takeWhile [of "\<lambda>reg. \<not> strncmp_eq str reg n" regs]
  by (auto simp: register_loop_spec takeWhile_nth dest: set_takeWhileD)
     (metis nth_mem set_takeWhileD takeWhile_nth)

text \<open>
  \<open>get_register_index\<close> returns the first of the twelve registers whose name agrees with the
  string on the compared characters, and finds each of them by its own name; but a name it does not
  know gives 12, the index of \<open>vu1\<close>, so it is not told apart from a request for \<open>vu1\<close>.
\<close>

theorem get_register_index_spec:
  "(\<forall>i < DUMP_REG_MAX. get_register_index (DUMP_REG_SYM ! i) (length (DUMP_REG_SYM ! i)) = i)
   \<and> get_register_index str n \<le> DUMP_REG_MAX
   \<and> (\<forall>j < get_register_index str n. \<not> strncmp_eq str (DUMP_REG_SYM ! j) n)
   \<and> (get_register_index str n < DUMP_REG_MAX \<longrightarrow>
        strncmp_eq str (DUMP_REG_SYM ! get_register_index str n) n)
   \<and> get_register_index ''vu1'' 3 = 12 \<and> get_register_index ''none'' 4 = 12"
proof -
  have "get_register_index (DUMP_REG_SYM ! i) (length (DUMP_REG_SYM ! i)) = i" if "i < DUMP_REG_MAX" for i
  proof -
    have "list_all (\<lambda>i. get_register_index (DUMP_REG_SYM ! i) (length (DUMP_REG_SYM ! i)) = i) [0..<12]"
      by (simp add: get_register_index_def DUMP_REG_SYM_def strncmp_eq_def upt_rec)
    with that show ?thesis by (simp add: list_all_iff)
  qed
  moreover have "get_register_index ''vu1'' 3 = 12" "get_register_index ''none'' 4 = 12"
    by (simp_all add: get_register_index_def DUMP_REG_SYM_def strncmp_eq_def)
  moreover have "length (take DUMP_REG_MAX DUMP_REG_SYM) = DUMP_REG_MAX"
    by (simp add: DUMP_REG_SYM_def)
  moreover have "take DUMP_REG_MAX DUMP_REG_SYM ! j = DUMP_REG_SYM ! j"
    if "j < get_register_index str n" "get_register_index str n \<le> DUMP_REG_MAX" for j
    using that by simp
  ultimately show ?thesis
    using register_loop_least [of str n "take DUMP_REG_MAX DUMP_REG_SYM"]
    by (auto simp: get_register_index_def)
qed

theorem get_register_index_spec_witness:
  "get_register_index ''timer'' 5 = 2 \<and> get_register_index ''vif1'' 3 = 7 \<and>
   strncmp_eq ''vif1'' (DUMP_REG_SYM ! 7) 3 \<and> \<not> strncmp_eq ''vif1'' (DUMP_REG_SYM ! 6) 3"
proof -
  have "get_register_index ''vif1'' 3 = 7" "get_register_index ''timer'' 5 = 2"
    by (simp_all add: get_register_index_def DUMP_REG_SYM_def strncmp_eq_def)
  then show ?thesis using get_register_index_spec [of "''vif1''" 3] by simp
qed

text \<open>
  \<open>split_filename\<close> on arrays of \<open>MAXPATHLEN\<close>: the device is the text up to and including the
  first colon, empty when there is none; the directory is always empty; the file name is the rest,
  terminated if it is shorter than the array. On any smaller array the call writes past its end, as
  \<open>cli_copy\<close> does with its three arrays of 256.
\<close>

theorem split_filename_parts:
  "(CHR '':'' \<notin> set dev \<and> length dev + 1 < MAXPATHLEN \<and> no_nul rest \<and> length rest < MAXPATHLEN \<longrightarrow>
      (\<exists>f. split_filename MAXPATHLEN MAXPATHLEN MAXPATHLEN (dev @ '':'' @ rest) = Ret (dev @ '':'', '''', f)
         \<and> c_str f = Some rest))
   \<and> (CHR '':'' \<notin> set arg \<longrightarrow>
      split_filename MAXPATHLEN MAXPATHLEN MAXPATHLEN arg = Ret ('''', '''', strncpy arg MAXPATHLEN))
   \<and> split_filename MAX_PATH MAX_PATH MAX_PATH arg = Crash"
proof (intro conjI impI)
  assume h: "CHR '':'' \<notin> set dev \<and> length dev + 1 < MAXPATHLEN \<and> no_nul rest \<and> length rest < MAXPATHLEN"
  have "strstr (dev @ '':'' @ rest) '':'' = Some (length dev)"
    using h by (auto simp: strstr_char strchr_Some_iff nth_append)
  with h show "\<exists>f. split_filename MAXPATHLEN MAXPATHLEN MAXPATHLEN (dev @ '':'' @ rest) = Ret (dev @ '':'', '''', f)
      \<and> c_str f = Some rest"
    using c_str_strncpy [of rest MAXPATHLEN "[]"] by (simp add: split_filename_def)
next
  assume "CHR '':'' \<notin> set arg"
  then have "strstr arg '':'' = None" by (simp add: strstr_char strchr_None_iff)
  then show "split_filename MAXPATHLEN MAXPATHLEN MAXPATHLEN arg = Ret ('''', '''', strncpy arg MAXPATHLEN)"
    by (simp add: split_filename_def)
qed (simp add: split_filename_def)

theorem split_filename_parts_witness:
  "(\<exists>f. split_filename MAXPATHLEN MAXPATHLEN MAXPATHLEN ''pfs0:/a'' = Ret (''pfs0:'', '''', f) \<and> c_str f = Some ''/a'')
   \<and> split_filename MAX_PATH MAX_PATH MAX_PATH ''a'' = Crash"
  using split_filename_parts [of "''pfs0''" "''/a''" "''a''"] by simp

text \<open>The return value of \<open>read_file\<close> on a file that is long enough: it compares the number of
  items with the number of bytes, so only sizes of at most one byte succeed.\<close>

lemma read_file_fails: "1 < n \<Longrightarrow> read_file (Some bs) n = Ret (-1)"
  by (simp add: read_file_def)

end
