(* ===== verification/Connect.thy ===== *)
theory Connect
  imports Common
begin

text \<open>
  The connections: the part of \<open>linkproto_core.c\<close> that opens the sockets of the program, and
  \<open>ps2link_open\<close> of \<open>linkproto_stub.c\<close>. The socket calls are the parameter \<open>net\<close>, a record of
  functions of the host's state; \<open>close\<close> is written down in the state. Every outcome of a call is
  some \<open>net\<close>: a failing \<open>socket\<close>, a refused or delayed \<open>connect\<close>, a timeout of \<open>select\<close>.
\<close>

datatype sock_type = Stream | Datagram

text \<open>
  \<open>net_connect\<close> gives the returned value and whether \<open>errno\<close> is \<open>EINPROGRESS\<close>; \<open>net_select\<close> the
  returned value and whether the descriptor is in one of the two sets afterwards; \<open>net_so_error\<close> the
  returned value of \<open>getsockopt\<close> and the error it stores. The flags argument of \<open>fcntl\<close> is an
  uninitialised variable in both functions that call it, so only the value returned is modelled.
\<close>

record 'fs net =
  net_socket :: "'fs \<Rightarrow> sock_type \<Rightarrow> int \<times> 'fs"
  net_setsockopt :: "'fs \<Rightarrow> int \<Rightarrow> int \<times> 'fs"
  net_fcntl :: "'fs \<Rightarrow> int \<Rightarrow> int \<times> 'fs"
  net_connect :: "'fs \<Rightarrow> int \<Rightarrow> string \<Rightarrow> nat \<Rightarrow> (int \<times> bool) \<times> 'fs"
  net_select :: "'fs \<Rightarrow> int \<Rightarrow> int \<Rightarrow> (int \<times> bool) \<times> 'fs"
  net_so_error :: "'fs \<Rightarrow> int \<Rightarrow> (int \<times> int) \<times> 'fs"
  net_bind :: "'fs \<Rightarrow> int \<Rightarrow> string \<Rightarrow> nat \<Rightarrow> int \<times> 'fs"
  net_listen :: "'fs \<Rightarrow> int \<Rightarrow> int \<Rightarrow> int \<times> 'fs"

abbreviation (input) SRV_PORT :: nat where "SRV_PORT \<equiv> 0x4711"
abbreviation (input) CMD_PORT :: nat where "CMD_PORT \<equiv> 0x4712"
abbreviation (input) LOG_PORT :: nat where "LOG_PORT \<equiv> 0x4712"

text \<open>Run a call of the host.\<close>

definition on_host :: "('fs \<Rightarrow> 'r \<times> 'fs) \<Rightarrow> ('fs, 'z) link_scheme \<Rightarrow> 'r \<times> ('fs, 'z) link_scheme" where
  "on_host f s = (let (r, fs) = f (host s) in (r, s\<lparr>host := fs\<rparr>))"

definition log_listener ::
  "'fs net \<Rightarrow> string \<Rightarrow> nat \<Rightarrow> ('fs, 'z) link_scheme \<Rightarrow> int \<times> ('fs, 'z) link_scheme" where
  "log_listener net src_ip port s =
     (let (fd, s) = on_host (\<lambda>fs. net_socket net fs Datagram) s;
          (r, s) = on_host (\<lambda>fs. net_bind net fs fd src_ip port) s
      in (fd, s))"

text \<open>The code behind the label \<open>done\<close> of \<open>cmd_listener\<close>.\<close>

definition cmd_done ::
  "'fs net \<Rightarrow> int \<Rightarrow> int \<Rightarrow> ('fs, 'z) link_scheme \<Rightarrow> int \<times> ('fs, 'z) link_scheme" where
  "cmd_done net fd err s =
     (let (r, s) = on_host (\<lambda>fs. net_fcntl net fs fd) s
      in if err \<noteq> 0 then (-1, close_fd fd s) else (fd, s))"

definition cmd_listener ::
  "'fs net \<Rightarrow> string \<Rightarrow> nat \<Rightarrow> int \<Rightarrow> ('fs, 'z) link_scheme \<Rightarrow> int \<times> ('fs, 'z) link_scheme" where
  "cmd_listener net dst_ip port timeout s =
     (let (fd, s) = on_host (\<lambda>fs. net_socket net fs Stream) s in
      if fd = -1 then (-1, s)
      else
        let (r, s) = on_host (\<lambda>fs. net_setsockopt net fs fd) s;
            (r, s) = on_host (\<lambda>fs. net_fcntl net fs fd) s;
            ((ret, in_progress), s) = on_host (\<lambda>fs. net_connect net fs fd dst_ip port) s in
        if ret < 0 \<and> \<not> in_progress then (-1, s)
        else if ret = 0 then cmd_done net fd 0 s
        else
          let ((ret, isset), s) = on_host (\<lambda>fs. net_select net fs fd timeout) s in
          if ret = 0 then (-1, close_fd fd s)
          else if isset then
            let ((r, err), s) = on_host (\<lambda>fs. net_so_error net fs fd) s
            in if r < 0 then (-1, s) else cmd_done net fd err s
          else cmd_done net fd 0 s)"

definition ps2netfs_open ::
  "'fs net \<Rightarrow> string \<Rightarrow> nat \<Rightarrow> int \<Rightarrow> ('fs, 'z) link_scheme \<Rightarrow> int \<times> ('fs, 'z) link_scheme" where
  "ps2netfs_open net dst_ip port timeout s = cmd_listener net dst_ip port timeout s"

definition pko_srv_setup ::
  "'fs net \<Rightarrow> string \<Rightarrow> nat \<Rightarrow> ('fs, 'z) link_scheme \<Rightarrow> int \<times> ('fs, 'z) link_scheme" where
  "pko_srv_setup net src_ip port s =
     (let (fd, s) = on_host (\<lambda>fs. net_socket net fs Stream) s in
      if fd = -1 then (-1, s)
      else
        let (r, s) = on_host (\<lambda>fs. net_setsockopt net fs fd) s in
        if r = -1 then (-1, s)
        else
          let (r, s) = on_host (\<lambda>fs. net_fcntl net fs fd) s in
          if r < 0 then (-1, s)
          else
            let (r, s) = on_host (\<lambda>fs. net_bind net fs fd src_ip port) s in
            if r = -1 then (-1, s)
            else
              let (r, s) = on_host (\<lambda>fs. net_listen net fs fd 10) s
              in if r \<noteq> 0 then (-1, s) else (fd, s))"

definition pko_cmd_con ::
  "'fs net \<Rightarrow> string \<Rightarrow> nat \<Rightarrow> ('fs, 'z) link_scheme \<Rightarrow> int \<times> ('fs, 'z) link_scheme" where
  "pko_cmd_con net ip port s =
     (let (fd, s) = on_host (\<lambda>fs. net_socket net fs Datagram) s; s = s\<lparr>cmd_fd := fd\<rparr> in
      if fd < 0 then (-1, s)
      else
        let ((ret, p), s) = on_host (\<lambda>fs. net_connect net fs (cmd_fd s) ip port) s
        in if ret < 0 then (-1, s) else (cmd_fd s, s))"

text \<open>\<open>ps2link_open\<close>: the returned value of \<open>connect\<close>, and the descriptor stored through \<open>sock\<close>.\<close>

definition ps2link_open ::
  "'fs net \<Rightarrow> string \<Rightarrow> ('fs, 'z) link_scheme \<Rightarrow> (int \<times> int) \<times> ('fs, 'z) link_scheme" where
  "ps2link_open net dst s =
     (let (sock, s) = on_host (\<lambda>fs. net_socket net fs Stream) s;
          ((ret, p), s) = on_host (\<lambda>fs. net_connect net fs sock dst SRV_PORT) s
      in ((ret, sock), s))"

section \<open>What opening changes\<close>

text \<open>
  \<open>opens s s'\<close>: only the host, the list of closed descriptors and \<open>cmd_fd\<close> differ, and descriptors
  are only added to that list.
\<close>

definition opens :: "('fs, 'z) link_scheme \<Rightarrow> ('fs, 'z) link_scheme \<Rightarrow> bool" where
  "opens s s' \<longleftrightarrow> prefix (closed s) (closed s')
     \<and> rx s' = rx s \<and> tx_plan s' = tx_plan s \<and> tx_log s' = tx_log s
     \<and> send_packet s' = send_packet s \<and> recv_packet s' = recv_packet s
     \<and> pko_srv_fd s' = pko_srv_fd s \<and> pksh_srv_fd s' = pksh_srv_fd s \<and> log_fd s' = log_fd s
     \<and> ps2_netfs_fd s' = ps2_netfs_fd s \<and> DEBUG s' = DEBUG s \<and> path_list s' = path_list s
     \<and> link.more s' = link.more s"

lemma opens_refl [simp]: "opens s s"
  by (simp add: opens_def)

lemma opens_trans [trans]: "opens s s1 \<Longrightarrow> opens s1 s2 \<Longrightarrow> opens s s2"
  unfolding opens_def by (auto intro: prefix_order.trans)

lemma opens_on_host: "on_host f s = (r, s') \<Longrightarrow> opens s s'"
  by (auto simp: opens_def on_host_def split: prod.splits)

lemma opens_close_fd [simp]: "opens s (close_fd fd s)"
  by (simp add: opens_def close_fd_def)

lemma opens_wf: "opens s s' \<Longrightarrow> wf_link s \<Longrightarrow> wf_link s'"
  by (auto simp: opens_def wf_link_def)

lemma opens_cmd_done: "cmd_done net fd err s = (r, s') \<Longrightarrow> opens s s'"
  by (auto simp: cmd_done_def split: prod.splits if_splits dest!: opens_on_host intro: opens_trans)

lemma on_host_keeps:
  "on_host f s = (r, s') \<Longrightarrow> closed s' = closed s \<and> cmd_fd s' = cmd_fd s \<and> tx_log s' = tx_log s"
  by (auto simp: on_host_def split: prod.splits)

lemma cmd_listener_cases:
  assumes "cmd_listener net ip port timeout s = (r, s')"
  shows "opens s s' \<and> cmd_fd s' = cmd_fd s \<and>
     (r \<noteq> -1 \<longrightarrow> r = fst (net_socket net (host s) Stream) \<and> closed s' = closed s) \<and>
     (closed s' = closed s \<or> closed s' = closed s @ [fst (net_socket net (host s) Stream)])"
proof -
  define fd where "fd = fst (net_socket net (host s) Stream)"
  obtain s1 where s1: "on_host (\<lambda>fs. net_socket net fs Stream) s = (fd, s1)"
    by (simp add: on_host_def fd_def case_prod_beta)
  obtain r2 s2 where s2: "on_host (\<lambda>fs. net_setsockopt net fs fd) s1 = (r2, s2)" by fastforce
  obtain r3 s3 where s3: "on_host (\<lambda>fs. net_fcntl net fs fd) s2 = (r3, s3)" by fastforce
  obtain ret p s4 where s4: "on_host (\<lambda>fs. net_connect net fs fd ip port) s3 = ((ret, p), s4)"
    by (metis prod.collapse)
  obtain ret' isset s5 where s5: "on_host (\<lambda>fs. net_select net fs fd timeout) s4 = ((ret', isset), s5)"
    by (metis prod.collapse)
  obtain r6 err s6 where s6: "on_host (\<lambda>fs. net_so_error net fs fd) s5 = ((r6, err), s6)"
    by (metis prod.collapse)
  note runs = s1 s2 s3 s4 s5 s6
  note keeps = runs [THEN on_host_keeps]
  have upto: "opens s s1" "opens s s4" "opens s s5" "opens s s6"
    using runs [THEN opens_on_host] by (blast intro: opens_trans)+
  have timeout: "opens s (s5\<lparr>closed := closed s @ [fd]\<rparr>)"
    using opens_trans [OF upto(3) opens_close_fd [of s5 fd]] keeps by (simp add: close_fd_def)
  have done_cases: "opens s0 s'' \<and> cmd_fd s'' = cmd_fd s0 \<and>
      (q = fd \<and> closed s'' = closed s0 \<or> q = -1 \<and> closed s'' = closed s0 @ [fd])"
    if "cmd_done net fd e s0 = (q, s'')" for e q and s0 s'' :: "('a, 'b) link_scheme"
    using that opens_cmd_done [OF that]
    by (auto simp: cmd_done_def close_fd_def split: prod.splits if_splits dest!: on_host_keeps)
  have "opens s s' \<and> cmd_fd s' = cmd_fd s \<and> (r \<noteq> -1 \<longrightarrow> r = fd \<and> closed s' = closed s) \<and>
     (closed s' = closed s \<or> closed s' = closed s @ [fd])"
    using assms keeps upto timeout
    unfolding cmd_listener_def
    by (auto simp: runs close_fd_def split: if_splits dest!: done_cases intro: opens_trans)
  then show ?thesis by (simp add: fd_def)
qed

text \<open>
  \<open>cmd_listener\<close>: a descriptor it returns is the one \<open>socket\<close> gave, connected at once or after
  the wait without a pending error, and not closed. When it fails it returns -1; then the socket is
  closed after a timeout and after an error of the connection, but left open after an immediate
  refusal. In every case nothing else of the state changes.
\<close>

theorem cmd_listener_result:
  assumes "cmd_listener net ip port timeout s = (r, s')"
  shows "opens s s' \<and> cmd_fd s' = cmd_fd s \<and>
     (r \<noteq> -1 \<longrightarrow> r = fst (net_socket net (host s) Stream) \<and> closed s' = closed s) \<and>
     (closed s' = closed s \<or> closed s' = closed s @ [fst (net_socket net (host s) Stream)])"
  by (rule cmd_listener_cases [OF assms])

text \<open>A host for the concrete inputs: descriptors count up, everything else succeeds at once.\<close>

definition example_net :: "int net" where
  "example_net = \<lparr>net_socket = \<lambda>n t. (n, n + 1), net_setsockopt = \<lambda>n fd. (0, n),
     net_fcntl = \<lambda>n fd. (0, n), net_connect = \<lambda>n fd ip port. ((0, False), n),
     net_select = \<lambda>n fd t. ((1, True), n), net_so_error = \<lambda>n fd. ((0, 0), n),
     net_bind = \<lambda>n fd ip port. (0, n), net_listen = \<lambda>n fd k. (0, n)\<rparr>"

theorem cmd_listener_result_witness:
  "fst (cmd_listener example_net ''192.168.0.10'' SRV_PORT 60 (link_init 7)) = 7 \<and>
   closed (snd (cmd_listener example_net ''192.168.0.10'' SRV_PORT 60 (link_init 7))) = []"
proof -
  obtain r s' where run: "cmd_listener example_net ''192.168.0.10'' SRV_PORT 60 (link_init 7) = (r, s')"
    by fastforce
  then have "r \<noteq> -1"
    by (auto simp: cmd_listener_def on_host_def example_net_def cmd_done_def link_init_def)
  with cmd_listener_result [OF run] run show ?thesis
    by (simp add: example_net_def link_init_def)
qed

lemma pko_cmd_con_opens:
  assumes "pko_cmd_con net ip port s = (r, s')"
  shows "opens s s'" and "closed s' = closed s"
    and "cmd_fd s' = fst (net_socket net (host s) Datagram)"
proof -
  define fd where "fd = fst (net_socket net (host s) Datagram)"
  obtain s1 where s1: "on_host (\<lambda>fs. net_socket net fs Datagram) s = (fd, s1)"
    by (simp add: on_host_def fd_def case_prod_beta)
  define s2 where "s2 = s1\<lparr>cmd_fd := fd\<rparr>"
  obtain ret p s3 where s3: "on_host (\<lambda>fs. net_connect net fs fd ip port) s2 = ((ret, p), s3)"
    by (metis prod.collapse)
  have "opens s s2" using opens_on_host [OF s1] by (simp add: s2_def opens_def)
  moreover have "opens s s3" using opens_trans [OF calculation opens_on_host [OF s3]] .
  moreover have "s' = (if fd < 0 then s2 else s3)"
    using assms s1 s3 by (auto simp: pko_cmd_con_def s2_def split: if_splits)
  ultimately show "opens s s'" "closed s' = closed s" "cmd_fd s' = fst (net_socket net (host s) Datagram)"
    using on_host_keeps [OF s1] on_host_keeps [OF s3] by (simp_all add: s2_def fd_def)
qed

text \<open>
  \<open>pko_cmd_con\<close> stores a fresh datagram socket in \<open>cmd_fd\<close> and never closes the one that was
  there: whatever the number of commands the shell has sent, no socket was closed, so every command
  leaves one more descriptor open. Nothing else of the state changes.
\<close>

theorem pko_cmd_con_leaks:
  "opens s (snd (pko_cmd_con net ip port s)) \<and>
   cmd_fd (snd (pko_cmd_con net ip port s)) = fst (net_socket net (host s) Datagram) \<and>
   closed (((\<lambda>s. snd (pko_cmd_con net ip port s)) ^^ n) s) = closed s"
proof -
  have keeps: "closed (snd (pko_cmd_con net ip port s)) = closed s" for s :: "('a, 'b) link_scheme"
    using pko_cmd_con_opens(2) [of net ip port s] by (metis prod.collapse)
  then have "closed (((\<lambda>s. snd (pko_cmd_con net ip port s)) ^^ n) s) = closed s"
    by (induction n) auto
  then show ?thesis using pko_cmd_con_opens [of net ip port s] by (metis prod.collapse)
qed

end
