(* ===== verification/Linkstub.thy ===== *)
theory Linkstub
  imports Connect
begin

text \<open>
  \<open>linkproto_stub.c\<close>: the requests the host sends to the console. Each function builds its packet in
  a local structure, which is not cleared: \<open>junk\<close> is what the stack held there, at least as many
  bytes as the packet. What a function does not assign goes out as it was.
\<close>

section \<open>Constants\<close>

abbreviation (input) RESET_CMD :: u32 where "RESET_CMD \<equiv> 0xbabe0201"
abbreviation (input) EXECIOP_CMD :: u32 where "EXECIOP_CMD \<equiv> 0xbabe0202"
abbreviation (input) EXECEE_CMD :: u32 where "EXECEE_CMD \<equiv> 0xbabe0203"
abbreviation (input) POWEROFF_CMD :: u32 where "POWEROFF_CMD \<equiv> 0xbabe0204"
abbreviation (input) SCRDUMP_CMD :: u32 where "SCRDUMP_CMD \<equiv> 0xbabe0205"
abbreviation (input) NETDUMP_CMD :: u32 where "NETDUMP_CMD \<equiv> 0xbabe0206"
abbreviation (input) DUMPMEM_CMD :: u32 where "DUMPMEM_CMD \<equiv> 0xbabe0207"
abbreviation (input) STARTVU_CMD :: u32 where "STARTVU_CMD \<equiv> 0xbabe0208"
abbreviation (input) STOPVU_CMD :: u32 where "STOPVU_CMD \<equiv> 0xbabe0209"
abbreviation (input) DUMPREGS_CMD :: u32 where "DUMPREGS_CMD \<equiv> 0xbabe020a"
abbreviation (input) GSEXEC_CMD :: u32 where "GSEXEC_CMD \<equiv> 0xbabe020b"
abbreviation (input) WRITEMEM_CMD :: u32 where "WRITEMEM_CMD \<equiv> 0xbabe020c"

section \<open>Requests\<close>

text \<open>A request that is only a header.\<close>

definition hdr_req :: "u32 \<Rightarrow> int \<Rightarrow> ('fs, 'z) link_scheme \<Rightarrow> int \<times> ('fs, 'z) link_scheme" where
  "hdr_req cmd sock s =
     send_fd sock (enc_hdr \<lparr>p_cmd = htonl cmd, p_len = htons (of_nat sizeof_pkt_hdr)\<rparr>) s"

definition pko_dump2pc_req :: "int \<Rightarrow> ('fs, 'z) link_scheme \<Rightarrow> int \<times> ('fs, 'z) link_scheme" where
  "pko_dump2pc_req sock s = hdr_req NETDUMP_CMD sock s"

definition pko_dump2screen_req :: "int \<Rightarrow> ('fs, 'z) link_scheme \<Rightarrow> int \<times> ('fs, 'z) link_scheme" where
  "pko_dump2screen_req sock s = hdr_req SCRDUMP_CMD sock s"

definition pko_poweroff_req :: "int \<Rightarrow> ('fs, 'z) link_scheme \<Rightarrow> int \<times> ('fs, 'z) link_scheme" where
  "pko_poweroff_req sock s = hdr_req POWEROFF_CMD sock s"

definition pko_reset_req :: "int \<Rightarrow> ('fs, 'z) link_scheme \<Rightarrow> int \<times> ('fs, 'z) link_scheme" where
  "pko_reset_req sock s = hdr_req RESET_CMD sock s"

definition memio_packet :: "u32 \<Rightarrow> string \<Rightarrow> u32 \<Rightarrow> u32 \<Rightarrow> pkt_memio_req" where
  "memio_packet cmd file offset size' =
     \<lparr>p_cmd = htonl cmd, p_len = htons (of_nat sizeof_pkt_memio_req), iq_offset = htonl offset,
      iq_size = htonl size', iq_argv = strncpy file MAX_PATH\<rparr>"

definition pko_dumpmemory_req ::
  "int \<Rightarrow> string \<Rightarrow> u32 \<Rightarrow> u32 \<Rightarrow> ('fs, 'z) link_scheme \<Rightarrow> int \<times> ('fs, 'z) link_scheme" where
  "pko_dumpmemory_req sock file offset size' s =
     send_fd sock (enc_memio_req (memio_packet DUMPMEM_CMD file offset size')) s"

definition pko_writemem_req ::
  "int \<Rightarrow> string \<Rightarrow> u32 \<Rightarrow> u32 \<Rightarrow> ('fs, 'z) link_scheme \<Rightarrow> int \<times> ('fs, 'z) link_scheme" where
  "pko_writemem_req sock file offset size' s =
     send_fd sock (enc_memio_req (memio_packet WRITEMEM_CMD file offset size')) s"

definition pko_dumpregs_req ::
  "int \<Rightarrow> string \<Rightarrow> u32 \<Rightarrow> ('fs, 'z) link_scheme \<Rightarrow> int \<times> ('fs, 'z) link_scheme" where
  "pko_dumpregs_req sock file regs s =
     send_fd sock (enc_dumpregs_req
       \<lparr>p_cmd = htonl DUMPREGS_CMD, p_len = htons (of_nat sizeof_pkt_dumpregs_req),
        eq_regs = htonl regs, eq_argv = strncpy file MAX_PATH\<rparr>) s"

text \<open>
  The two exec requests: \<open>memcpy(req.argv, argv, argvlen)\<close> from an object of \<open>length argv\<close> bytes
  and a NUL behind it, into the 256 bytes of \<open>req.argv\<close>.
\<close>

definition exec_req ::
  "u32 \<Rightarrow> byte list \<Rightarrow> int \<Rightarrow> byte list \<Rightarrow> u32 \<Rightarrow> u32 \<Rightarrow> ('fs, 'z) link_scheme \<Rightarrow>
     (int \<times> ('fs, 'z) link_scheme) outcome" where
  "exec_req cmd junk sock argv argvlen argc s =
     oguard (unat argvlen \<le> length argv \<and> unat argvlen < MAX_PATH)
       (let req = (view_exec_req junk)\<lparr>p_cmd := htonl cmd,
              p_len := htons (of_nat sizeof_pkt_exec_req), xq_argc := htonl argc\<rparr>;
            req = req\<lparr>xq_argv := poke 0 (take (unat argvlen) argv @ [0]) (xq_argv req)\<rparr>
        in Ret (send_fd sock (enc_exec_req req) s))"

definition pko_execee_req ::
  "byte list \<Rightarrow> int \<Rightarrow> byte list \<Rightarrow> u32 \<Rightarrow> u32 \<Rightarrow> ('fs, 'z) link_scheme \<Rightarrow>
     (int \<times> ('fs, 'z) link_scheme) outcome" where
  "pko_execee_req junk sock argv argvlen argc s = exec_req EXECEE_CMD junk sock argv argvlen argc s"

definition pko_execiop_req ::
  "byte list \<Rightarrow> int \<Rightarrow> byte list \<Rightarrow> u32 \<Rightarrow> u32 \<Rightarrow> ('fs, 'z) link_scheme \<Rightarrow>
     (int \<times> ('fs, 'z) link_scheme) outcome" where
  "pko_execiop_req junk sock argv argvlen argc s = exec_req EXECIOP_CMD junk sock argv argvlen argc s"

text \<open>\<open>htons(size)\<close> converts to 16 bits first; 256 bytes are copied from \<open>file\<close>.\<close>

definition pko_gsexec_req ::
  "int \<Rightarrow> byte list \<Rightarrow> u32 \<Rightarrow> ('fs, 'z) link_scheme \<Rightarrow> (int \<times> ('fs, 'z) link_scheme) outcome" where
  "pko_gsexec_req sock file size' s =
     oguard (MAX_PATH \<le> length file)
       (Ret (send_fd sock (enc_gsexec_req
         \<lparr>p_cmd = htonl GSEXEC_CMD, p_len = htons (of_nat sizeof_pkt_gsexec_req),
          gq_size = htons (ucast size'), gq_file = take MAX_PATH file\<rparr>) s))"

text \<open>\<open>req.vpu = htons(vpu)\<close>: 16 bits in network order, stored in an \<open>int\<close>.\<close>

definition vu_packet :: "u32 \<Rightarrow> u32 \<Rightarrow> pkt_vu_req" where
  "vu_packet cmd vpu =
     \<lparr>p_cmd = htonl cmd, p_len = htons (of_nat sizeof_pkt_vu_req), uq_vpu = ucast (htons (ucast vpu))\<rparr>"

definition pko_stop_vu :: "int \<Rightarrow> u32 \<Rightarrow> ('fs, 'z) link_scheme \<Rightarrow> int \<times> ('fs, 'z) link_scheme" where
  "pko_stop_vu sock vpu s = send_fd sock (enc_vu_req (vu_packet STOPVU_CMD vpu)) s"

definition pko_start_vu :: "int \<Rightarrow> u32 \<Rightarrow> ('fs, 'z) link_scheme \<Rightarrow> int \<times> ('fs, 'z) link_scheme" where
  "pko_start_vu sock vpu s = send_fd sock (enc_vu_req (vu_packet STARTVU_CMD vpu)) s"

section \<open>On the wire\<close>

text \<open>What the console or another copy of the shell reads off the connection.\<close>

lemma send_fd_whole:
  "tx_plan s sock = [] \<Longrightarrow> send_fd sock bs s = (int (length bs), s\<lparr>tx_log := tx_log s @ [(sock, bs)]\<rparr>)"
  by (simp add: send_fd_def fun_upd_idem)

lemma hdr_req_wire:
  "tx_plan s sock = [] \<Longrightarrow>
     hdr_req cmd sock s = (6, s\<lparr>tx_log := tx_log s @ [(sock, be32 cmd @ be16 6)]\<rparr>)"
  by (simp add: hdr_req_def send_fd_whole enc_hdr_def order_simps)

lemma le32_ucast16: "le32 (ucast (w :: u16)) = le16 w @ [0, 0]"
proof -
  have "drop_bit 16 (ucast w :: u32) = 0" "drop_bit 24 (ucast w :: u32) = 0"
    by (rule bit_word_eqI; auto simp: bit_simps dest: bit_imp_le_length)+
  moreover have "(ucast (ucast w :: u32) :: byte) = ucast w"
    by (rule bit_word_eqI) (auto simp: bit_simps)
  moreover have "(ucast (drop_bit 8 (ucast w :: u32)) :: byte) = ucast (drop_bit 8 w)"
    by (rule bit_word_eqI) (auto simp: bit_simps)
  ultimately show ?thesis by (simp add: le32_def le16_def)
qed

lemma pko_hdr_wire:
  assumes "tx_plan s sock = []"
  shows "pko_dump2pc_req sock s = (6, s\<lparr>tx_log := tx_log s @ [(sock, be32 NETDUMP_CMD @ be16 6)]\<rparr>)"
    and "pko_dump2screen_req sock s = (6, s\<lparr>tx_log := tx_log s @ [(sock, be32 SCRDUMP_CMD @ be16 6)]\<rparr>)"
    and "pko_poweroff_req sock s = (6, s\<lparr>tx_log := tx_log s @ [(sock, be32 POWEROFF_CMD @ be16 6)]\<rparr>)"
    and "pko_reset_req sock s = (6, s\<lparr>tx_log := tx_log s @ [(sock, be32 RESET_CMD @ be16 6)]\<rparr>)"
  using assms
  by (simp_all add: pko_dump2pc_req_def pko_dump2screen_req_def pko_poweroff_req_def pko_reset_req_def hdr_req_wire)

lemma pko_memio_wire:
  assumes "tx_plan s sock = []"
  shows "pko_dumpmemory_req sock file a n s = (270, s\<lparr>tx_log := tx_log s @
       [(sock, be32 DUMPMEM_CMD @ be16 270 @ be32 a @ be32 n @ strncpy file 256)]\<rparr>)"
    and "pko_writemem_req sock file a n s = (270, s\<lparr>tx_log := tx_log s @
       [(sock, be32 WRITEMEM_CMD @ be16 270 @ be32 a @ be32 n @ strncpy file 256)]\<rparr>)"
  using assms
  by (simp_all add: pko_dumpmemory_req_def pko_writemem_req_def memio_packet_def enc_memio_req_def
      send_fd_whole order_simps)

lemma pko_dumpregs_wire:
  "tx_plan s sock = [] \<Longrightarrow>
     pko_dumpregs_req sock file n s = (266, s\<lparr>tx_log := tx_log s @
       [(sock, be32 DUMPREGS_CMD @ be16 266 @ be32 n @ strncpy file 256)]\<rparr>)"
  by (simp add: pko_dumpregs_req_def enc_dumpregs_req_def send_fd_whole order_simps)

lemma pko_vu_wire:
  assumes "tx_plan s sock = []"
  shows "pko_stop_vu sock vpu s = (10, s\<lparr>tx_log := tx_log s @
       [(sock, be32 STOPVU_CMD @ be16 10 @ be16 (ucast vpu) @ [0, 0])]\<rparr>)"
    and "pko_start_vu sock vpu s = (10, s\<lparr>tx_log := tx_log s @
       [(sock, be32 STARTVU_CMD @ be16 10 @ be16 (ucast vpu) @ [0, 0])]\<rparr>)"
  using assms
  by (simp_all add: pko_stop_vu_def pko_start_vu_def vu_packet_def enc_vu_req_def le32_ucast16
      send_fd_whole order_simps)

text \<open>
  C30. The packets of the commands without a variable part on the wire: the command and the length in
  network order, for the register and memory requests the numbers in network order and the name in
  256 bytes, terminated if it is shorter. The number of the vector unit is the exception: it is sent
  as 16 bits in network order with two zero bytes behind, not as a 32-bit number in network order.
\<close>

theorem stub_wire:
  assumes "tx_plan s sock = []"
  shows "pko_dump2pc_req sock s = (6, s\<lparr>tx_log := tx_log s @ [(sock, be32 NETDUMP_CMD @ be16 6)]\<rparr>)
   \<and> pko_dump2screen_req sock s = (6, s\<lparr>tx_log := tx_log s @ [(sock, be32 SCRDUMP_CMD @ be16 6)]\<rparr>)
   \<and> pko_poweroff_req sock s = (6, s\<lparr>tx_log := tx_log s @ [(sock, be32 POWEROFF_CMD @ be16 6)]\<rparr>)
   \<and> pko_reset_req sock s = (6, s\<lparr>tx_log := tx_log s @ [(sock, be32 RESET_CMD @ be16 6)]\<rparr>)
   \<and> pko_dumpmemory_req sock file a n s = (270, s\<lparr>tx_log := tx_log s @
       [(sock, be32 DUMPMEM_CMD @ be16 270 @ be32 a @ be32 n @ strncpy file 256)]\<rparr>)
   \<and> pko_writemem_req sock file a n s = (270, s\<lparr>tx_log := tx_log s @
       [(sock, be32 WRITEMEM_CMD @ be16 270 @ be32 a @ be32 n @ strncpy file 256)]\<rparr>)
   \<and> pko_dumpregs_req sock file n s = (266, s\<lparr>tx_log := tx_log s @
       [(sock, be32 DUMPREGS_CMD @ be16 266 @ be32 n @ strncpy file 256)]\<rparr>)
   \<and> pko_stop_vu sock vpu s = (10, s\<lparr>tx_log := tx_log s @
       [(sock, be32 STOPVU_CMD @ be16 10 @ be16 (ucast vpu) @ [0, 0])]\<rparr>)
   \<and> pko_start_vu sock vpu s = (10, s\<lparr>tx_log := tx_log s @
       [(sock, be32 STARTVU_CMD @ be16 10 @ be16 (ucast vpu) @ [0, 0])]\<rparr>)"
  using assms by (simp add: pko_hdr_wire pko_memio_wire pko_dumpregs_wire pko_vu_wire)

theorem stub_wire_witness:
  "snd (pko_stop_vu 4 1 (link_init ())) = (link_init ())\<lparr>tx_log :=
     [(4, [0xba, 0xbe, 2, 9, 0, 10, 0, 1, 0, 0])]\<rparr>"
  using stub_wire [of "link_init ()" 4 "''''" 0 0 1]
  by (simp add: link_init_def be32_def be16_def le32_def le16_def)

lemma exec_req_wire:
  assumes "tx_plan s sock = []" and "sizeof_pkt_exec_req \<le> length junk"
  shows "exec_req cmd junk sock argv n argc s =
     (if unat n \<le> length argv \<and> unat n < 256
      then Ret (266, s\<lparr>tx_log := tx_log s @ [(sock, be32 cmd @ be16 266 @ be32 argc @
             take (unat n) argv @ [0] @ peek (11 + unat n) (255 - unat n) junk)]\<rparr>)
      else Crash)"
proof (cases "unat n \<le> length argv \<and> unat n < 256")
  case True
  have "drop (Suc (unat n)) (peek 10 256 junk) = peek (11 + unat n) (255 - unat n) junk"
    by (simp add: peek_def drop_take add.commute)
  then have "poke 0 (take (unat n) argv @ [0]) (peek 10 256 junk) =
      take (unat n) argv @ [0] @ peek (11 + unat n) (255 - unat n) junk"
    using True by (simp add: poke_def min_absorb1)
  moreover have "length (peek (11 + unat n) (255 - unat n) junk) = 255 - unat n"
    using assms(2) True by (intro length_peek) simp
  ultimately show ?thesis using assms True
    by (simp add: exec_req_def Let_def send_fd_whole enc_exec_req_def view_exec_req_def order_simps)
qed (auto simp: exec_req_def oguard_def)

text \<open>
  \<open>pko_execee_req\<close> and \<open>pko_execiop_req\<close> send a packet of 266 bytes with the number of the
  arguments, the argument strings as they are and a NUL; what follows in the packet is what the
  stack held. They stay inside the packet exactly if the arguments are shorter than 256 bytes:
  the 256 bytes that fit the caller's array do not fit here.
\<close>

theorem exec_requests_wire:
  assumes "tx_plan s sock = []" and "sizeof_pkt_exec_req \<le> length junk" and "unat n \<le> length argv"
  shows "(unat n < 256 \<longrightarrow>
      pko_execee_req junk sock argv n argc s = Ret (266, s\<lparr>tx_log := tx_log s @
        [(sock, be32 EXECEE_CMD @ be16 266 @ be32 argc @
          take (unat n) argv @ [0] @ peek (11 + unat n) (255 - unat n) junk)]\<rparr>) \<and>
      pko_execiop_req junk sock argv n argc s = Ret (266, s\<lparr>tx_log := tx_log s @
        [(sock, be32 EXECIOP_CMD @ be16 266 @ be32 argc @
          take (unat n) argv @ [0] @ peek (11 + unat n) (255 - unat n) junk)]\<rparr>))
   \<and> (256 \<le> unat n \<longrightarrow> pko_execee_req junk sock argv n argc s = Crash
        \<and> pko_execiop_req junk sock argv n argc s = Crash)"
  using assms by (simp add: pko_execee_req_def pko_execiop_req_def exec_req_wire)

theorem exec_requests_wire_witness:
  "pko_execee_req (replicate 266 9) 4 (replicate 256 65) 256 1 (link_init ()) = Crash \<and>
   pko_execee_req (replicate 266 9) 4 [65] 1 1 (link_init ()) = Ret (266, (link_init ())\<lparr>tx_log :=
     [(4, be32 EXECEE_CMD @ be16 266 @ be32 1 @ [65, 0] @ replicate 254 9)]\<rparr>)"
  using exec_requests_wire [of "link_init ()" 4 "replicate 266 9" 256 "replicate 256 65" 1]
    exec_requests_wire [of "link_init ()" 4 "replicate 266 9" 1 "[65]" 1]
  by (simp add: link_init_def peek_def)

lemma gsexec_wire:
  "tx_plan s sock = [] \<Longrightarrow> length file = 256 \<Longrightarrow>
     pko_gsexec_req sock file n s = Ret (264, s\<lparr>tx_log := tx_log s @
       [(sock, be32 GSEXEC_CMD @ be16 264 @ be16 (ucast n) @ file)]\<rparr>)"
  by (simp add: pko_gsexec_req_def send_fd_whole enc_gsexec_req_def order_simps)

end
