(* ===== verification/Fileserver.thy ===== *)
theory Fileserver
  imports Linkcore
begin

text \<open>
  What the handlers of \<open>linkproto_core.c\<close> promise to the console: exact reads whatever the cut of
  the stream, one reply of the right shape for each request, data in order, and buffers that keep
  their size. The contracts the other components rely on are the locales \<open>exact_reader\<close> (a
  request is read off the stream piece by piece) and \<open>file_handler\<close> (what every handler keeps).
\<close>

section \<open>Exact reads\<close>

locale exact_reader =
  fixes read :: "int \<Rightarrow> 's \<Rightarrow> (int \<times> byte list \<times> 's) outcome"
    and avail :: "'s \<Rightarrow> byte list"
    and limit :: nat
  assumes read_exact: "0 \<le> n \<Longrightarrow> nat n \<le> limit \<Longrightarrow> nat n \<le> length (avail s) \<Longrightarrow>
      \<exists>s'. read n s = Ret (n, take (nat n) (avail s), s') \<and> avail s' = drop (nat n) (avail s)"
begin

lemma read_bytes:
  assumes "avail s = bs @ rest" and "length bs \<le> limit"
  obtains s' where "read (int (length bs)) s = Ret (int (length bs), bs, s')" and "avail s' = rest"
proof -
  have "\<exists>s'. read (int (length bs)) s = Ret (int (length bs), take (length bs) (avail s), s')
      \<and> avail s' = drop (length bs) (avail s)"
    using read_exact [of "int (length bs)" s] assms by simp
  with that assms(1) show thesis by auto
qed

text \<open>Two reads in a row take consecutive pieces: a header and the body behind it.\<close>

lemma read_two:
  assumes "avail s = hd' @ body @ rest" and "length hd' \<le> limit" and "length body \<le> limit"
  obtains s1 s2 where "read (int (length hd')) s = Ret (int (length hd'), hd', s1)"
    and "read (int (length body)) s1 = Ret (int (length body), body, s2)"
    and "avail s1 = body @ rest" and "avail s2 = rest"
proof -
  obtain s1 where s1: "read (int (length hd')) s = Ret (int (length hd'), hd', s1)"
    "avail s1 = body @ rest"
    using read_bytes [OF assms(1,2)] .
  obtain s2 where "read (int (length body)) s1 = Ret (int (length body), body, s2)" "avail s2 = rest"
    using read_bytes [OF s1(2) assms(3)] .
  with s1 that show thesis by blast
qed

end

lemma pko_recv_bytes_none [simp]:
  "n \<le> 0 \<Longrightarrow> pko_recv_bytes fd room n s = Ret (n, [], s)"
  by (simp add: pko_recv_bytes_def)

lemma pko_recv_bytes_exact:
  assumes "0 \<le> n" and "nat n \<le> room" and "nat n \<le> length (stream (rx s fd))"
  shows "\<exists>es. pko_recv_bytes fd room n s =
      Ret (n, take (nat n) (stream (rx s fd)), s\<lparr>rx := (rx s)(fd := es)\<rparr>)
    \<and> stream es = drop (nat n) (stream (rx s fd))"
  using recv_loop_enough [OF assms(2,3), of n] assms(1)
  by (metis (mono_tags, lifting) omap.simps(1) pko_recv_bytes_def recv_bytes_def split_conv)

interpretation reader: exact_reader "pko_recv_bytes fd room" "\<lambda>s. stream (rx s fd)" room for fd room
proof
  fix n :: int and s :: "('a, 'b) link_scheme"
  assume "0 \<le> n" "nat n \<le> room" "nat n \<le> length (stream (rx s fd))"
  then show "\<exists>s'. pko_recv_bytes fd room n s = Ret (n, take (nat n) (stream (rx s fd)), s')
      \<and> stream (rx s' fd) = drop (nat n) (stream (rx s fd))"
    using pko_recv_bytes_exact [of n room s fd] by fastforce
qed

text \<open>
  C7. \<open>pko_recv_bytes\<close> is independent of how the bytes were cut into segments and of the errors it
  retries on: what it returns and what it writes is \<open>recv_spec\<close> of the bytes that arrive and of the
  way the stream ends. It returns the count and exactly the first bytes of the stream when enough
  arrive, 0 with what came before a close, -1 with what came before a fatal error, waits when the
  stream dries up, and leaves the buffer only if more bytes arrive than the buffer has room for.
\<close>

theorem pko_recv_bytes_refines:
  "omap (\<lambda>(r, bs, s'). (r, bs)) (pko_recv_bytes fd room n s) =
     (if n \<le> 0 then Ret (n, [])
      else recv_spec n room (nat n) (stream (rx s fd)) (script_end (rx s fd)))"
proof (cases "n \<le> 0")
  case False
  have "omap (\<lambda>(r, bs, s'). (r, bs)) (pko_recv_bytes fd room n s) =
      omap (\<lambda>(r, bs, es). (r, bs)) (recv_loop n room (nat n) (rx s fd))"
    by (simp add: pko_recv_bytes_def recv_bytes_def omap_omap split_def)
  with False show ?thesis by (simp add: recv_loop_refines)
qed simp

text \<open>
  C18. \<open>pko_send_bytes\<close> only ever sends a prefix of the buffer, in order: it returns the number of
  bytes asked for and has sent exactly those, or it returns 0 or -1. On a connection that stays up
  it sends everything, whatever pieces the socket takes.
\<close>

theorem pko_send_bytes_in_order:
  assumes "pko_send_bytes fd buf n s = (r, s')"
  shows "\<exists>css. tx_log s' = tx_log s @ map (Pair fd) css \<and> prefix (concat css) (take (nat n) buf)
     \<and> (r = n \<and> concat css = take (nat n) buf \<or> r = 0 \<or> r = -1)
     \<and> (plan_ok (tx_plan s fd) \<longrightarrow> r = n \<and> concat css = take (nat n) buf)"
proof -
  obtain css p where loop: "send_loop n (tx_plan s fd) (take (nat n) buf) = (r, css, p)"
    and s': "tx_log s' = tx_log s @ map (Pair fd) css"
    using assms(1) by (auto simp: pko_send_bytes_def split: prod.splits)
  have "r = n \<and> concat css = take (nat n) buf" if "plan_ok (tx_plan s fd)"
    using send_loop_complete [OF that, of n "take (nat n) buf"] loop by auto
  with send_loop_prefix [OF loop] s' show ?thesis by auto
qed

theorem pko_send_bytes_in_order_witness:
  "pko_send_bytes 4 [1, 2, 3] 3 (link_init ()) = (3, (link_init ())\<lparr>tx_log := [(4, [1, 2, 3])]\<rparr>)
   \<and> (\<exists>css. [(4, [1, 2, 3])] = map (Pair (4::int)) css \<and> concat css = [1, 2, 3 :: byte])"
proof -
  have run: "pko_send_bytes 4 [1, 2, 3] 3 (link_init ()) =
      (3, (link_init ())\<lparr>tx_log := [(4, [1, 2, 3])]\<rparr>)"
    by (simp add: pko_send_bytes_def link_init_def send_loop.simps fun_upd_idem)
  from pko_send_bytes_in_order [OF run] obtain css where css:
    "tx_log ((link_init ())\<lparr>tx_log := [(4, [1, 2, 3])]\<rparr>) = tx_log (link_init ()) @ map (Pair 4) css"
    "plan_ok (tx_plan (link_init ()) 4) \<longrightarrow> concat css = take (nat 3) [1, 2, 3 :: byte]"
    by blast
  from css(1) have "[(4, [1, 2, 3])] = map (Pair (4::int)) css" by (simp add: link_init_def)
  moreover from css(2) have "concat css = [1, 2, 3]" by (simp add: link_init_def)
  ultimately show ?thesis using run by (intro conjI exI [of _ css])
qed

section \<open>Paths and flags\<close>

definition slash :: "char \<Rightarrow> char" where
  "slash c = (if c = CHR 0x5C then CHR ''/'' else c)"

text \<open>The path a request names, as the host will be asked for it.\<close>

definition fixed_path :: "string \<Rightarrow> string" where
  "fixed_path s = (if s = [] then ''.'' else map slash s)"

lemma of_char_byte_inject: "(of_char c :: byte) = of_char d \<longleftrightarrow> c = d"
  by (metis char_of_unat_of_char)

lemma fix_slashes_bytes_of:
  "no_nul s \<Longrightarrow> fix_slashes (bytes_of s @ 0 # bs) = Some (bytes_of (map slash s) @ 0 # bs)"
proof (induction s)
  case Nil
  then show ?case by (simp add: bytes_of_def)
next
  case (Cons c s)
  have "(if of_char c = (of_char CHR 0x5C :: byte) then of_char CHR ''/'' else of_char c) = (of_char (slash c) :: byte)"
    by (cases "c = CHR 0x5C") (simp_all only: of_char_byte_inject slash_def if_True if_False refl)
  with Cons show ?case by (simp add: bytes_of_def del: of_char_Char)
qed

lemma pko_fix_path_fixed:
  assumes "no_nul s" and "s \<noteq> [] \<or> bs \<noteq> []"
  shows "pko_fix_path (bytes_of s @ 0 # bs) =
      Some (bytes_of (fixed_path s) @ 0 # (if s = [] then tl bs else bs))"
proof (cases s)
  case Nil
  with assms(2) obtain b bs' where bs: "bs = b # bs'" by (cases bs) auto
  have "fix_slashes (bytes_of ''.'' @ 0 # bs') = Some (bytes_of ''.'' @ 0 # bs')"
    by (subst fix_slashes_bytes_of) (simp_all add: slash_def)
  then show ?thesis using Nil bs
    by (simp add: pko_fix_path_def bytes_of_def poke_def fixed_path_def slash_def)
next
  case (Cons c t)
  with assms(1) have "pko_fix_path (bytes_of s @ 0 # bs) = fix_slashes (bytes_of s @ 0 # bs)"
    by (simp add: pko_fix_path_def bytes_of_def)
  with Cons assms(1) show ?thesis by (simp add: fix_slashes_bytes_of fixed_path_def)
qed

text \<open>
  \<open>pko_fix_path\<close> on a terminated path: the empty path becomes ".", every other path has each
  backslash turned into a slash and nothing else changed; the result is terminated, holds no
  backslash, is left alone by a second pass, and what lies behind the string is not touched (but
  for the byte that the NUL of "." needs).
\<close>

theorem pko_fix_path_spec:
  assumes "no_nul s" and "s \<noteq> [] \<or> bs \<noteq> []"
  shows "pko_fix_path (bytes_of s @ 0 # bs) =
      Some (bytes_of (fixed_path s) @ 0 # (if s = [] then tl bs else bs))
    \<and> CHR 0x5C \<notin> set (fixed_path s) \<and> fixed_path (fixed_path s) = fixed_path s"
  using pko_fix_path_fixed [OF assms] by (auto simp: fixed_path_def slash_def)

theorem pko_fix_path_spec_witness:
  "fixed_path [CHR ''a'', CHR 0x5C, CHR ''b''] = ''a/b'' \<and>
   pko_fix_path (bytes_of [CHR ''a'', CHR 0x5C, CHR ''b''] @ 0 # [7]) = Some (bytes_of ''a/b'' @ 0 # [7])"
  using pko_fix_path_spec [of "[CHR ''a'', CHR 0x5C, CHR ''b'']" "[7]"]
  by (simp add: fixed_path_def slash_def)

lemma bit_power: "k < 32 \<Longrightarrow> bit (2 ^ k :: u32) n \<longleftrightarrow> n = k"
  by (auto simp: bit_exp_iff)

lemma bit_numerals:
  "bit (2::u32) n \<longleftrightarrow> n = 1" "bit (0x10::u32) n \<longleftrightarrow> n = 4" "bit (0x40::u32) n \<longleftrightarrow> n = 6"
  "bit (0x100::u32) n \<longleftrightarrow> n = 8" "bit (0x200::u32) n \<longleftrightarrow> n = 9" "bit (0x400::u32) n \<longleftrightarrow> n = 10"
  "bit (0x800::u32) n \<longleftrightarrow> n = 11"
  using bit_power [of 1 n] bit_power [of 4 n] bit_power [of 6 n] bit_power [of 8 n]
    bit_power [of 9 n] bit_power [of 10 n] bit_power [of 11 n]
  by simp_all

lemma bit_3: "bit (3::u32) n \<longleftrightarrow> n = 0 \<or> n = 1"
proof -
  have "(3::u32) = 1 OR 2" by simp
  then show ?thesis by (simp only: bit_or_iff bit_numerals bit_1_iff)
qed

lemma and_numeral_eq_0:
  "(f::u32) AND 2 = 0 \<longleftrightarrow> \<not> bit f 1" "f AND 0x10 = 0 \<longleftrightarrow> \<not> bit f 4" "f AND 0x100 = 0 \<longleftrightarrow> \<not> bit f 8"
  "f AND 0x200 = 0 \<longleftrightarrow> \<not> bit f 9" "f AND 0x400 = 0 \<longleftrightarrow> \<not> bit f 10"
  using and_exp_eq_0_iff_not_bit [of f 1] and_exp_eq_0_iff_not_bit [of f 4]
    and_exp_eq_0_iff_not_bit [of f 8] and_exp_eq_0_iff_not_bit [of f 9]
    and_exp_eq_0_iff_not_bit [of f 10]
  by simp_all

lemma bit_if: "bit (if c then (a::u32) else b) n \<longleftrightarrow> (if c then bit a n else bit b n)"
  by simp

text \<open>
  \<open>pko_fix_flags\<close>, bit by bit: append, create, truncate, non-blocking and write-only land on
  the host's bits for them, the console's own bits for these and for read-only are cleared, and
  every bit the function does not know passes through. No case sets the host's \<open>O_RDWR\<close> (bit 1).
\<close>

theorem pko_fix_flags_bits:
  "bit (pko_fix_flags f) n \<longleftrightarrow> n < 32 \<and>
     (if n = 0 then bit f 1
      else if n = 6 then bit f 9 \<or> bit f 6
      else if n = 9 then bit f 10
      else if n = 10 then bit f 8
      else if n = 11 then bit f 4 \<or> bit f 11
      else n \<noteq> 1 \<and> n \<noteq> 4 \<and> n \<noteq> 8 \<and> bit f n)"
proof (cases "n < 32")
  case True
  define g where
    "g = f AND NOT (PS2_O_RDWR OR PS2_O_NBLOCK OR PS2_O_APPEND OR PS2_O_CREAT OR PS2_O_TRUNC)"
  have "bit g n \<longleftrightarrow> bit f n \<and> n \<notin> {0, 1, 4, 8, 9, 10}"
    unfolding g_def bit_and_iff bit_not_iff bit_or_iff bit_numerals bit_3 using True by auto
  with True show ?thesis
    unfolding pko_fix_flags_def Let_def g_def [symmetric]
    by (simp only: and_numeral_eq_0 bit_or_iff bit_if bit_numerals bit_1_iff bit_0_eq) auto
next
  case False
  then show ?thesis using bit_imp_le_length [of "pko_fix_flags f" n] by auto
qed

text \<open>
  A file the console opens for reading and writing is opened for writing only: the flags of
  \<open>PS2_O_RDWR\<close>, alone or with the create, truncate and append flags, give the host's \<open>O_WRONLY\<close>
  access mode, because the line that would set \<open>O_RDWR\<close> is commented out.
\<close>

theorem pko_fix_flags_rdwr_is_wronly:
  "pko_fix_flags PS2_O_RDWR = O_WRONLY \<and>
   pko_fix_flags (PS2_O_RDWR OR PS2_O_CREAT OR PS2_O_TRUNC) = O_WRONLY OR O_CREAT OR O_TRUNC \<and>
   pko_fix_flags (PS2_O_RDWR OR PS2_O_APPEND) = O_WRONLY OR O_APPEND \<and>
   (\<forall>f. pko_fix_flags f AND O_RDWR = 0)"
proof -
  have "pko_fix_flags f AND O_RDWR = 0" for f
    by (simp add: and_numeral_eq_0 pko_fix_flags_bits)
  then show ?thesis by (simp add: pko_fix_flags_def)
qed

section \<open>An instance of the host\<close>

text \<open>
  A host for the concrete inputs below: one directory \<open>a\<close> holding a file \<open>f\<close>, no directories that
  can be opened, and one tape of bytes behind every descriptor.
\<close>

definition tape_os :: "byte list os" where
  "tape_os = \<lparr>os_open = \<lambda>fs p flags mode. (if p = ''a/f'' then 3 else -1, fs),
     os_close = \<lambda>fs fd. (0, fs),
     os_read = \<lambda>fs fd n. ((int (length (take (unat n) fs)), take (unat n) fs), drop (unat n) fs),
     os_write = \<lambda>fs fd bs. (int (length bs), fs @ bs),
     os_lseek = \<lambda>fs fd offset whence. (offset, fs),
     os_opendir = \<lambda>fs p. (0, fs),
     os_readdir = \<lambda>fs dir. ((if dir = 1 then 5 else 0, ''f''), fs),
     os_closedir = \<lambda>fs dir. (0, fs), os_isdir = \<lambda>fs dir. dir = 1,
     os_stat = \<lambda>fs p. (0, \<lparr>st_mode = 0x81A4, st_size = of_nat (length fs),
       st_ctime = None, st_atime = None, st_mtime = None\<rparr>),
     os_malloc = \<lambda>fs n. True\<rparr>"

lemmas tape_os_simps [simp] = tape_os_def [THEN arg_cong, of os_open, simplified]
  tape_os_def [THEN arg_cong, of os_close, simplified]
  tape_os_def [THEN arg_cong, of os_read, simplified]
  tape_os_def [THEN arg_cong, of os_write, simplified]
  tape_os_def [THEN arg_cong, of os_opendir, simplified]
  tape_os_def [THEN arg_cong, of os_readdir, simplified]
  tape_os_def [THEN arg_cong, of os_closedir, simplified]
  tape_os_def [THEN arg_cong, of os_isdir, simplified]
  tape_os_def [THEN arg_cong, of os_stat, simplified]
  tape_os_def [THEN arg_cong, of os_malloc, simplified]

text \<open>A console's request for the path \<open>p\<close>, in a fresh buffer.\<close>

definition path_request :: "u32 \<Rightarrow> u32 \<Rightarrow> string \<Rightarrow> byte list" where
  "path_request cmd flags p = store enc_file_req \<lparr>p_cmd = htonl cmd,
     p_len = htons (of_nat sizeof_pkt_file_req), fq_flags = htonl flags, fq_path = strncpy p 256\<rparr>
     (replicate PACKET_MAXSIZE 0)"

lemma length_path_request [simp]: "length (path_request cmd flags p) = PACKET_MAXSIZE"
  unfolding path_request_def by (subst file_req.length_store) (simp_all add: ok_file_req_def)

lemma view_path_request [simp]: "fq_flags (view_file_req (path_request cmd flags p)) = htonl flags"
  unfolding path_request_def by (subst file_req.view_store) (simp_all add: ok_file_req_def)

lemma c_str_path_request [simp]:
  "no_nul p \<Longrightarrow> length p < 256 \<Longrightarrow> c_str (drop path_offset (path_request cmd flags p)) = Some p"
  by (simp add: path_request_def store_def poke_def enc_file_req_def c_str_strncpy)

section \<open>What every handler keeps\<close>

text \<open>
  \<open>serves s s'\<close>: a handler may take bytes off the connection \<open>pko_srv_fd\<close> and send on it, and use
  the packet buffers and the host's files; it keeps the size of the buffers, every descriptor and
  setting, every other socket, and whatever else the program keeps beside this state.
\<close>

definition serves :: "('fs, 'z) link_scheme \<Rightarrow> ('fs, 'z) link_scheme \<Rightarrow> bool" where
  "serves s s' \<longleftrightarrow>
     (wf_link s \<longrightarrow> wf_link s')
     \<and> (pko_srv_fd s', pksh_srv_fd s', cmd_fd s', log_fd s', ps2_netfs_fd s')
         = (pko_srv_fd s, pksh_srv_fd s, cmd_fd s, log_fd s, ps2_netfs_fd s)
     \<and> DEBUG s' = DEBUG s \<and> path_list s' = path_list s \<and> closed s' = closed s
     \<and> (\<forall>fd. fd \<noteq> pko_srv_fd s \<longrightarrow> rx s' fd = rx s fd \<and> tx_plan s' fd = tx_plan s fd)
     \<and> (\<exists>ms. tx_log s' = tx_log s @ map (Pair (pko_srv_fd s)) ms)
     \<and> link.more s' = link.more s"

lemma serves_refl [simp, intro]: "serves s s"
  by (simp add: serves_def)

lemma serves_trans [trans]: "serves s s' \<Longrightarrow> serves s' s'' \<Longrightarrow> serves s s''"
  unfolding serves_def by (auto simp flip: map_append)

lemma serves_host [simp, intro]: "serves s (s\<lparr>host := fs\<rparr>)"
  by (auto simp: serves_def wf_link_def)

lemma serves_send_packet:
  "length buf = length (send_packet s) \<Longrightarrow> serves s (s\<lparr>send_packet := buf\<rparr>)"
  by (auto simp: serves_def wf_link_def)

lemma serves_recv_packet:
  "length buf = length (recv_packet s) \<Longrightarrow> serves s (s\<lparr>recv_packet := buf\<rparr>)"
  by (auto simp: serves_def wf_link_def)

lemma serves_send_fd: "serves s (snd (send_fd (pko_srv_fd s) bs s))"
  by (auto simp: serves_def wf_link_def send_fd_def split: prod.splits sum.splits
      intro: exI [of _ "[x]" for x])

lemma serves_send_bytes: "pko_send_bytes (pko_srv_fd s) buf n s = (r, s') \<Longrightarrow> serves s s'"
  by (auto simp: serves_def wf_link_def pko_send_bytes_def split: prod.splits)

lemma pko_recv_bytes_length:
  "pko_recv_bytes fd room n s = Ret (r, bs, s') \<Longrightarrow> length bs \<le> room"
  by (cases "n \<le> 0")
     (auto simp: pko_recv_bytes_def recv_bytes_def omap_Ret_iff dest: recv_loop_length)

lemma serves_recv:
  assumes "recv_into_packet (pko_srv_fd s) off n s = Ret (r, s')" and "off \<le> length (recv_packet s)"
  shows "serves s s'"
proof -
  obtain bs s1 where s1: "pko_recv_bytes (pko_srv_fd s) (length (recv_packet s) - off) n s = Ret (r, bs, s1)"
    and s': "s' = s1\<lparr>recv_packet := poke off bs (recv_packet s1)\<rparr>"
    using assms(1) by (auto simp: recv_into_packet_def omap_Ret_iff)
  obtain es where "s1 = s\<lparr>rx := (rx s)(pko_srv_fd s := es)\<rparr>"
    using s1 by (auto simp: pko_recv_bytes_def omap_Ret_iff)
  with s' assms(2) pko_recv_bytes_length [OF s1] show ?thesis
    by (auto simp: serves_def wf_link_def length_poke)
qed

lemma length_fix_slashes: "fix_slashes a = Some b \<Longrightarrow> length b = length a"
  by (induction a arbitrary: b rule: fix_slashes.induct) (auto split: if_splits)

lemma length_pko_fix_path: "pko_fix_path a = Some b \<Longrightarrow> length b = length a"
  by (auto simp: pko_fix_path_def poke_def bytes_of_def neq_Nil_conv dest!: length_fix_slashes
      split: list.splits if_splits)

lemma serves_fix_request_path:
  "fix_request_path s = Ret (name, s') \<Longrightarrow> path_offset \<le> length (recv_packet s) \<Longrightarrow> serves s s'"
  by (auto simp: fix_request_path_def obind_Ret_iff length_poke
      intro!: serves_recv_packet dest!: length_pko_fix_path)

lemma serves_store:
  "length (enc r) \<le> length (send_packet s) \<Longrightarrow>
     serves s (s\<lparr>send_packet := store enc r (send_packet s)\<rparr>)"
  by (rule serves_send_packet) (simp add: store_def length_poke)

lemma serves_send_reply: "serves s (send_reply n s)"
  unfolding send_reply_def by (rule serves_send_fd)

lemma serves_file_reply: "wf_link s \<Longrightarrow> serves s (file_reply cmd v s)"
  unfolding file_reply_def Let_def
  by (rule serves_trans [OF serves_store serves_send_reply]) (simp add: wf_link_def enc_file_rly_def)

lemma serves_wf: "serves s s' \<Longrightarrow> wf_link s \<Longrightarrow> wf_link s'"
  by (simp add: serves_def)

text \<open>The contract of a handler.\<close>

locale file_handler =
  fixes handler :: "('fs, 'z) link_scheme \<Rightarrow> (int \<times> ('fs, 'z) link_scheme) outcome"
  assumes handler_serves: "wf_link s \<Longrightarrow> handler s = Ret (r, s') \<Longrightarrow> serves s s'"
begin

lemma handler_wf: "wf_link s \<Longrightarrow> handler s = Ret (r, s') \<Longrightarrow> wf_link s'"
  using handler_serves serves_wf by blast

lemma serves_after:
  "serves s s1 \<Longrightarrow> wf_link s \<Longrightarrow> handler s1 = Ret (r, s') \<Longrightarrow> serves s s'"
  by (metis handler_serves serves_trans serves_wf)

end

lemma lseek_serves: "wf_link s \<Longrightarrow> pko_lseek_file os s = Ret (r, s') \<Longrightarrow> serves s s'"
  by (auto simp: pko_lseek_file_def Let_def wf_link_def split: prod.splits
      intro!: serves_trans [OF serves_host serves_file_reply])

lemma close_file_serves: "wf_link s \<Longrightarrow> pko_close_file os s = Ret (r, s') \<Longrightarrow> serves s s'"
  by (auto simp: pko_close_file_def Let_def wf_link_def split: prod.splits
      intro!: serves_trans [OF serves_host serves_file_reply])

lemma close_dir_serves: "wf_link s \<Longrightarrow> pko_close_dir os s = Ret (r, s') \<Longrightarrow> serves s s'"
  by (auto simp: pko_close_dir_def Let_def wf_link_def oguard_Ret_iff split: prod.splits
      intro!: serves_trans [OF serves_host serves_file_reply])

lemma open_file_serves:
  assumes "wf_link s" and "pko_open_file os s = Ret (r, s')"
  shows "serves s s'"
proof -
  obtain name s1 fs retval where s1: "fix_request_path s = Ret (name, s1)"
    and s': "s' = file_reply OPEN_RLY retval (s1\<lparr>host := fs\<rparr>)"
    using assms(2) by (auto simp: pko_open_file_def Let_def obind_Ret_iff case_prod_beta)
  have "serves s s1"
    using serves_fix_request_path [OF s1] assms(1) by (simp add: wf_link_def)
  then have "serves s (s1\<lparr>host := fs\<rparr>)" by (rule serves_trans) simp
  moreover have "wf_link (s1\<lparr>host := fs\<rparr>)"
    using calculation assms(1) by (rule serves_wf)
  ultimately show ?thesis unfolding s' by (rule serves_trans [OF _ serves_file_reply])
qed

lemma open_dir_serves:
  assumes "wf_link s" and "pko_open_dir os s = Ret (r, s')"
  shows "serves s s'"
proof -
  define s0 where "s0 = s\<lparr>send_packet := store enc_file_rly ((view_file_rly (send_packet s))\<lparr>
      p_cmd := htonl DOPEN_RLY, p_len := htons (of_nat sizeof_pkt_file_rly)\<rparr>) (send_packet s)\<rparr>"
  obtain name s1 where s1: "fix_request_path s0 = Ret (name, s1)"
    and rest: "(case os_opendir os (host s1) name of (dirp, fs) \<Rightarrow>
       if dirp = 0 then Ret (-1, s1\<lparr>host := fs\<rparr>)
       else Ret (0, file_reply DOPEN_RLY dirp (s1\<lparr>host := fs\<rparr>))) = Ret (r, s')"
    using assms(2) by (auto simp: pko_open_dir_def Let_def obind_Ret_iff s0_def)
  obtain dirp fs where op: "os_opendir os (host s1) name = (dirp, fs)" by fastforce
  have "serves s s0"
    using assms(1) unfolding s0_def by (intro serves_store) (simp add: wf_link_def enc_file_rly_def)
  moreover have "path_offset \<le> length (recv_packet s0)"
    using assms(1) by (simp add: wf_link_def s0_def)
  ultimately have upto: "serves s (s1\<lparr>host := fs\<rparr>)"
    using serves_fix_request_path [OF s1] by (blast intro: serves_trans)
  moreover have "wf_link (s1\<lparr>host := fs\<rparr>)"
    using upto assms(1) by (rule serves_wf)
  ultimately show ?thesis using rest op
    by (auto intro: serves_trans [OF _ serves_file_reply] split: if_splits)
qed

lemma length_put_time: "length old = 8 \<Longrightarrow> length (put_time t old) = 8"
  by (simp add: put_time_def length_poke split: option.splits)

lemma ok_dread_reply: "ok_dread_rly r \<Longrightarrow> ok_dread_rly (dread_reply dirp d_name st r)"
  by (simp add: ok_dread_rly_def dread_reply_def Let_def length_put_time)

lemma length_enc_dread_reply:
  "wf_link s \<Longrightarrow>
     length (enc_dread_rly (dread_reply dirp d_name st (view_dread_rly (send_packet s)))) = sizeof_pkt_dread_rly"
  by (simp add: dread_rly.length_enc ok_dread_reply dread_rly.ok_view wf_link_def)

lemma read_dir_serves:
  assumes "wf_link s" and "pko_read_dir os s = Ret (r, s')"
  shows "serves s s'"
proof -
  obtain dirp d_name fs where rd:
    "os_readdir os (host s) (ntohl (rq_fd (view_read_req (recv_packet s)))) = ((dirp, d_name), fs)"
    by (metis prod.collapse)
  define reply where
    "reply = dread_reply dirp d_name (snd (os_stat os fs d_name)) (view_dread_rly (send_packet s))"
  define s1 where "s1 = s\<lparr>host := fs, send_packet := store enc_dread_rly reply (send_packet s)\<rparr>"
  have "s' = send_reply sizeof_pkt_dread_rly s1"
    using assms(2) rd by (simp add: pko_read_dir_def Let_def s1_def reply_def oguard_Ret_iff)
  moreover have "serves s s1"
    using assms(1) length_enc_dread_reply [OF assms(1)]
    by (auto simp: serves_def wf_link_def s1_def reply_def store_def length_poke)
  ultimately show ?thesis by (auto intro: serves_trans serves_send_reply)
qed

lemma read_file_serves:
  assumes "wf_link s" and "pko_read_file os s = Ret (r, s')"
  shows "serves s s'"
proof -
  define pkt where "pkt = view_read_req (recv_packet s)"
  define s0 where "s0 = s\<lparr>send_packet := store enc_read_rly ((view_read_rly (send_packet s))\<lparr>
      p_cmd := htonl READ_RLY, p_len := htons (of_nat sizeof_pkt_read_rly),
      ry_retval := htonl (ntohl (rq_fd pkt))\<rparr>) (send_packet s)\<rparr>"
  have s0: "serves s s0"
    using assms(1) unfolding s0_def by (intro serves_store) (simp add: wf_link_def enc_read_rly_def)
  show ?thesis
  proof (cases "os_malloc os (host s) (ntohl (rq_nbytes pkt))")
    case False
    with assms(2) have "s' = s0" by (simp add: pko_read_file_def Let_def s0_def pkt_def)
    with s0 show ?thesis by simp
  next
    case True
    obtain readbytes filebuf fs where rd:
      "os_read os (host s) (to_cint (ntohl (rq_fd pkt))) (ntohl (rq_nbytes pkt)) = ((readbytes, filebuf), fs)"
      by (metis prod.collapse)
    define s1 where "s1 = s0\<lparr>host := fs\<rparr>"
    define s2 where "s2 = s1\<lparr>send_packet := store enc_read_rly ((view_read_rly (send_packet s1))\<lparr>
      ry_nbytes := htonl (of_cint readbytes)\<rparr>) (send_packet s1)\<rparr>"
    define s3 where "s3 = send_reply sizeof_pkt_read_rly s2"
    have s': "s' = snd (pko_send_bytes (pko_srv_fd s3) filebuf readbytes s3)"
      using assms(2) rd True
      by (simp add: pko_read_file_def Let_def s0_def s1_def s2_def s3_def pkt_def case_prod_beta)
    have "serves s s1" using s0 unfolding s1_def by (rule serves_trans) simp
    moreover have "wf_link s1" using calculation assms(1) by (rule serves_wf)
    then have "serves s1 s2"
      unfolding s2_def by (intro serves_store) (simp add: wf_link_def enc_read_rly_def)
    moreover have "serves s2 s3" unfolding s3_def by (rule serves_send_reply)
    moreover have "serves s3 s'" unfolding s' by (rule serves_send_bytes) (rule prod.collapse [symmetric])
    ultimately show ?thesis by (blast intro: serves_trans)
  qed
qed

lemma serves_srv_fd: "serves s s' \<Longrightarrow> pko_srv_fd s' = pko_srv_fd s"
  by (simp add: serves_def)

lemma write_loop_serves:
  "wf_link s \<Longrightarrow> write_loop os fd left s = Ret (r, s') \<Longrightarrow> serves s s'"
proof (induction os fd left s rule: write_loop.induct)
  case (1 os fd left s)
  let ?n = "if left > int PACKET_MAXSIZE then int PACKET_MAXSIZE else left"
  from "1.prems"(2) obtain recvlen s1 where
    rcv: "recv_into_packet (pko_srv_fd s) 0 ?n s = Ret (recvlen, s1)"
    by (subst (asm) write_loop.simps) (auto simp: Let_def obind_Ret_iff)
  have s1: "serves s s1" using serves_recv [OF rcv] by simp
  obtain written fs where wr:
    "os_write os (host s1) fd (take (nat recvlen) (recv_packet s1)) = (written, fs)"
    by fastforce
  have s2: "serves s (s1\<lparr>host := fs\<rparr>)" using s1 by (rule serves_trans) simp
  have IH: "serves (s1\<lparr>host := fs\<rparr>) s'"
    if "\<not> recvlen < 0" "recvlen \<noteq> 0" "\<not> written < 0" "\<not> written < recvlen" "0 < left - written"
      "write_loop os fd (left - written) (s1\<lparr>host := fs\<rparr>) = Ret (r, s')"
    using "1.IH" [OF refl rcv refl that(1,2) refl wr [symmetric] refl that(3) refl that(4,5) _ that(6)]
      serves_wf [OF s2 "1.prems"(1)] by blast
  from "1.prems"(2) rcv wr s1 s2 show ?case
    by (subst (asm) write_loop.simps)
       (auto simp: Let_def split: if_splits intro: serves_trans [OF s2 IH])
qed

lemma write_file_serves:
  assumes "wf_link s" and "pko_write_file os s = Ret (r, s')"
  shows "serves s s'"
proof -
  obtain fd left r' v s1 where s1: "write_loop os fd left s = Ret (r', s1)"
    and s': "s' = file_reply WRITE_RLY v s1"
    using assms(2) by (auto simp: pko_write_file_def Let_def obind_Ret_iff)
  have "serves s s1" using assms(1) s1 by (rule write_loop_serves)
  moreover have "wf_link s1" using calculation assms(1) by (rule serves_wf)
  ultimately show ?thesis unfolding s' by (blast intro: serves_trans serves_file_reply)
qed

interpretation open_file: file_handler "pko_open_file os" for os
  by unfold_locales (rule open_file_serves)
interpretation open_dir: file_handler "pko_open_dir os" for os
  by unfold_locales (rule open_dir_serves)
interpretation read_dir: file_handler "pko_read_dir os" for os
  by unfold_locales (rule read_dir_serves)
interpretation close_dir: file_handler "pko_close_dir os" for os
  by unfold_locales (rule close_dir_serves)
interpretation close_file: file_handler "pko_close_file os" for os
  by unfold_locales (rule close_file_serves)
interpretation read_file: file_handler "pko_read_file os" for os
  by unfold_locales (rule read_file_serves)
interpretation write_file: file_handler "pko_write_file os" for os
  by unfold_locales (rule write_file_serves)
interpretation lseek_file: file_handler "pko_lseek_file os" for os
  by unfold_locales (rule lseek_serves)

text \<open>
  C6. Every file handler keeps the program's state but for what it is there to use: it takes bytes
  off the connection and sends on it, and leaves the size of the buffers, the descriptors, the
  settings and every other socket as they were.
\<close>

theorem file_handlers_serve:
  assumes "wf_link s"
    and "h \<in> {pko_open_file os, pko_open_dir os, pko_read_dir os, pko_close_dir os,
              pko_close_file os, pko_read_file os, pko_write_file os, pko_lseek_file os}"
    and "h s = Ret (r, s')"
  shows "serves s s' \<and> wf_link s'"
proof -
  have "serves s s'"
    using assms(2,3)
    by (auto dest: open_file.handler_serves [OF assms(1)] open_dir.handler_serves [OF assms(1)]
        read_dir.handler_serves [OF assms(1)] close_dir.handler_serves [OF assms(1)]
        close_file.handler_serves [OF assms(1)] read_file.handler_serves [OF assms(1)]
        write_file.handler_serves [OF assms(1)] lseek_file.handler_serves [OF assms(1)])
  then show ?thesis using assms(1) by (blast intro: serves_wf)
qed

theorem file_handlers_serve_witness:
  "\<exists>s'. pko_close_file tape_os (link_init []) = Ret (0, s') \<and> serves (link_init []) s' \<and> wf_link s'"
proof -
  obtain s' where run: "pko_close_file tape_os (link_init []) = Ret (0, s')"
    by (simp add: pko_close_file_def)
  then show ?thesis
    using file_handlers_serve [of "link_init []" "pko_close_file tape_os" tape_os 0 s'] by simp
qed

section \<open>Replies\<close>

lemma send_fd_open:
  "tx_plan s fd = [] \<Longrightarrow> send_fd fd bs s = (int (length bs), s\<lparr>tx_log := tx_log s @ [(fd, bs)]\<rparr>)"
  by (simp add: send_fd_def fun_upd_idem)

lemma send_reply_open:
  "tx_plan s (pko_srv_fd s) = [] \<Longrightarrow>
     send_reply n s = s\<lparr>tx_log := tx_log s @ [(pko_srv_fd s, take n (send_packet s))]\<rparr>"
  by (simp add: send_reply_def send_fd_open)

text \<open>The bytes of a \<open>pkt_file_rly\<close> on the wire: three fields in network order.\<close>

definition file_rly_wire :: "u32 \<Rightarrow> u32 \<Rightarrow> byte list" where
  "file_rly_wire cmd v = be32 cmd @ be16 10 @ be32 v"

lemma file_reply_wire:
  assumes "wf_link s" and "tx_plan s (pko_srv_fd s) = []"
  shows "file_reply cmd v s = s\<lparr>send_packet := send_packet (file_reply cmd v s),
      tx_log := tx_log s @ [(pko_srv_fd s, file_rly_wire cmd v)]\<rparr>"
proof -
  let ?r = "\<lparr>p_cmd = htonl cmd, p_len = htons (of_nat sizeof_pkt_file_rly), fy_retval = htonl v\<rparr>"
  have "take 10 (store enc_file_rly ?r (send_packet s)) = enc_file_rly ?r"
    by (rule file_rly.take_store) (simp add: ok_file_rly_def)
  moreover have "enc_file_rly ?r = file_rly_wire cmd v"
    by (simp add: enc_file_rly_def file_rly_wire_def order_simps)
  ultimately show ?thesis
    using assms(2) by (simp add: file_reply_def Let_def send_reply_open)
qed

lemma file_reply_log:
  "wf_link s \<Longrightarrow> tx_plan s (pko_srv_fd s) = [] \<Longrightarrow>
     tx_log (file_reply cmd v s) = tx_log s @ [(pko_srv_fd s, file_rly_wire cmd v)]"
  by (subst file_reply_wire) simp_all

lemma file_reply_plan:
  "wf_link s \<Longrightarrow> tx_plan s (pko_srv_fd s) = [] \<Longrightarrow> tx_plan (file_reply cmd v s) = tx_plan s"
  by (subst file_reply_wire) simp_all

lemma file_reply_host [simp]: "host (file_reply cmd v s) = host s"
  by (simp add: file_reply_def Let_def send_reply_def send_fd_def split: prod.splits sum.splits)

lemma file_reply_rx [simp]: "rx (file_reply cmd v s) = rx s"
  by (simp add: file_reply_def Let_def send_reply_def send_fd_def split: prod.splits sum.splits)

section \<open>Opening\<close>

lemma fix_request_path_spec:
  assumes "wf_link s" and "c_str (drop path_offset (recv_packet s)) = Some name"
  obtains buf where "fix_request_path s = Ret (fixed_path name, s\<lparr>recv_packet := buf\<rparr>)"
    and "length buf = PACKET_MAXSIZE"
proof -
  obtain rest where split: "drop path_offset (recv_packet s) = bytes_of name @ 0 # rest"
    using c_str_split [OF assms(2)] .
  have "length (drop path_offset (recv_packet s)) = 4086"
    using assms(1) by (simp add: wf_link_def)
  with split have len: "length name + length rest = 4085" by simp
  then have "name \<noteq> [] \<or> rest \<noteq> []" by auto
  with c_str_no_nul [OF assms(2)] split obtain rest' where
    fixed: "pko_fix_path (drop path_offset (recv_packet s)) = Some (bytes_of (fixed_path name) @ 0 # rest')"
    using pko_fix_path_fixed by metis
  have "no_nul (fixed_path name)"
    using c_str_no_nul [OF assms(2)] by (auto simp: fixed_path_def no_nul_def slash_def)
  with fixed have "fix_request_path s = Ret (fixed_path name,
      s\<lparr>recv_packet := poke path_offset (bytes_of (fixed_path name) @ 0 # rest') (recv_packet s)\<rparr>)"
    by (simp add: fix_request_path_def c_str_bytes_of)
  moreover have "length (poke path_offset (bytes_of (fixed_path name) @ 0 # rest') (recv_packet s)) = PACKET_MAXSIZE"
    using length_pko_fix_path [OF fixed] assms(1) by (simp add: length_poke wf_link_def)
  ultimately show thesis by (rule that)
qed

lemma try_path_list_first:
  assumes "\<And>p fs'. os_open os fs p flags open_mode = (-1, fs') \<Longrightarrow> fs' = fs"
    and "\<forall>d \<in> set ds. length d + Suc (length name) < MAXPATHLEN"
  shows "try_path_list os name flags ds (-1) fs =
    Ret (case find (\<lambda>p. fst (os_open os fs p flags open_mode) \<noteq> -1) (map (\<lambda>d. d @ ''/'' @ name) ds) of
           None \<Rightarrow> (-1, fs) | Some p \<Rightarrow> os_open os fs p flags open_mode)"
  using assms(2)
proof (induction ds)
  case (Cons d ds)
  obtain rv fs' where op: "os_open os fs (d @ ''/'' @ name) flags open_mode = (rv, fs')"
    by fastforce
  with Cons assms(1) [of "d @ ''/'' @ name" fs'] show ?case
    by (auto simp: Let_def)
qed simp

text \<open>
  \<open>pko_open_file\<close> opens the requested path as it stands, and if that fails the same name under
  each directory of the search path in order, and answers with the descriptor of the first that
  opens, or with -1 when none does; one reply is sent. Hypotheses: the packet holds a terminated
  path, the search path's names fit the \<open>path\<close> array, a failing \<open>open\<close> leaves the files as they
  were, and the connection takes the reply.
\<close>

theorem pko_open_file_search:
  assumes wf: "wf_link s" and plan: "tx_plan s (pko_srv_fd s) = []"
    and path: "c_str (drop path_offset (recv_packet s)) = Some req"
    and fits: "\<forall>d \<in> set (path_list s). length d + Suc (length (fixed_path req)) < MAXPATHLEN"
    and fails: "\<And>p m fs fs'. os_open os fs p m open_mode = (-1, fs') \<Longrightarrow> fs' = fs"
  defines "name \<equiv> fixed_path req"
    and "flags \<equiv> pko_fix_flags (ntohl (fq_flags (view_file_req (recv_packet s))))"
  shows "\<exists>s' retval. pko_open_file os s = Ret (0, s') \<and>
     (retval, host s') = (case find (\<lambda>p. fst (os_open os (host s) p flags open_mode) \<noteq> -1)
         (name # map (\<lambda>d. d @ ''/'' @ name) (path_list s)) of
        None \<Rightarrow> (-1, host s) | Some p \<Rightarrow> os_open os (host s) p flags open_mode) \<and>
     tx_log s' = tx_log s @ [(pko_srv_fd s, file_rly_wire OPEN_RLY (of_cint retval))] \<and>
     rx s' = rx s \<and> tx_plan s' = tx_plan s"
proof -
  obtain buf where fix_: "fix_request_path s = Ret (name, s\<lparr>recv_packet := buf\<rparr>)"
    and buf: "length buf = PACKET_MAXSIZE"
    using fix_request_path_spec [OF wf path] unfolding name_def .
  define result where "result = (case find (\<lambda>p. fst (os_open os (host s) p flags open_mode) \<noteq> -1)
      (name # map (\<lambda>d. d @ ''/'' @ name) (path_list s)) of
      None \<Rightarrow> (-1, host s) | Some p \<Rightarrow> os_open os (host s) p flags open_mode)"
  have searched: "try_path_list os name flags (path_list s) (-1) (host s) =
      Ret (case find (\<lambda>p. fst (os_open os (host s) p flags open_mode) \<noteq> -1)
         (map (\<lambda>d. d @ ''/'' @ name) (path_list s)) of
        None \<Rightarrow> (-1, host s) | Some p \<Rightarrow> os_open os (host s) p flags open_mode)"
    using fits fails by (intro try_path_list_first) (auto simp: name_def)
  obtain rv fs where op: "os_open os (host s) name flags open_mode = (rv, fs)" by fastforce
  have search: "(if rv = -1 then try_path_list os name flags (path_list s) rv fs else Ret (rv, fs)) = Ret result"
    using searched op fails by (auto simp: result_def)
  define s' where "s' = file_reply OPEN_RLY (of_cint (fst result))
      (s\<lparr>recv_packet := buf, host := snd result\<rparr>)"
  have "pko_open_file os s = Ret (0, s')"
    using fix_ op search
    by (cases "rv = -1"; cases result)
       (simp_all add: pko_open_file_def Let_def flags_def [symmetric] pko_get_path_def s'_def)
  moreover have "tx_log s' = tx_log s @ [(pko_srv_fd s, file_rly_wire OPEN_RLY (of_cint (fst result)))]"
    using wf plan buf unfolding s'_def by (subst file_reply_log) (simp_all add: wf_link_def)
  moreover have "rx s' = rx s" "tx_plan s' = tx_plan s"
    using wf plan buf by (simp_all add: s'_def file_reply_plan wf_link_def)
  moreover have "(fst result, host s') = result" by (simp add: s'_def)
  ultimately show ?thesis unfolding result_def by blast
qed

theorem pko_open_file_search_witness:
  "\<exists>s'. pko_open_file tape_os ((link_init [])\<lparr>recv_packet := path_request OPEN_CMD 1 ''f'',
       path_list := [''x'', ''a'']\<rparr>) = Ret (0, s') \<and>
     tx_log s' = [(0, file_rly_wire OPEN_RLY 3)]"
  using pko_open_file_search [of "(link_init [])\<lparr>recv_packet := path_request OPEN_CMD 1 ''f'',
      path_list := [''x'', ''a'']\<rparr>" "''f''" tape_os]
  by (force simp: wf_link_def link_init_def fixed_path_def slash_def of_cint_def split: if_splits)

text \<open>
  When \<open>opendir\<close> fails, \<open>pko_open_dir\<close> returns -1 and sends nothing: the console, which waits
  for a \<open>DOPEN_RLY\<close>, gets no answer to its request.
\<close>

theorem pko_open_dir_failure_is_silent:
  assumes "wf_link s" and "c_str (drop path_offset (recv_packet s)) = Some req"
    and "\<And>fs. fst (os_opendir os fs (fixed_path req)) = 0"
  shows "\<exists>s'. pko_open_dir os s = Ret (-1, s') \<and> tx_log s' = tx_log s"
proof -
  let ?s0 = "s\<lparr>send_packet := store enc_file_rly ((view_file_rly (send_packet s))\<lparr>
      p_cmd := htonl DOPEN_RLY, p_len := htons (of_nat sizeof_pkt_file_rly)\<rparr>) (send_packet s)\<rparr>"
  have "wf_link ?s0"
    using assms(1) by (simp add: wf_link_def store_def length_poke enc_file_rly_def)
  then obtain buf where "fix_request_path ?s0 = Ret (fixed_path req, ?s0\<lparr>recv_packet := buf\<rparr>)"
    using fix_request_path_spec [of ?s0 req] assms(2) by auto
  then show ?thesis
    using assms(3) [of "host s"] by (simp add: pko_open_dir_def Let_def case_prod_beta)
qed

theorem pko_open_dir_failure_is_silent_witness:
  "\<exists>s'. pko_open_dir tape_os ((link_init [])\<lparr>recv_packet := path_request DOPEN_CMD 0 ''d''\<rparr>) = Ret (-1, s')
     \<and> tx_log s' = []"
  using pko_open_dir_failure_is_silent [of "(link_init [])\<lparr>recv_packet := path_request DOPEN_CMD 0 ''d''\<rparr>"
      "''d''" tape_os]
  by (simp add: wf_link_def link_init_def)

section \<open>Writing\<close>

text \<open>
  A file the console writes: each chunk goes from the stream into \<open>recv_packet\<close> and from there
  into the file. \<open>wrote fs bs fs'\<close> stands for what a write of \<open>bs\<close> does to the files; the hypotheses
  are that a \<open>write\<close> of at most one buffer is complete, and that two writes in a row are one.
\<close>

lemma recv_into_packet_exact:
  assumes "wf_link s" and "0 < n" and "n \<le> int PACKET_MAXSIZE" and "nat n \<le> length (stream (rx s fd))"
  obtains es where "recv_into_packet fd 0 n s = Ret (n, s\<lparr>rx := (rx s)(fd := es),
      recv_packet := poke 0 (take (nat n) (stream (rx s fd))) (recv_packet s)\<rparr>)"
    and "stream es = drop (nat n) (stream (rx s fd))"
proof -
  obtain es where es: "pko_recv_bytes fd (length (recv_packet s)) n s =
      Ret (n, take (nat n) (stream (rx s fd)), s\<lparr>rx := (rx s)(fd := es)\<rparr>)"
    "stream es = drop (nat n) (stream (rx s fd))"
    using pko_recv_bytes_exact [of n "length (recv_packet s)" s fd] assms
    by (auto simp: wf_link_def nat_le_iff)
  then have "recv_into_packet fd 0 n s = Ret (n, s\<lparr>rx := (rx s)(fd := es),
      recv_packet := poke 0 (take (nat n) (stream (rx s fd))) (recv_packet s)\<rparr>)"
    by (simp add: recv_into_packet_def)
  with es(2) that show thesis by blast
qed

lemma write_loop_transfers:
  assumes os: "\<And>fs bs. bs \<noteq> [] \<Longrightarrow> length bs \<le> PACKET_MAXSIZE \<Longrightarrow>
      fst (os_write os fs fd bs) = int (length bs) \<and> wrote fs bs (snd (os_write os fs fd bs))"
    and more: "\<And>fs bs fs1 cs fs2. wrote fs bs fs1 \<Longrightarrow> wrote fs1 cs fs2 \<Longrightarrow> wrote fs (bs @ cs) fs2"
  shows "wf_link s \<Longrightarrow> 0 < left \<Longrightarrow> nat left \<le> length (stream (rx s (pko_srv_fd s))) \<Longrightarrow>
    \<exists>s'. write_loop os fd left s = Ret (0, s') \<and>
      wrote (host s) (take (nat left) (stream (rx s (pko_srv_fd s)))) (host s') \<and>
      stream (rx s' (pko_srv_fd s)) = drop (nat left) (stream (rx s (pko_srv_fd s))) \<and>
      tx_log s' = tx_log s \<and> tx_plan s' = tx_plan s \<and> serves s s'"
proof (induction "nat left" arbitrary: left s rule: less_induct)
  case less
  define n where "n = (if left > int PACKET_MAXSIZE then int PACKET_MAXSIZE else left)"
  let ?st = "stream (rx s (pko_srv_fd s))"
  have n: "0 < n" "n \<le> int PACKET_MAXSIZE" "n \<le> left" "nat n \<le> length ?st"
    using less.prems by (auto simp: n_def)
  obtain es where rcv: "recv_into_packet (pko_srv_fd s) 0 n s = Ret (n, s\<lparr>rx := (rx s)(pko_srv_fd s := es),
      recv_packet := poke 0 (take (nat n) ?st) (recv_packet s)\<rparr>)"
    and es: "stream es = drop (nat n) ?st"
    using recv_into_packet_exact [OF less.prems(1) n(1,2,4)] .
  define s1 where "s1 = s\<lparr>rx := (rx s)(pko_srv_fd s := es),
      recv_packet := poke 0 (take (nat n) ?st) (recv_packet s)\<rparr>"
  have data: "take (nat n) (recv_packet s1) = take (nat n) ?st"
    using n(4) by (simp add: s1_def poke_def)
  have chunk: "take (nat n) ?st \<noteq> []" "length (take (nat n) ?st) \<le> PACKET_MAXSIZE"
    "int (length (take (nat n) ?st)) = n"
    using n by auto
  obtain fs where wr: "os_write os (host s1) fd (take (nat n) ?st) = (n, fs)"
    and fs: "wrote (host s) (take (nat n) ?st) fs"
    using os [of "take (nat n) ?st" "host s1"] chunk
    by (cases "os_write os (host s1) fd (take (nat n) ?st)") (auto simp: s1_def)
  define s2 where "s2 = s1\<lparr>host := fs\<rparr>"
  have s2: "serves s s2"
    using serves_recv [OF rcv] unfolding s2_def s1_def by (auto intro: serves_trans)
  have step: "write_loop os fd left s = (if left - n > 0 then write_loop os fd (left - n) s2 else Ret (left - n, s2))"
    unfolding write_loop.simps [of os fd left s] Let_def n_def [symmetric]
    using rcv data wr n(1) by (simp add: s1_def s2_def)
  have here: "host s2 = fs" "stream (rx s2 (pko_srv_fd s)) = drop (nat n) ?st"
    "tx_log s2 = tx_log s" "tx_plan s2 = tx_plan s" "pko_srv_fd s2 = pko_srv_fd s"
    using es by (simp_all add: s2_def s1_def)
  show ?case
  proof (cases "left - n > 0")
    case False
    with n(3) have "left = n" by simp
    with step here fs s2 show ?thesis by auto
  next
    case True
    have "nat (left - n) < nat left" using n(1) less.prems(2) by simp
    moreover have "nat (left - n) \<le> length (stream (rx s2 (pko_srv_fd s2)))"
      using less.prems(3) n by (simp add: here)
    ultimately obtain s' where s': "write_loop os fd (left - n) s2 = Ret (0, s')"
      "wrote fs (take (nat (left - n)) (drop (nat n) ?st)) (host s')"
      "stream (rx s' (pko_srv_fd s)) = drop (nat (left - n)) (drop (nat n) ?st)"
      "tx_log s' = tx_log s" "tx_plan s' = tx_plan s" "serves s2 s'"
      using less.hyps [of "left - n" s2] True serves_wf [OF s2 less.prems(1)] by (auto simp: here)
    have "nat left = nat n + nat (left - n)" using n(1) True by simp
    then have "take (nat left) ?st = take (nat n) ?st @ take (nat (left - n)) (drop (nat n) ?st)"
      "drop (nat left) ?st = drop (nat (left - n)) (drop (nat n) ?st)"
      by (simp_all add: take_add add.commute)
    with s' step True more [OF fs s'(2)] s2 show ?thesis by (auto intro: serves_trans)
  qed
qed

lemma recv_into_packet_cases:
  assumes "recv_into_packet fd 0 n s = Ret (r, s1)" and "wf_link s" and "0 < n" and "n \<le> int PACKET_MAXSIZE"
  obtains (all) es where "r = n" "nat n \<le> length (stream (rx s fd))"
      "s1 = s\<lparr>rx := (rx s)(fd := es), recv_packet := poke 0 (take (nat n) (stream (rx s fd))) (recv_packet s)\<rparr>"
      "stream es = drop (nat n) (stream (rx s fd))"
    | (stopped) es buf where "r \<le> 0" "s1 = s\<lparr>rx := (rx s)(fd := es), recv_packet := buf\<rparr>"
proof (cases "nat n \<le> length (stream (rx s fd))")
  case True
  from recv_into_packet_exact [OF assms(2,3,4) True] assms(1) show thesis
    by (metis True all outcome.inject(1) prod.inject)
next
  case False
  obtain bs s2 where s2: "pko_recv_bytes fd (length (recv_packet s)) n s = Ret (r, bs, s2)"
    and s1: "s1 = s2\<lparr>recv_packet := poke 0 bs (recv_packet s2)\<rparr>"
    using assms(1) by (auto simp: recv_into_packet_def omap_Ret_iff)
  then obtain es where "recv_loop n (length (recv_packet s)) (nat n) (rx s fd) = Ret (r, bs, es)"
    and es: "s2 = s\<lparr>rx := (rx s)(fd := es)\<rparr>"
    by (auto simp: pko_recv_bytes_def recv_bytes_def omap_Ret_iff)
  with recv_loop_refines [of n "length (recv_packet s)" "nat n" "rx s fd"]
  have "recv_spec n (length (recv_packet s)) (nat n) (stream (rx s fd)) (script_end (rx s fd)) = Ret (r, bs)"
    by simp
  with False have "r \<le> 0"
    by (auto simp: recv_spec_def split: if_splits ending.splits)
  with s1 es stopped show thesis by simp
qed

lemma write_loop_honest:
  assumes os: "\<And>fs bs w fs'. os_write os fs fd bs = (w, fs') \<Longrightarrow>
      w \<le> int (length bs) \<and> content fs' = content fs @ take (nat w) bs"
  shows "write_loop os fd left s = Ret (r, s') \<Longrightarrow> wf_link s \<Longrightarrow> 0 < left \<Longrightarrow>
     0 \<le> r \<and> r \<le> left \<and> nat (left - r) \<le> length (stream (rx s (pko_srv_fd s))) \<and>
     content (host s') = content (host s) @ take (nat (left - r)) (stream (rx s (pko_srv_fd s))) \<and>
     tx_log s' = tx_log s \<and> tx_plan s' = tx_plan s"
proof (induction "nat left" arbitrary: left s rule: less_induct)
  case less
  define n where "n = (if left > int PACKET_MAXSIZE then int PACKET_MAXSIZE else left)"
  let ?st = "stream (rx s (pko_srv_fd s))"
  have n: "0 < n" "n \<le> int PACKET_MAXSIZE" "n \<le> left"
    using less.prems by (auto simp: n_def)
  note body = less.prems(1) [unfolded write_loop.simps [of os fd left s] Let_def n_def [symmetric]]
  obtain got s1 where rcv: "recv_into_packet (pko_srv_fd s) 0 n s = Ret (got, s1)"
    using body by (auto simp: obind_Ret_iff)
  from rcv less.prems(2) n(1,2) show ?case
  proof (cases rule: recv_into_packet_cases)
    case (stopped es buf)
    with body rcv less.prems(3) show ?thesis by (auto split: if_splits)
  next
    case (all es)
    define buf where "buf = poke 0 (take (nat n) ?st) (recv_packet s)"
    have data: "take (nat n) buf = take (nat n) ?st"
      using all(2) by (simp add: buf_def poke_def)
    obtain w fs where wr: "os_write os (host s) fd (take (nat n) ?st) = (w, fs)" by fastforce
    have w: "w \<le> n" "content fs = content (host s) @ take (nat w) ?st"
      using os [OF wr] all(2) n(1) by (auto simp: min_absorb1 nat_mono)
    define s2 where "s2 = s\<lparr>rx := (rx s)(pko_srv_fd s := es), recv_packet := buf, host := fs\<rparr>"
    have after: "(if w < 0 then Ret (left, s2) else if w < n then Ret (left - w, s2)
        else if left - w > 0 then write_loop os fd (left - w) s2 else Ret (left - w, s2)) = Ret (r, s')"
      using body rcv all data wr n(1) by (auto simp: s2_def buf_def Let_def split: if_splits)
    consider "w < 0" | "0 \<le> w" "w < n \<or> left \<le> w" | "w = n" "n < left" using w(1) by linarith
    then show ?thesis
    proof cases
      case 3
      have "wf_link s2" using less.prems(2) all(2) n(1,2)
        by (auto simp: wf_link_def s2_def buf_def length_poke nat_le_iff)
      moreover have "nat (left - n) < nat left" using n(1) less.prems(3) by simp
      ultimately have IH: "0 \<le> r \<and> r \<le> left - n \<and> nat (left - n - r) \<le> length (drop (nat n) ?st) \<and>
          content (host s') = content fs @ take (nat (left - n - r)) (drop (nat n) ?st) \<and>
          tx_log s' = tx_log s \<and> tx_plan s' = tx_plan s"
        using less.hyps [of "left - n" s2] after 3 n(1) all(4) by (simp add: s2_def)
      moreover have "nat (left - r) = nat n + nat (left - n - r)" "r \<le> left" using IH n(1) by linarith+
      ultimately show ?thesis using 3 w(2) all(2)
        by (auto simp: take_add)
    qed (use after w less.prems(3) all(2) n in \<open>auto simp: s2_def split: if_splits\<close>)
  qed
qed

text \<open>
  C5. What \<open>pko_write_file\<close> reports is what it wrote: on every path through the loop (all of the
  data, a short \<open>write\<close>, a failing \<open>write\<close>, a close or an error of the connection) the value of
  the \<open>WRITE_RLY\<close> is the number of bytes the file grew by; those bytes are the first ones the
  console sent, and no more than it announced. Hypotheses: a positive size, an open connection, and
  a \<open>write\<close> that appends as many of its bytes as it returns, none when it returns a negative number.
\<close>

theorem pko_write_file_honest:
  assumes run: "pko_write_file os s = Ret (x, s')"
    and wf: "wf_link s" and plan: "tx_plan s (pko_srv_fd s) = []"
    and size: "0 < to_cint (ntohl (wq_nbytes (view_write_req (recv_packet s))))"
    and os: "\<And>fd fs bs w fs'. os_write os fs fd bs = (w, fs') \<Longrightarrow>
      w \<le> int (length bs) \<and> content fs' = content fs @ take (nat w) bs"
  shows "\<exists>k. int k \<le> to_cint (ntohl (wq_nbytes (view_write_req (recv_packet s)))) \<and>
     k \<le> length (stream (rx s (pko_srv_fd s))) \<and>
     content (host s') = content (host s) @ take k (stream (rx s (pko_srv_fd s))) \<and>
     tx_log s' = tx_log s @ [(pko_srv_fd s, file_rly_wire WRITE_RLY (of_cint (int k)))]"
proof -
  define fd where "fd = to_cint (ntohl (wq_fd (view_write_req (recv_packet s))))"
  define left where "left = to_cint (ntohl (wq_nbytes (view_write_req (recv_packet s))))"
  obtain r s1 where loop: "write_loop os fd left s = Ret (r, s1)"
    and s': "s' = file_reply WRITE_RLY (of_cint (left - r)) s1"
    using run by (auto simp: pko_write_file_def Let_def obind_Ret_iff fd_def left_def)
  have keeps: "serves s s1" using wf loop by (rule write_loop_serves)
  have "0 < left" using size by (simp add: left_def)
  note honest = write_loop_honest [where content = content, OF os loop wf this]
  have grown: "0 \<le> r" "r \<le> left" "nat (left - r) \<le> length (stream (rx s (pko_srv_fd s)))"
    "content (host s1) = content (host s) @ take (nat (left - r)) (stream (rx s (pko_srv_fd s)))"
    "tx_log s1 = tx_log s" "tx_plan s1 = tx_plan s"
    using honest by simp_all
  have "tx_log s' = tx_log s @ [(pko_srv_fd s, file_rly_wire WRITE_RLY (of_cint (left - r)))]"
    using serves_wf [OF keeps wf] serves_srv_fd [OF keeps] plan grown(5,6)
    unfolding s' by (subst file_reply_log) simp_all
  with grown show ?thesis
    by (intro exI [of _ "nat (left - r)"]) (simp add: s' left_def)
qed

text \<open>A console's request to write \<open>n\<close> bytes to descriptor 3, and the bytes in two segments.\<close>

definition write_example :: "byte list link" where
  "write_example = (link_init [])\<lparr>recv_packet := store enc_write_req
     \<lparr>p_cmd = htonl WRITE_CMD, p_len = htons (of_nat sizeof_pkt_write_req), wq_fd = htonl 3,
      wq_nbytes = htonl 3\<rparr> (replicate PACKET_MAXSIZE 0),
     rx := \<lambda>_. [Arrive [7], RxError EINTR, Arrive [8, 9, 10]]\<rparr>"

lemma write_example_simps [simp]:
  "wf_link write_example" "tx_plan write_example = (\<lambda>_. [])" "pko_srv_fd write_example = 0"
  "to_cint (ntohl (wq_nbytes (view_write_req (recv_packet write_example)))) = 3"
  "to_cint (ntohl (wq_fd (view_write_req (recv_packet write_example)))) = 3"
  "stream (rx write_example fd) = [7, 8, 9, 10]" "host write_example = []" "tx_log write_example = []"
  by (simp_all add: write_example_def link_init_def wf_link_def write_req.view_store write_req.length_store
      ok_write_req_def to_cint_def fatal_def)

lemma write_example_runs: "\<exists>s'. pko_write_file tape_os write_example = Ret (0, s')"
  using write_loop_transfers [of tape_os 3 "\<lambda>fs bs fs'. fs' = fs @ bs" write_example 3]
  by (fastforce simp: pko_write_file_def)

theorem pko_write_file_honest_witness:
  "\<exists>s' k. pko_write_file tape_os write_example = Ret (0, s') \<and> int k \<le> 3 \<and>
     host s' = take k [7, 8, 9, 10] \<and> tx_log s' = [(0, file_rly_wire WRITE_RLY (of_cint (int k)))]"
proof -
  obtain s' where run: "pko_write_file tape_os write_example = Ret (0, s')"
    using write_example_runs by blast
  from pko_write_file_honest [OF run, of "\<lambda>fs. fs"] run show ?thesis by auto
qed

text \<open>
  C8. When the console's data arrive and the host writes every chunk in full, \<open>pko_write_file\<close>
  returns: it takes exactly the announced number of bytes off the connection, in pieces of at most
  one buffer, appends them to the file in order, leaves the next request at the head of the stream,
  and answers with the whole size.
\<close>

theorem pko_write_file_complete:
  assumes wf: "wf_link s" and plan: "tx_plan s (pko_srv_fd s) = []"
    and "n = to_cint (ntohl (wq_nbytes (view_write_req (recv_packet s))))" and "0 < n"
    and "nat n \<le> length (stream (rx s (pko_srv_fd s)))"
    and os: "\<And>fd fs bs. bs \<noteq> [] \<Longrightarrow> length bs \<le> PACKET_MAXSIZE \<Longrightarrow>
      fst (os_write os fs fd bs) = int (length bs) \<and>
      content (snd (os_write os fs fd bs)) = content fs @ bs"
  shows "\<exists>s'. pko_write_file os s = Ret (0, s') \<and>
     content (host s') = content (host s) @ take (nat n) (stream (rx s (pko_srv_fd s))) \<and>
     stream (rx s' (pko_srv_fd s)) = drop (nat n) (stream (rx s (pko_srv_fd s))) \<and>
     tx_log s' = tx_log s @ [(pko_srv_fd s, file_rly_wire WRITE_RLY (of_cint n))]"
proof -
  define fd where "fd = to_cint (ntohl (wq_fd (view_write_req (recv_packet s))))"
  from write_loop_transfers [where wrote = "\<lambda>fs bs fs'. content fs' = content fs @ bs" and fd = fd, OF os _ wf assms(4,5)]
  obtain s1 where s1: "write_loop os fd n s = Ret (0, s1)"
    "content (host s1) = content (host s) @ take (nat n) (stream (rx s (pko_srv_fd s)))"
    "stream (rx s1 (pko_srv_fd s)) = drop (nat n) (stream (rx s (pko_srv_fd s)))"
    "tx_log s1 = tx_log s" "tx_plan s1 = tx_plan s" "serves s s1"
    by auto
  let ?s' = "file_reply WRITE_RLY (of_cint n) s1"
  have "pko_write_file os s = Ret (0, ?s')"
    using s1(1) assms(3) by (simp add: pko_write_file_def Let_def fd_def)
  moreover have "tx_log ?s' = tx_log s @ [(pko_srv_fd s, file_rly_wire WRITE_RLY (of_cint n))]"
    using s1 wf plan serves_srv_fd [OF s1(6)] serves_wf [OF s1(6)] by (subst file_reply_log) simp_all
  ultimately show ?thesis using s1(2,3) by simp
qed

theorem pko_write_file_complete_witness:
  "\<exists>s'. pko_write_file tape_os write_example = Ret (0, s') \<and> host s' = [7, 8, 9] \<and>
     stream (rx s' 0) = [10] \<and> tx_log s' = [(0, file_rly_wire WRITE_RLY 3)]"
  using pko_write_file_complete [of write_example 3 tape_os "\<lambda>fs. fs"]
  by (simp add: of_cint_def eval_nat_numeral)

section \<open>Reading\<close>

lemma sent_on_append [simp]:
  "sent_on fd (s\<lparr>tx_log := tx_log s @ ms\<rparr>) = sent_on fd s @ concat (map snd (filter (\<lambda>(f, _). f = fd) ms))"
  by (simp add: sent_on_def)

lemma sent_on_log: "tx_log s' = tx_log s @ ms \<Longrightarrow>
   sent_on fd s' = sent_on fd s @ concat (map snd (filter (\<lambda>(f, _). f = fd) ms))"
  by (simp add: sent_on_def)

lemma filter_Pair_same [simp]: "filter (\<lambda>(f, _). f = fd) (map (Pair fd) ms) = map (Pair fd) ms"
  by (induction ms) auto

lemma map_snd_Pair [simp]: "map snd (map (Pair fd) ms) = ms"
  by (simp add: o_def)

lemma pko_send_bytes_sent:
  assumes "plan_ok (tx_plan s fd)"
  shows "sent_on fd (snd (pko_send_bytes fd buf n s)) = sent_on fd s @ take (nat n) buf"
proof -
  obtain css p where "send_loop n (tx_plan s fd) (take (nat n) buf) = (n, css, p)"
    and all: "concat css = take (nat n) buf"
    using send_loop_complete [OF assms] by blast
  then have "tx_log (snd (pko_send_bytes fd buf n s)) = tx_log s @ map (Pair fd) css"
    by (simp add: pko_send_bytes_def)
  from sent_on_log [OF this, of fd] all show ?thesis by (simp del: map_map)
qed

lemma pko_send_bytes_plan: "tx_plan s fd = [] \<Longrightarrow> tx_plan (snd (pko_send_bytes fd buf n s)) = tx_plan s"
  using send_loop_open [of n "take (nat n) buf"] by (simp add: pko_send_bytes_def case_prod_beta Let_def fun_upd_idem)

text \<open>
  \<open>pko_read_file\<close> answers with the header (the descriptor, and the value \<open>read\<close> returned) and
  right behind it with exactly the bytes that \<open>read\<close> gave, none if it failed; when the buffer for
  them cannot be allocated it returns -1 and answers nothing. The file changes only by that \<open>read\<close>.
\<close>

theorem pko_read_file_reply:
  assumes wf: "wf_link s" and plan: "tx_plan s (pko_srv_fd s) = []"
    and fd: "fd = ntohl (rq_fd (view_read_req (recv_packet s)))"
    and n: "n = ntohl (rq_nbytes (view_read_req (recv_packet s)))"
    and rd: "os_read os (host s) (to_cint fd) n = ((k, data), fs)"
  shows "\<exists>s'. if os_malloc os (host s) n
     then pko_read_file os s = Ret (0, s') \<and> host s' = fs \<and>
       sent_on (pko_srv_fd s) s' = sent_on (pko_srv_fd s) s @
         be32 READ_RLY @ be16 14 @ be32 fd @ be32 (of_cint k) @ take (nat k) data \<and>
       rx s' = rx s \<and> tx_plan s' = tx_plan s
     else pko_read_file os s = Ret (-1, s') \<and> host s' = host s \<and> tx_log s' = tx_log s \<and>
       rx s' = rx s \<and> tx_plan s' = tx_plan s"
proof (cases "os_malloc os (host s) n")
  case False
  then show ?thesis by (simp add: pko_read_file_def Let_def n)
next
  case True
  let ?r = "\<lparr>p_cmd = htonl READ_RLY, p_len = htons (of_nat sizeof_pkt_read_rly), ry_retval = htonl fd,
      ry_nbytes = htonl (of_cint k)\<rparr>"
  define buf where "buf = store enc_read_rly ?r (send_packet s)"
  define s2 where "s2 = s\<lparr>host := fs, send_packet := buf\<rparr>"
  define s3 where "s3 = s2\<lparr>tx_log := tx_log s2 @ [(pko_srv_fd s, enc_read_rly ?r)]\<rparr>"
  have "store enc_read_rly ((view_read_rly b)\<lparr>ry_nbytes := v\<rparr>) b =
      store enc_read_rly ((view_read_rly (send_packet s))\<lparr>p_cmd := c, p_len := l, ry_retval := w, ry_nbytes := v\<rparr>)
        (send_packet s)"
    if "b = store enc_read_rly ((view_read_rly (send_packet s))\<lparr>p_cmd := c, p_len := l, ry_retval := w\<rparr>)
        (send_packet s)" for b c l w v
    using wf unfolding that
    by (simp add: read_rly.view_store read_rly.store_store ok_read_rly_def wf_link_def)
  then have "pko_read_file os s = Ret (0, snd (pko_send_bytes (pko_srv_fd s) data k (send_reply 14 s2)))"
    using True rd
    by (simp add: pko_read_file_def Let_def fd [symmetric] n [symmetric] case_prod_beta s2_def buf_def send_reply_def
       view_read_rly_def send_fd_def split: sum.splits)
  moreover have "send_reply 14 s2 = s3"
    using plan read_rly.take_store [of ?r "send_packet s"]
    by (simp add: send_reply_open s2_def s3_def buf_def ok_read_rly_def)
  moreover have "sent_on (pko_srv_fd s) (snd (pko_send_bytes (pko_srv_fd s) data k s3)) =
      sent_on (pko_srv_fd s) s3 @ take (nat k) data"
    using plan by (intro pko_send_bytes_sent) (simp add: s3_def s2_def)
  moreover have "sent_on (pko_srv_fd s) s3 = sent_on (pko_srv_fd s) s @
      be32 READ_RLY @ be16 14 @ be32 fd @ be32 (of_cint k)"
    by (simp add: s3_def s2_def sent_on_def enc_read_rly_def order_simps)
  moreover have "host (snd (pko_send_bytes (pko_srv_fd s) data k s3)) = fs"
    "rx (snd (pko_send_bytes (pko_srv_fd s) data k s3)) = rx s"
    by (simp_all add: pko_send_bytes_def s3_def s2_def case_prod_beta Let_def)
  moreover have "tx_plan (snd (pko_send_bytes (pko_srv_fd s) data k s3)) = tx_plan s"
    using plan by (simp add: pko_send_bytes_plan s3_def s2_def)
  ultimately show ?thesis using True by simp
qed

theorem pko_read_file_reply_witness:
  "\<exists>s'. pko_read_file tape_os ((link_init [7, 8, 9])\<lparr>recv_packet := store enc_read_req
       \<lparr>p_cmd = htonl READ_CMD, p_len = htons 14, rq_fd = htonl 3, rq_nbytes = htonl 2\<rparr>
       (replicate PACKET_MAXSIZE 0)\<rparr>) = Ret (0, s') \<and> host s' = [9] \<and>
     sent_on 0 s' = be32 READ_RLY @ be16 14 @ be32 3 @ be32 2 @ [7, 8]"
  using pko_read_file_reply [of "(link_init [7, 8, 9])\<lparr>recv_packet := store enc_read_req
       \<lparr>p_cmd = htonl READ_CMD, p_len = htons 14, rq_fd = htonl 3, rq_nbytes = htonl 2\<rparr>
       (replicate PACKET_MAXSIZE 0)\<rparr>" 3 2 tape_os 2 "[7, 8]" "[9]"]
  by (simp add: wf_link_def link_init_def read_req.view_store read_req.length_store ok_read_req_def
      sent_on_def of_cint_def) blast

text \<open>
  \<open>pko_read_dir\<close> always answers with one packet of 306 bytes that carries the entry's address.
  For an entry the packet also has the mode bits of the console, the low 32 bits of the size and the
  name, which the console reads back as it was if it is shorter than the field. At the end of the
  directory only the first ten bytes are written: the rest of the packet is whatever the send buffer
  held from earlier packets.
\<close>

theorem pko_read_dir_reply:
  assumes wf: "wf_link s" and plan: "tx_plan s (pko_srv_fd s) = []"
    and dir: "os_isdir os (host s) (ntohl (rq_fd (view_read_req (recv_packet s))))"
    and rd: "os_readdir os (host s) (ntohl (rq_fd (view_read_req (recv_packet s)))) = ((dirp, name), fs)"
    and st: "st = snd (os_stat os fs name)"
  shows "\<exists>s' msg. pko_read_dir os s = Ret (0, s') \<and> host s' = fs \<and>
     tx_log s' = tx_log s @ [(pko_srv_fd s, msg)] \<and>
     take 10 msg = be32 DREAD_RLY @ be16 306 @ be32 dirp \<and>
     (if dirp = 0 then drop 10 msg = peek 10 296 (send_packet s)
      else length msg = 306 \<and> peek 10 4 msg = be32 (dirent_mode (st_mode st)) \<and>
        peek 14 4 msg = be32 0 \<and> peek 18 4 msg = be32 (st_size st) \<and> peek 46 4 msg = be32 0 \<and>
        (no_nul name \<and> length name < 256 \<longrightarrow> c_str (drop 50 msg) = Some name)) \<and>
     rx s' = rx s \<and> tx_plan s' = tx_plan s"
proof -
  define reply where "reply = dread_reply dirp name st (view_dread_rly (send_packet s))"
  define msg where "msg = enc_dread_rly reply"
  define s' where "s' = s\<lparr>host := fs, send_packet := store enc_dread_rly reply (send_packet s),
      tx_log := tx_log s @ [(pko_srv_fd s, msg)]\<rparr>"
  have ok: "ok_dread_rly reply"
    using wf unfolding reply_def by (intro ok_dread_reply dread_rly.ok_view) (simp add: wf_link_def)
  have "pko_read_dir os s = Ret (0, s')"
    using plan dir rd dread_rly.take_store [OF ok, of "send_packet s"]
    by (simp add: pko_read_dir_def Let_def send_reply_open s'_def msg_def reply_def st)
  moreover have "take 10 msg = be32 DREAD_RLY @ be16 306 @ be32 dirp"
    by (simp add: msg_def enc_dread_rly_def reply_def dread_reply_def Let_def order_simps)
  moreover have "drop 10 msg = peek 10 296 (send_packet s)" if "dirp = 0"
  proof -
    have "drop 10 msg = drop 10 (enc_dread_rly (view_dread_rly (send_packet s)))"
      using that by (simp add: msg_def enc_dread_rly_def reply_def dread_reply_def Let_def)
    then show ?thesis
      using wf by (simp add: dread_rly.enc_view wf_link_def peek_def drop_take)
  qed
  moreover have "length msg = 306"
    using ok by (simp add: msg_def dread_rly.length_enc)
  moreover have "msg = be32 DREAD_RLY @ be16 306 @ be32 dirp @ be32 (dirent_mode (st_mode st)) @ be32 0 @
      be32 (st_size st) @ (dy_ctime reply @ dy_atime reply @ dy_mtime reply) @ be32 0 @ strncpy name 256"
    if "dirp \<noteq> 0"
    using that by (simp add: msg_def enc_dread_rly_def reply_def dread_reply_def Let_def order_simps)
  moreover have "length (dy_ctime reply @ dy_atime reply @ dy_mtime reply) = 24"
    using ok by (simp add: ok_dread_rly_def)
  ultimately show ?thesis
    using c_str_strncpy [of name 256 "[]"]
    by (intro exI [of _ s'] exI [of _ msg]) (auto simp: s'_def peek_def)
qed

theorem pko_read_dir_reply_witness:
  "\<exists>s' msg. pko_read_dir tape_os ((link_init [])\<lparr>recv_packet := store enc_read_req
       \<lparr>p_cmd = htonl DREAD_CMD, p_len = htons 14, rq_fd = htonl 1, rq_nbytes = 0\<rparr>
       (replicate PACKET_MAXSIZE 0)\<rparr>) = Ret (0, s') \<and> tx_log s' = [(0, msg)] \<and>
     take 10 msg = be32 DREAD_RLY @ be16 306 @ be32 5 \<and> c_str (drop 50 msg) = Some ''f''"
  using pko_read_dir_reply [of "(link_init [])\<lparr>recv_packet := store enc_read_req
       \<lparr>p_cmd = htonl DREAD_CMD, p_len = htons 14, rq_fd = htonl 1, rq_nbytes = 0\<rparr>
       (replicate PACKET_MAXSIZE 0)\<rparr>" tape_os 5 "''f''" "[]" "snd (os_stat tape_os [] ''f'')"]
  by (simp add: wf_link_def link_init_def read_req.view_store read_req.length_store ok_read_req_def)
     blast

end
