(* ===== verification/Framing.thy ===== *)
theory Framing
  imports Fileserver
begin

text \<open>
  Packets on a connection: a header of six bytes that announces the length of the whole, and the
  body behind it. Both protocols are read in these two steps, into \<open>recv_packet\<close>.
\<close>

lemma of_cint_eq_0_iff: "is_cint i \<Longrightarrow> of_cint i = 0 \<longleftrightarrow> i = 0"
  using to_cint_of_cint [of i] by (auto simp: of_cint_def to_cint_def)

lemma recv_into_packet_at:
  assumes "0 \<le> n" and "off + nat n \<le> length (recv_packet s)" and "nat n \<le> length (stream (rx s fd))"
  obtains es where "recv_into_packet fd off n s = Ret (n, s\<lparr>rx := (rx s)(fd := es),
      recv_packet := poke off (take (nat n) (stream (rx s fd))) (recv_packet s)\<rparr>)"
    and "stream es = drop (nat n) (stream (rx s fd))"
proof -
  have "nat n \<le> length (recv_packet s) - off" using assms(2) by simp
  from pko_recv_bytes_exact [OF assms(1) this assms(3)] obtain es where
    "pko_recv_bytes fd (length (recv_packet s) - off) n s =
      Ret (n, take (nat n) (stream (rx s fd)), s\<lparr>rx := (rx s)(fd := es)\<rparr>)"
    "stream es = drop (nat n) (stream (rx s fd))"
    by blast
  with that show thesis by (simp add: recv_into_packet_def)
qed

lemma recv_into_packet_none [simp]: "n \<le> 0 \<Longrightarrow> recv_into_packet fd off n s = Ret (n, s)"
  by (simp add: recv_into_packet_def)

text \<open>The packet on the connection: a header that announces its length, and the body.\<close>

definition packet :: "u32 \<Rightarrow> byte list \<Rightarrow> byte list" where
  "packet cmd body = be32 cmd @ be16 (of_nat (6 + length body)) @ body"

lemma view_hdr_packet:
  assumes "take 6 buf = be32 cmd @ be16 hlen"
  shows "view_hdr buf = \<lparr>p_cmd = htonl cmd, p_len = htons hlen\<rparr>"
proof -
  have "buf = enc_hdr \<lparr>p_cmd = htonl cmd, p_len = htons hlen\<rparr> @ drop 6 buf"
    using assms append_take_drop_id [of 6 buf] by (simp add: enc_hdr_def order_simps)
  then show ?thesis using hdr.view_enc [of "\<lparr>p_cmd = htonl cmd, p_len = htons hlen\<rparr>" "drop 6 buf"]
    by (simp add: ok_hdr_def)
qed

lemma uint_length16: "n < 65536 \<Longrightarrow> uint (of_nat n :: u16) = int n"
  by (simp add: uint_nat unat_of_nat)

lemma sys_recv_closed:
  assumes "stream es = []" and "script_end es = Closes"
  shows "\<exists>es'. (sys_recv n es = (Eof, es') \<or> (\<exists>e. sys_recv n es = (Failed e, es') \<and> \<not> fatal e)) \<and>
     stream es' = [] \<and> script_end es' = Closes"
  using assms by (induction n es rule: sys_recv.induct) (auto split: if_splits)

lemma recv_loop_closed:
  assumes "stream es = []" and "script_end es = Closes" and "left \<noteq> 0"
  shows "\<exists>es'. recv_loop bytes room left es = Ret (0, [], es') \<and> stream es' = [] \<and> script_end es' = Closes"
  using assms
proof (induction es rule: measure_induct_rule [of weight])
  case (less es)
  from sys_recv_closed [OF less.prems(1,2), of left] obtain es' where
    es': "stream es' = []" "script_end es' = Closes"
    and "sys_recv left es = (Eof, es') \<or> (\<exists>e. sys_recv left es = (Failed e, es') \<and> \<not> fatal e)" by blast
  then consider "sys_recv left es = (Eof, es')" | e where "sys_recv left es = (Failed e, es')" "\<not> fatal e" by blast
  then show ?case
  proof cases
    case 1
    then show ?thesis using es' less.prems(3) by (simp add: recv_loop.simps [of bytes room left es])
  next
    case 2
    then show ?thesis using less.IH [OF sys_recv_Failed_weight [OF 2(1)] es' less.prems(3)] less.prems(3)
      by (simp add: recv_loop.simps [of bytes room left es])
  qed
qed

lemma recv_into_packet_eof:
  assumes "0 < n" and "stream (rx s fd) = []" and "script_end (rx s fd) = Closes"
  obtains es where "recv_into_packet fd off n s = Ret (0, s\<lparr>rx := (rx s)(fd := es)\<rparr>)"
    and "stream es = []" and "script_end es = Closes"
proof -
  obtain es where "recv_loop n (length (recv_packet s) - off) (nat n) (rx s fd) = Ret (0, [], es)"
    "stream es = []" "script_end es = Closes"
    using recv_loop_closed [OF assms(2,3), of "nat n" n "length (recv_packet s) - off"] assms(1) by auto
  with that show thesis by (simp add: recv_into_packet_def pko_recv_bytes_def recv_bytes_def)
qed

lemma pko_recv_bytes_overflow:
  assumes "0 < n" and "room < nat n" and "room < length (stream (rx s fd))"
  shows "pko_recv_bytes fd room n s = Crash"
proof -
  have "omap (\<lambda>(r, cs, es'). (r, cs)) (recv_loop n room (nat n) (rx s fd)) = Crash"
    using assms by (simp add: recv_loop_refines recv_spec_def)
  then show ?thesis by (simp add: pko_recv_bytes_def recv_bytes_def)
qed

section \<open>Serving a connection\<close>

text \<open>
  The second receive: \<open>hlen - sizeof(pkt_hdr)\<close>, an unsigned difference passed as an \<open>int\<close>, so it is
  negative for a length below six.
\<close>

definition recv_body :: "int \<Rightarrow> int \<Rightarrow> u16 \<Rightarrow> ('fs, 'z) link_scheme \<Rightarrow> (int \<times> ('fs, 'z) link_scheme) outcome" where
  "recv_body fd len hlen s =
     recv_into_packet fd (nat len) (to_cint (ucast hlen - of_nat sizeof_pkt_hdr)) s"

lemma to_cint_body: "to_cint (ucast (hlen :: u16) - 6) = uint hlen - 6"
proof -
  have "ucast hlen - 6 = (of_cint (uint hlen - 6) :: u32)"
    by (simp add: of_cint_def)
  moreover have "uint hlen < 65536" using unsigned_less [of hlen, where ?'a = int] by simp
  ultimately show ?thesis
    by (simp add: is_cint_def)
qed

lemma recv_frame:
  assumes wf: "wf_link s" and strm: "stream (rx s fd) = packet cmd body @ rest"
    and fits: "6 + length body \<le> PACKET_MAXSIZE"
  obtains s1 es where "recv_into_packet fd 0 6 s = Ret (6, s1)"
    and "view_hdr (recv_packet s1) = \<lparr>p_cmd = htonl cmd, p_len = htons (of_nat (6 + length body))\<rparr>"
    and "recv_body fd 6 (of_nat (6 + length body)) s1 = Ret (int (length body), s\<lparr>rx := (rx s)(fd := es),
      recv_packet := poke 0 (packet cmd body) (recv_packet s)\<rparr>)"
    and "stream es = rest"
proof -
  define hlen :: u16 where "hlen = of_nat (6 + length body)"
  have hlen: "uint hlen = 6 + int (length body)"
    using fits unfolding hlen_def by (subst uint_length16) auto
  have strm': "stream (rx s fd) = be32 cmd @ be16 hlen @ body @ rest"
    by (simp add: strm packet_def hlen_def)
  define buf where "buf = poke 0 (be32 cmd @ be16 hlen) (recv_packet s)"
  have buf: "length buf = PACKET_MAXSIZE" using wf by (simp add: buf_def wf_link_def length_poke)
  obtain es where rcv: "recv_into_packet fd 0 6 s = Ret (6, s\<lparr>rx := (rx s)(fd := es), recv_packet := buf\<rparr>)"
    and es: "stream es = body @ rest"
    using recv_into_packet_at [of 6 0 s fd] wf strm' by (auto simp: wf_link_def buf_def)
  define s1 where "s1 = s\<lparr>rx := (rx s)(fd := es), recv_packet := buf\<rparr>"
  have view: "view_hdr (recv_packet s1) = \<lparr>p_cmd = htonl cmd, p_len = htons hlen\<rparr>"
    unfolding s1_def by (simp, rule view_hdr_packet) (simp add: buf_def poke_def)
  obtain es' where "recv_into_packet fd 6 (int (length body)) s1 =
      Ret (int (length body), s1\<lparr>rx := (rx s1)(fd := es'), recv_packet := poke 6 body buf\<rparr>)"
    and es': "stream es' = rest"
    using recv_into_packet_at [of "int (length body)" 6 s1 fd] fits es buf by (auto simp: s1_def)
  moreover have "poke 6 body buf = poke 0 (packet cmd body) (recv_packet s)"
    by (simp add: buf_def poke_def packet_def hlen_def add.commute)
  ultimately have "recv_body fd 6 hlen s1 = Ret (int (length body), s\<lparr>rx := (rx s)(fd := es'),
      recv_packet := poke 0 (packet cmd body) (recv_packet s)\<rparr>)"
    by (simp add: recv_body_def to_cint_body hlen s1_def)
  with rcv view es' that show thesis by (simp add: s1_def hlen_def)
qed

text \<open>
  The contract of a server of requests: it reads the header and the body, and dispatches on the
  command in the header. The two programs provide it with their own dispatch.
\<close>

locale framed_server =
  fixes serve :: "int \<Rightarrow> ('fs, 'z) link_scheme \<Rightarrow> (int \<times> ('fs, 'z) link_scheme) outcome"
    and dispatch :: "u32 \<Rightarrow> ('fs, 'z) link_scheme \<Rightarrow> (int \<times> ('fs, 'z) link_scheme) outcome"
  assumes serve_request: "recv_into_packet fd 0 6 s = Ret (len, s1) \<Longrightarrow> 0 < len \<Longrightarrow>
      serve fd s = obind (recv_body fd len (ntohs (p_len (view_hdr (recv_packet s1)))) s1)
        (\<lambda>(r, s2). dispatch (ntohl (p_cmd (view_hdr (recv_packet s1)))) s2)"
begin

lemma serve_packet:
  assumes "wf_link s" and "stream (rx s fd) = packet cmd body @ rest" and "6 + length body \<le> PACKET_MAXSIZE"
  obtains es where "serve fd s = dispatch cmd (s\<lparr>rx := (rx s)(fd := es),
      recv_packet := poke 0 (packet cmd body) (recv_packet s)\<rparr>)"
    and "stream es = rest"
proof -
  obtain s1 es where "recv_into_packet fd 0 6 s = Ret (6, s1)"
    and "view_hdr (recv_packet s1) = \<lparr>p_cmd = htonl cmd, p_len = htons (of_nat (6 + length body))\<rparr>"
    and "recv_body fd 6 (of_nat (6 + length body)) s1 = Ret (int (length body), s\<lparr>rx := (rx s)(fd := es),
      recv_packet := poke 0 (packet cmd body) (recv_packet s)\<rparr>)"
    and "stream es = rest"
    using recv_frame [OF assms] .
  with that serve_request show thesis by simp
qed

lemma serve_overflow:
  assumes wf: "wf_link s" and strm: "stream (rx s fd) = be32 cmd @ be16 hlen @ rest"
    and large: "4096 < uint hlen" "4090 < length rest"
  shows "serve fd s = Crash"
proof -
  obtain es where rcv: "recv_into_packet fd 0 6 s = Ret (6, s\<lparr>rx := (rx s)(fd := es),
      recv_packet := poke 0 (be32 cmd @ be16 hlen) (recv_packet s)\<rparr>)"
    and es: "stream es = rest"
    using recv_into_packet_at [of 6 0 s fd] wf strm by (auto simp: wf_link_def)
  define s1 where "s1 = s\<lparr>rx := (rx s)(fd := es), recv_packet := poke 0 (be32 cmd @ be16 hlen) (recv_packet s)\<rparr>"
  have "view_hdr (recv_packet s1) = \<lparr>p_cmd = htonl cmd, p_len = htons hlen\<rparr>"
    unfolding s1_def by (simp, rule view_hdr_packet) (simp add: poke_def)
  moreover have "pko_recv_bytes fd (length (recv_packet s1) - 6) (uint hlen - 6) s1 = Crash"
    using wf large es by (intro pko_recv_bytes_overflow) (auto simp: s1_def wf_link_def length_poke)
  then have "recv_body fd 6 hlen s1 = Crash"
    by (simp add: recv_body_def to_cint_body recv_into_packet_def)
  ultimately show ?thesis
    using serve_request [OF rcv] by (simp add: s1_def)
qed

text \<open>A header that announces fewer bytes than it has itself is dispatched with the body of an
  earlier request.\<close>

lemma serve_short:
  assumes wf: "wf_link s" and strm: "stream (rx s fd) = be32 cmd @ be16 hlen @ rest"
    and short: "uint hlen \<le> 6"
  obtains es where "serve fd s = dispatch cmd (s\<lparr>rx := (rx s)(fd := es),
      recv_packet := poke 0 (be32 cmd @ be16 hlen) (recv_packet s)\<rparr>)"
    and "stream es = rest"
proof -
  obtain es where rcv: "recv_into_packet fd 0 6 s = Ret (6, s\<lparr>rx := (rx s)(fd := es),
      recv_packet := poke 0 (be32 cmd @ be16 hlen) (recv_packet s)\<rparr>)"
    and es: "stream es = rest"
    using recv_into_packet_at [of 6 0 s fd] wf strm by (auto simp: wf_link_def)
  define s1 where "s1 = s\<lparr>rx := (rx s)(fd := es), recv_packet := poke 0 (be32 cmd @ be16 hlen) (recv_packet s)\<rparr>"
  have "view_hdr (recv_packet s1) = \<lparr>p_cmd = htonl cmd, p_len = htons hlen\<rparr>"
    unfolding s1_def by (simp, rule view_hdr_packet) (simp add: poke_def)
  then have "serve fd s = dispatch cmd s1"
    using serve_request [OF rcv] short by (simp add: s1_def recv_body_def to_cint_body)
  with es that show thesis by (simp add: s1_def)
qed

end

end
