(* ===== verification/Netfs.thy ===== *)
theory Netfs
  imports Linkstub Framing
begin

text \<open>
  \<open>netfsproto_core.c\<close>: the client of the console's own file system service, on the connection
  \<open>ps2_netfs_fd\<close>. Each function builds a request over the packet that is in \<open>send_packet\<close>, sends it
  and waits for one reply in \<open>recv_packet\<close>. The locale \<open>netfs_request\<close> is what the functions share.
\<close>

section \<open>Constants\<close>

abbreviation (input) PS2NETFS_LISTEN_PORT :: nat where "PS2NETFS_LISTEN_PORT \<equiv> 0x4713"

abbreviation (input) PS2NETFS_OPEN_CMD :: u32 where "PS2NETFS_OPEN_CMD \<equiv> 0xbeef8011"
abbreviation (input) PS2NETFS_OPEN_RLY :: u32 where "PS2NETFS_OPEN_RLY \<equiv> 0xbeef8012"
abbreviation (input) PS2NETFS_CLOSE_CMD :: u32 where "PS2NETFS_CLOSE_CMD \<equiv> 0xbeef8021"
abbreviation (input) PS2NETFS_CLOSE_RLY :: u32 where "PS2NETFS_CLOSE_RLY \<equiv> 0xbeef8022"
abbreviation (input) PS2NETFS_READ_CMD :: u32 where "PS2NETFS_READ_CMD \<equiv> 0xbeef8031"
abbreviation (input) PS2NETFS_READ_RLY :: u32 where "PS2NETFS_READ_RLY \<equiv> 0xbeef8032"
abbreviation (input) PS2NETFS_WRITE_CMD :: u32 where "PS2NETFS_WRITE_CMD \<equiv> 0xbeef8041"
abbreviation (input) PS2NETFS_WRITE_RLY :: u32 where "PS2NETFS_WRITE_RLY \<equiv> 0xbeef8042"
abbreviation (input) PS2NETFS_LSEEK_CMD :: u32 where "PS2NETFS_LSEEK_CMD \<equiv> 0xbeef8051"
abbreviation (input) PS2NETFS_LSEEK_RLY :: u32 where "PS2NETFS_LSEEK_RLY \<equiv> 0xbeef8052"
abbreviation (input) PS2NETFS_REMOVE_CMD :: u32 where "PS2NETFS_REMOVE_CMD \<equiv> 0xbeef8071"
abbreviation (input) PS2NETFS_REMOVE_RLY :: u32 where "PS2NETFS_REMOVE_RLY \<equiv> 0xbeef8072"
abbreviation (input) PS2NETFS_MKDIR_CMD :: u32 where "PS2NETFS_MKDIR_CMD \<equiv> 0xbeef8081"
abbreviation (input) PS2NETFS_MKDIR_RLY :: u32 where "PS2NETFS_MKDIR_RLY \<equiv> 0xbeef8082"
abbreviation (input) PS2NETFS_RMDIR_CMD :: u32 where "PS2NETFS_RMDIR_CMD \<equiv> 0xbeef8091"
abbreviation (input) PS2NETFS_RMDIR_RLY :: u32 where "PS2NETFS_RMDIR_RLY \<equiv> 0xbeef8092"
abbreviation (input) PS2NETFS_DOPEN_CMD :: u32 where "PS2NETFS_DOPEN_CMD \<equiv> 0xbeef80A1"
abbreviation (input) PS2NETFS_DOPEN_RLY :: u32 where "PS2NETFS_DOPEN_RLY \<equiv> 0xbeef80A2"
abbreviation (input) PS2NETFS_DCLOSE_CMD :: u32 where "PS2NETFS_DCLOSE_CMD \<equiv> 0xbeef80B1"
abbreviation (input) PS2NETFS_DCLOSE_RLY :: u32 where "PS2NETFS_DCLOSE_RLY \<equiv> 0xbeef80B2"
abbreviation (input) PS2NETFS_DREAD_CMD :: u32 where "PS2NETFS_DREAD_CMD \<equiv> 0xbeef80C1"
abbreviation (input) PS2NETFS_DREAD_RLY :: u32 where "PS2NETFS_DREAD_RLY \<equiv> 0xbeef80C2"
abbreviation (input) PS2NETFS_FORMAT_RLY :: u32 where "PS2NETFS_FORMAT_RLY \<equiv> 0xbeef80F2"
abbreviation (input) PS2NETFS_SYNC_CMD :: u32 where "PS2NETFS_SYNC_CMD \<equiv> 0xbeef8131"
abbreviation (input) PS2NETFS_SYNC_RLY :: u32 where "PS2NETFS_SYNC_RLY \<equiv> 0xbeef8132"
abbreviation (input) PS2NETFS_MOUNT_CMD :: u32 where "PS2NETFS_MOUNT_CMD \<equiv> 0xbeef8141"
abbreviation (input) PS2NETFS_MOUNT_RLY :: u32 where "PS2NETFS_MOUNT_RLY \<equiv> 0xbeef8142"
abbreviation (input) PS2NETFS_UMOUNT_CMD :: u32 where "PS2NETFS_UMOUNT_CMD \<equiv> 0xbeef8151"
abbreviation (input) PS2NETFS_UMOUNT_RLY :: u32 where "PS2NETFS_UMOUNT_RLY \<equiv> 0xbeef8152"
abbreviation (input) PS2NETFS_DEVLIST_CMD :: u32 where "PS2NETFS_DEVLIST_CMD \<equiv> 0xbeef8F21"
abbreviation (input) PS2NETFS_DEVLIST_RLY :: u32 where "PS2NETFS_DEVLIST_RLY \<equiv> 0xbeef8F22"

section \<open>Receiving a reply\<close>

text \<open>
  \<open>ps2netfs_accept_pkt\<close> into \<open>recv_packet\<close>, where every caller points it. The variable \<open>length\<close> is
  an \<open>unsigned int\<close>, so \<open>length <= 0\<close> holds of 0 only.
\<close>

definition ps2netfs_accept_pkt ::
  "int \<Rightarrow> int \<Rightarrow> u32 \<Rightarrow> ('fs, 'z) link_scheme \<Rightarrow> (int \<times> ('fs, 'z) link_scheme) outcome" where
  "ps2netfs_accept_pkt sock len pkt_type s =
     obind (recv_into_packet sock 0 (int sizeof_pkt_hdr) s) (\<lambda>(r, s).
     let len1 = of_cint r in
     if len1 = 0 then Ret (-1, s)
     else
       let hdr = view_hdr (recv_packet s); hcmd = ntohl (p_cmd hdr); hlen = ntohs (p_len hdr) in
       if hcmd \<noteq> pkt_type then Ret (0, (close_fd (ps2_netfs_fd s) s)\<lparr>ps2_netfs_fd := -1\<rparr>)
       else if uint hlen > len then Ret (0, s)
       else
         obind (recv_into_packet sock sizeof_pkt_hdr (uint hlen - int sizeof_pkt_hdr) s) (\<lambda>(r, s).
         let len2 = of_cint r
         in if len2 = 0 then Ret (0, s) else Ret (1, s)))"

text \<open>\<open>send(ps2_netfs_fd, request, n, 0)\<close>, its result ignored.\<close>

definition send_netfs :: "nat \<Rightarrow> ('fs, 'z) link_scheme \<Rightarrow> ('fs, 'z) link_scheme" where
  "send_netfs n s = snd (send_fd (ps2_netfs_fd s) (take n (send_packet s)) s)"

text \<open>The tail of the functions: send the request, accept the reply, return its \<open>retval\<close>.\<close>

definition netfs_retval :: "('fs, 'z) link_scheme \<Rightarrow> int" where
  "netfs_retval s = to_cint (ntohl (fy_retval (view_file_rly (recv_packet s))))"

definition netfs_exchange ::
  "nat \<Rightarrow> int \<Rightarrow> u32 \<Rightarrow> ('fs, 'z) link_scheme \<Rightarrow> (int \<times> ('fs, 'z) link_scheme) outcome" where
  "netfs_exchange n len rly s =
     (let s = send_netfs n s in
      obind (ps2netfs_accept_pkt (ps2_netfs_fd s) len rly s) (\<lambda>(ok, s).
      if ok = 0 then Ret (-1, s) else Ret (netfs_retval s, s)))"

section \<open>Requests\<close>

abbreviation (input) build ::
  "('r \<Rightarrow> byte list) \<Rightarrow> 'r \<Rightarrow> ('fs, 'z) link_scheme \<Rightarrow> ('fs, 'z) link_scheme" where
  "build enc req s \<equiv> s\<lparr>send_packet := store enc req (send_packet s)\<rparr>"

definition build_open :: "string \<Rightarrow> u32 \<Rightarrow> ('fs, 'z) link_scheme \<Rightarrow> ('fs, 'z) link_scheme" where
  "build_open path mode s = build enc_file_req
     \<lparr>p_cmd = htonl PS2NETFS_OPEN_CMD, p_len = htons (of_nat sizeof_pkt_file_req),
      fq_flags = htonl mode, fq_path = strncpy path MAX_PATH\<rparr> s"

definition ps2netfs_req_open ::
  "string \<Rightarrow> u32 \<Rightarrow> ('fs, 'z) link_scheme \<Rightarrow> (int \<times> ('fs, 'z) link_scheme) outcome" where
  "ps2netfs_req_open path mode s =
     netfs_exchange sizeof_pkt_file_req (int sizeof_pkt_file_rly) PS2NETFS_OPEN_RLY (build_open path mode s)"

definition build_close :: "u32 \<Rightarrow> int \<Rightarrow> ('fs, 'z) link_scheme \<Rightarrow> ('fs, 'z) link_scheme" where
  "build_close cmd fd s = build enc_close_req
     \<lparr>p_cmd = htonl cmd, p_len = htons (of_nat sizeof_pkt_close_req), cq_fd = htonl (of_cint fd)\<rparr> s"

definition ps2netfs_req_close :: "int \<Rightarrow> ('fs, 'z) link_scheme \<Rightarrow> (int \<times> ('fs, 'z) link_scheme) outcome" where
  "ps2netfs_req_close fd s =
     netfs_exchange sizeof_pkt_close_req (int sizeof_pkt_file_rly) PS2NETFS_CLOSE_RLY
       (build_close PS2NETFS_CLOSE_CMD fd s)"

definition ps2netfs_req_dclose :: "int \<Rightarrow> ('fs, 'z) link_scheme \<Rightarrow> (int \<times> ('fs, 'z) link_scheme) outcome" where
  "ps2netfs_req_dclose fd s =
     netfs_exchange sizeof_pkt_close_req (int sizeof_pkt_file_rly) PS2NETFS_DCLOSE_RLY
       (build_close PS2NETFS_DCLOSE_CMD fd s)"

text \<open>
  \<open>ps2netfs_req_read\<close> into an object of \<open>room\<close> bytes: the value returned and the bytes written to it.
  \<open>ntohl(response->retval) > 0\<close> compares unsigned numbers.
\<close>

definition ps2netfs_req_read ::
  "int \<Rightarrow> nat \<Rightarrow> int \<Rightarrow> ('fs, 'z) link_scheme \<Rightarrow> (int \<times> byte list \<times> ('fs, 'z) link_scheme) outcome" where
  "ps2netfs_req_read fd room n s =
     (let s = build enc_read_req
            \<lparr>p_cmd = htonl PS2NETFS_READ_CMD, p_len = htons (of_nat sizeof_pkt_read_req),
             rq_fd = htonl (of_cint fd), rq_nbytes = htonl (of_cint n)\<rparr> s;
          s = send_netfs sizeof_pkt_read_req s in
      obind (ps2netfs_accept_pkt (ps2_netfs_fd s) (int sizeof_pkt_read_rly) PS2NETFS_READ_RLY s) (\<lambda>(ok, s).
      if ok = 0 then Ret (-1, [], s)
      else
        let retval = ntohl (ry_retval (view_read_rly (recv_packet s))) in
        if retval > 0 then
          obind (pko_recv_bytes (ps2_netfs_fd s) room (to_cint retval) s) (\<lambda>(r, bs, s).
          Ret (to_cint (ntohl (ry_retval (view_read_rly (recv_packet s)))), bs, s))
        else Ret (to_cint retval, [], s)))"

text \<open>\<open>ps2netfs_req_write\<close> of \<open>n\<close> bytes from the object \<open>ptr\<close>, with one \<open>send\<close> for the data.\<close>

definition ps2netfs_req_write ::
  "int \<Rightarrow> byte list \<Rightarrow> int \<Rightarrow> ('fs, 'z) link_scheme \<Rightarrow> (int \<times> ('fs, 'z) link_scheme) outcome" where
  "ps2netfs_req_write fd ptr n s =
     (let s = build enc_write_req
            \<lparr>p_cmd = htonl PS2NETFS_WRITE_CMD, p_len = htons (of_nat sizeof_pkt_write_req),
             wq_fd = htonl (of_cint fd), wq_nbytes = htonl (of_cint n)\<rparr> s;
          (ret, s) = send_fd (ps2_netfs_fd s) (take sizeof_pkt_write_req (send_packet s)) s in
      if ret < 0 then Ret (-1, s)
      else
        oguard (0 \<le> n \<and> nat n \<le> length ptr)
          (let (ret, s) = send_fd (ps2_netfs_fd s) (take (nat n) ptr) s in
           if ret < 0 then Ret (-1, s)
           else
             obind (ps2netfs_accept_pkt (ps2_netfs_fd s) (int sizeof_pkt_file_rly) PS2NETFS_WRITE_RLY s)
               (\<lambda>(ok, s). if ok = 0 then Ret (-1, s) else Ret (netfs_retval s, s))))"

definition build_lseek :: "int \<Rightarrow> int \<Rightarrow> int \<Rightarrow> ('fs, 'z) link_scheme \<Rightarrow> ('fs, 'z) link_scheme" where
  "build_lseek fd offset whence s = build enc_lseek_req
     \<lparr>p_cmd = htonl PS2NETFS_LSEEK_CMD, p_len = htons (of_nat sizeof_pkt_lseek_req),
      lq_fd = htonl (of_cint fd), lq_offset = htonl (of_cint offset), lq_whence = htonl (of_cint whence)\<rparr> s"

definition ps2netfs_req_lseek ::
  "int \<Rightarrow> int \<Rightarrow> int \<Rightarrow> ('fs, 'z) link_scheme \<Rightarrow> (int \<times> ('fs, 'z) link_scheme) outcome" where
  "ps2netfs_req_lseek fd offset whence s =
     netfs_exchange sizeof_pkt_lseek_req (int sizeof_pkt_file_rly) PS2NETFS_LSEEK_RLY
       (build_lseek fd offset whence s)"

text \<open>\<open>dopen\<close> and \<open>mkdir\<close> do not assign \<open>flags\<close>: the bytes of an earlier packet stay there.\<close>

definition build_path :: "u32 \<Rightarrow> string \<Rightarrow> ('fs, 'z) link_scheme \<Rightarrow> ('fs, 'z) link_scheme" where
  "build_path cmd path s = build enc_file_req
     ((view_file_req (send_packet s))\<lparr>p_cmd := htonl cmd,
        p_len := htons (of_nat sizeof_pkt_file_req), fq_path := strncpy path MAX_PATH\<rparr>) s"

definition ps2netfs_req_dopen :: "string \<Rightarrow> ('fs, 'z) link_scheme \<Rightarrow> (int \<times> ('fs, 'z) link_scheme) outcome" where
  "ps2netfs_req_dopen path s =
     netfs_exchange sizeof_pkt_file_req (int sizeof_pkt_file_rly) PS2NETFS_DOPEN_RLY
       (build_path PS2NETFS_DOPEN_CMD path s)"

definition ps2netfs_req_mkdir :: "string \<Rightarrow> ('fs, 'z) link_scheme \<Rightarrow> (int \<times> ('fs, 'z) link_scheme) outcome" where
  "ps2netfs_req_mkdir path s =
     netfs_exchange sizeof_pkt_file_req (int sizeof_pkt_file_rly) PS2NETFS_MKDIR_RLY
       (build_path PS2NETFS_MKDIR_CMD path s)"

text \<open>The entry of a directory listing, \<open>ps2netfs_dirent_t\<close>.\<close>

record ps2netfs_dirent =
  de_mode :: u32
  de_attr :: u32
  de_size :: u32
  de_ctime :: "byte list"
  de_atime :: "byte list"
  de_mtime :: "byte list"
  de_hisize :: u32
  de_name :: "byte list"

text \<open>The fields copied from the reply; \<open>memcpy\<close> of 24 bytes from \<open>ctime\<close> on takes all three
  times, and \<open>strncpy\<close> stops at the first NUL of the path and fills with zeros.\<close>

definition read_dirent :: "pkt_dread_rly \<Rightarrow> ps2netfs_dirent" where
  "read_dirent response =
     \<lparr>de_mode = ntohl (dy_mode response), de_attr = ntohl (dy_attr response),
      de_size = ntohl (dy_size response), de_ctime = dy_ctime response, de_atime = dy_atime response,
      de_mtime = dy_mtime response, de_hisize = ntohl (dy_hisize response),
      de_name = take MAX_PATH (takeWhile (\<lambda>b. b \<noteq> 0) (dy_path response) @ replicate MAX_PATH 0)\<rparr>"

text \<open>\<open>ps2netfs_req_dread\<close>: the value returned, the entry if it was written, the state.\<close>

definition ps2netfs_req_dread ::
  "int \<Rightarrow> ('fs, 'z) link_scheme \<Rightarrow> (int \<times> ps2netfs_dirent option \<times> ('fs, 'z) link_scheme) outcome" where
  "ps2netfs_req_dread fd s =
     (let s = build enc_dread_req
            \<lparr>p_cmd = htonl PS2NETFS_DREAD_CMD, p_len = htons (of_nat sizeof_pkt_dread_req),
             dq_fd = htonl (of_cint fd)\<rparr> s;
          s = send_netfs sizeof_pkt_dread_req s in
      obind (ps2netfs_accept_pkt (ps2_netfs_fd s) (int sizeof_pkt_dread_rly) PS2NETFS_DREAD_RLY s) (\<lambda>(ok, s).
      if ok = 0 then Ret (-1, None, s)
      else
        let response = view_dread_rly (recv_packet s)
        in Ret (to_cint (ntohl (dy_retval response)), Some (read_dirent response), s)))"

text \<open>\<open>ps2netfs_req_devlist\<close>: the value returned and the 256 bytes copied to \<open>buf\<close>, if any.\<close>

definition ps2netfs_req_devlist ::
  "('fs, 'z) link_scheme \<Rightarrow> (int \<times> byte list option \<times> ('fs, 'z) link_scheme) outcome" where
  "ps2netfs_req_devlist s =
     (let req = view_devlist_req (send_packet s);
          s = build enc_devlist_req (req\<lparr>p_cmd := htonl PS2NETFS_DEVLIST_CMD,
            p_len := htons (of_nat sizeof_pkt_devlist_req), vq_path := poke 0 [0, 0] (vq_path req)\<rparr>) s;
          s = send_netfs sizeof_pkt_devlist_req s in
      obind (ps2netfs_accept_pkt (ps2_netfs_fd s) (int sizeof_pkt_devlist_rly) PS2NETFS_DEVLIST_RLY s) (\<lambda>(ok, s).
      if ok = 0 then Ret (-1, None, s)
      else
        let response = view_devlist_rly (recv_packet s)
        in Ret (to_cint (ntohl (vy_retval response)), Some (vy_list response), s)))"

definition build_mount ::
  "string \<Rightarrow> string \<Rightarrow> int \<Rightarrow> string \<Rightarrow> int \<Rightarrow> ('fs, 'z) link_scheme \<Rightarrow> ('fs, 'z) link_scheme" where
  "build_mount fsname devname flag arg arglen s = build enc_mount_req
     \<lparr>p_cmd = htonl PS2NETFS_MOUNT_CMD, p_len = htons (of_nat sizeof_pkt_mount_req),
      mq_fsname = strncpy fsname MAX_PATH, mq_devname = strncpy devname MAX_PATH,
      mq_flag = htonl (of_cint flag), mq_arg = strncpy arg MAX_PATH, mq_arglen = htonl (of_cint arglen)\<rparr> s"

definition ps2netfs_req_mount ::
  "string \<Rightarrow> string \<Rightarrow> int \<Rightarrow> string \<Rightarrow> int \<Rightarrow> ('fs, 'z) link_scheme \<Rightarrow>
     (int \<times> ('fs, 'z) link_scheme) outcome" where
  "ps2netfs_req_mount fsname devname flag arg arglen s =
     netfs_exchange sizeof_pkt_mount_req (int sizeof_pkt_mount_req) PS2NETFS_MOUNT_RLY
       (build_mount fsname devname flag arg arglen s)"

text \<open>
  \<open>ps2netfs_req_umount\<close>: the length is the size of a pointer (4 on the host the casts of the code
  are made for), the flags are not converted, and what is sent are 266 bytes from the address of
  the variable \<open>request\<close>: \<open>stack\<close> is what memory holds from there on.
\<close>

definition ps2netfs_req_umount ::
  "byte list \<Rightarrow> string \<Rightarrow> int \<Rightarrow> ('fs, 'z) link_scheme \<Rightarrow> (int \<times> ('fs, 'z) link_scheme) outcome" where
  "ps2netfs_req_umount stack path flags s =
     oguard (sizeof_pkt_file_req \<le> length stack)
       (let s = build enc_file_req
            \<lparr>p_cmd = htonl PS2NETFS_UMOUNT_CMD, p_len = htons 4, fq_flags = of_cint flags,
             fq_path = strncpy path MAX_PATH\<rparr> s;
            s = snd (send_fd (ps2_netfs_fd s) (take sizeof_pkt_file_req stack) s) in
        obind (ps2netfs_accept_pkt (ps2_netfs_fd s) (int sizeof_pkt_file_rly) PS2NETFS_UMOUNT_RLY s) (\<lambda>(ok, s).
        if ok = 0 then Ret (-1, s) else Ret (netfs_retval s, s)))"

definition build_flags :: "u32 \<Rightarrow> string \<Rightarrow> int \<Rightarrow> ('fs, 'z) link_scheme \<Rightarrow> ('fs, 'z) link_scheme" where
  "build_flags cmd path flags s = build enc_file_req
     \<lparr>p_cmd = htonl cmd, p_len = htons (of_nat sizeof_pkt_file_req),
      fq_flags = htonl (of_cint flags), fq_path = strncpy path MAX_PATH\<rparr> s"

definition ps2netfs_req_rmdir :: "string \<Rightarrow> ('fs, 'z) link_scheme \<Rightarrow> (int \<times> ('fs, 'z) link_scheme) outcome" where
  "ps2netfs_req_rmdir path s =
     netfs_exchange sizeof_pkt_file_req (int sizeof_pkt_file_rly) PS2NETFS_RMDIR_RLY
       (build_flags PS2NETFS_RMDIR_CMD path 0 s)"

text \<open>\<open>ps2netfs_req_sync\<close> sends the first 10 bytes of its 266.\<close>

definition ps2netfs_req_sync ::
  "string \<Rightarrow> int \<Rightarrow> ('fs, 'z) link_scheme \<Rightarrow> (int \<times> ('fs, 'z) link_scheme) outcome" where
  "ps2netfs_req_sync path flag s =
     netfs_exchange sizeof_pkt_file_rly (int sizeof_pkt_file_rly) PS2NETFS_SYNC_RLY
       (build_flags PS2NETFS_SYNC_CMD path flag s)"

text \<open>
  \<open>delete\<close> and \<open>format\<close> build the same packet: the command \<open>REMOVE\<close>, and in the 16 bits of the length
  the low half of \<open>htonl(sizeof(pkt_file_req))\<close>; the path is left as it was when \<open>path\<close> is \<open>NULL\<close>.
\<close>

definition build_remove :: "string option \<Rightarrow> int \<Rightarrow> ('fs, 'z) link_scheme \<Rightarrow> ('fs, 'z) link_scheme" where
  "build_remove path flags s =
     (let req = (view_file_req (send_packet s))\<lparr>p_cmd := htonl PS2NETFS_REMOVE_CMD,
            p_len := ucast (htonl (of_nat sizeof_pkt_file_req)), fq_flags := htonl (of_cint flags)\<rparr>;
          req = (case path of None \<Rightarrow> req | Some path \<Rightarrow> req\<lparr>fq_path := strncpy path MAX_PATH\<rparr>)
      in build enc_file_req req s)"

definition ps2netfs_req_delete ::
  "string option \<Rightarrow> int \<Rightarrow> ('fs, 'z) link_scheme \<Rightarrow> (int \<times> ('fs, 'z) link_scheme) outcome" where
  "ps2netfs_req_delete path flags s =
     netfs_exchange sizeof_pkt_file_req (int sizeof_pkt_file_rly) PS2NETFS_REMOVE_RLY
       (build_remove path flags s)"

definition ps2netfs_req_format ::
  "string option \<Rightarrow> int \<Rightarrow> ('fs, 'z) link_scheme \<Rightarrow> (int \<times> ('fs, 'z) link_scheme) outcome" where
  "ps2netfs_req_format path flags s =
     netfs_exchange sizeof_pkt_file_req (int sizeof_pkt_file_rly) PS2NETFS_FORMAT_RLY
       (build_remove path flags s)"

section \<open>Listings\<close>

text \<open>\<open>ps2netfs_showMode\<close>: the string it prints.\<close>

definition mode_char :: "u16 \<Rightarrow> nat \<Rightarrow> char" where
  "mode_char mode i =
     (if push_bit i 1 AND mode \<noteq> 0 then
        (if i = 9 then CHR ''s'' else if i mod 3 = 2 then CHR ''r''
         else if i mod 3 = 1 then CHR ''w'' else CHR ''x'')
      else CHR ''-'')"

definition ps2netfs_showMode :: "u16 \<Rightarrow> string" where
  "ps2netfs_showMode mode =
     (if mode AND 0x1000 \<noteq> 0 then CHR ''d'' else if mode AND 0x4000 \<noteq> 0 then CHR ''l'' else CHR ''-'')
     # map (mode_char mode) (rev [0..<9])"

text \<open>\<open>ps2netfs_showStat\<close>: the mode and the name of the month it prints, from a table of twelve.\<close>

definition strMonth :: "string list" where
  "strMonth = [''Jan'', ''Feb'', ''Mar'', ''Apr'', ''May'', ''Jun'', ''Jul'', ''Aug'', ''Sep'', ''Oct'',
     ''Nov'', ''Dec'']"

definition ps2netfs_showStat :: "ps2netfs_dirent \<Rightarrow> (string \<times> string) outcome" where
  "ps2netfs_showStat st =
     (let month = uint (de_mtime st ! 5) - 1
      in oguard (5 < length (de_mtime st) \<and> 0 \<le> month \<and> month < 12)
           (Ret (ps2netfs_showMode (ucast (de_mode st)), strMonth ! nat month)))"

section \<open>Accepting a reply\<close>

lemma accept_pkt_header:
  assumes wf: "wf_link s" and strm: "stream (rx s sock) = be32 cmd @ be16 hlen @ rest"
  obtains es where "ps2netfs_accept_pkt sock len pkt_type s =
     (let s1 = s\<lparr>rx := (rx s)(sock := es),
            recv_packet := poke 0 (be32 cmd @ be16 hlen) (recv_packet s)\<rparr> in
      if cmd \<noteq> pkt_type then Ret (0, (close_fd (ps2_netfs_fd s1) s1)\<lparr>ps2_netfs_fd := -1\<rparr>)
      else if uint hlen > len then Ret (0, s1)
      else obind (recv_into_packet sock 6 (uint hlen - 6) s1)
             (\<lambda>(r, s). if of_cint r = 0 then Ret (0, s) else Ret (1, s)))"
    and "stream es = rest"
proof -
  obtain es where rcv: "recv_into_packet sock 0 6 s = Ret (6, s\<lparr>rx := (rx s)(sock := es),
      recv_packet := poke 0 (take 6 (stream (rx s sock))) (recv_packet s)\<rparr>)"
    and es: "stream es = drop 6 (stream (rx s sock))"
    using recv_into_packet_at [of 6 0 s sock] wf strm by (auto simp: wf_link_def)
  have "take 6 (stream (rx s sock)) = be32 cmd @ be16 hlen" "drop 6 (stream (rx s sock)) = rest"
    by (simp_all add: strm)
  moreover have "view_hdr (poke 0 (be32 cmd @ be16 hlen) (recv_packet s)) =
      \<lparr>p_cmd = htonl cmd, p_len = htons hlen\<rparr>"
    by (rule view_hdr_packet) (simp add: poke_def)
  moreover have "of_cint 6 \<noteq> 0" by (simp add: of_cint_def)
  ultimately show thesis
    using rcv es that [of es] by (simp add: ps2netfs_accept_pkt_def Let_def cong: if_cong)
qed

lemma accept_pkt_packet:
  assumes wf: "wf_link s" and strm: "stream (rx s sock) = packet cmd body @ rest"
    and len: "6 + int (length body) \<le> len" "len \<le> int PACKET_MAXSIZE" and body: "body \<noteq> []"
  obtains es where "ps2netfs_accept_pkt sock len cmd s = Ret (1, s\<lparr>rx := (rx s)(sock := es),
      recv_packet := poke 0 (packet cmd body) (recv_packet s)\<rparr>)"
    and "stream es = rest"
proof -
  define hlen :: u16 where "hlen = of_nat (6 + length body)"
  have hlen: "uint hlen = 6 + int (length body)"
    using len unfolding hlen_def by (subst uint_length16) auto
  have strm': "stream (rx s sock) = be32 cmd @ be16 hlen @ body @ rest"
    by (simp add: strm packet_def hlen_def)
  define buf where "buf = poke 0 (be32 cmd @ be16 hlen) (recv_packet s)"
  obtain es where acc: "ps2netfs_accept_pkt sock len cmd s =
     (let s1 = s\<lparr>rx := (rx s)(sock := es), recv_packet := buf\<rparr> in
      if cmd \<noteq> cmd then Ret (0, (close_fd (ps2_netfs_fd s1) s1)\<lparr>ps2_netfs_fd := -1\<rparr>)
      else if uint hlen > len then Ret (0, s1)
      else obind (recv_into_packet sock 6 (uint hlen - 6) s1)
             (\<lambda>(r, s). if of_cint r = 0 then Ret (0, s) else Ret (1, s)))"
    and es: "stream es = body @ rest"
    using accept_pkt_header [OF wf strm'] unfolding buf_def .
  define s1 where "s1 = s\<lparr>rx := (rx s)(sock := es), recv_packet := buf\<rparr>"
  have "length buf = PACKET_MAXSIZE" using wf by (simp add: buf_def wf_link_def length_poke)
  then obtain es' where rcv: "recv_into_packet sock 6 (int (length body)) s1 =
      Ret (int (length body), s1\<lparr>rx := (rx s1)(sock := es'), recv_packet := poke 6 body buf\<rparr>)"
    and es': "stream es' = rest"
    using recv_into_packet_at [of "int (length body)" 6 s1 sock] len es by (auto simp: s1_def)
  have "of_cint (int (length body)) \<noteq> 0"
    using body len by (subst of_cint_eq_0_iff) (auto simp: is_cint_def)
  with acc rcv len(1) have "ps2netfs_accept_pkt sock len cmd s =
      Ret (1, s1\<lparr>rx := (rx s1)(sock := es'), recv_packet := poke 6 body buf\<rparr>)"
    by (simp add: hlen s1_def [symmetric])
  moreover have "poke 6 body buf = poke 0 (packet cmd body) (recv_packet s)"
    by (simp add: buf_def poke_def packet_def hlen_def add.commute)
  ultimately have "ps2netfs_accept_pkt sock len cmd s = Ret (1, s\<lparr>rx := (rx s)(sock := es'),
      recv_packet := poke 0 (packet cmd body) (recv_packet s)\<rparr>)"
    by (simp add: s1_def)
  with es' that show thesis by blast
qed

text \<open>
  C23. \<open>ps2netfs_accept_pkt\<close> and a reply at the head of the stream. A packet of the expected kind
  that has a body and fits is taken whole, the buffer holds it and the stream is at the next one. A
  packet of another kind closes the connection and forgets its descriptor. One that announces more
  than the caller has room for is refused after its header: its body stays in the stream, where the
  next call reads it as a header. One that is only a header is refused although it was received.
\<close>

theorem accept_pkt_cases:
  assumes wf: "wf_link s" and strm: "stream (rx s sock) = packet cmd body @ rest"
    and len: "len \<le> int PACKET_MAXSIZE" and size: "length body < 65530"
  shows "\<exists>r s'. ps2netfs_accept_pkt sock len pkt_type s = Ret (r, s') \<and>
     (if cmd \<noteq> pkt_type then
        r = 0 \<and> ps2_netfs_fd s' = -1 \<and> closed s' = closed s @ [ps2_netfs_fd s] \<and> stream (rx s' sock) = body @ rest
      else if 6 + int (length body) > len then r = 0 \<and> closed s' = closed s \<and> stream (rx s' sock) = body @ rest
      else if body = [] then r = 0 \<and> closed s' = closed s \<and> stream (rx s' sock) = rest
      else r = 1 \<and> closed s' = closed s \<and> take (6 + length body) (recv_packet s') = packet cmd body \<and>
        stream (rx s' sock) = rest)"
proof (cases "cmd = pkt_type \<and> 6 + int (length body) \<le> len \<and> body \<noteq> []")
  case True
  then obtain es where "ps2netfs_accept_pkt sock len pkt_type s = Ret (1, s\<lparr>rx := (rx s)(sock := es),
      recv_packet := poke 0 (packet cmd body) (recv_packet s)\<rparr>)" "stream es = rest"
    using accept_pkt_packet [OF wf strm _ len] by auto
  moreover have "length (packet cmd body) = 6 + length body" by (simp add: packet_def)
  ultimately show ?thesis using True by (simp add: poke_def)
next
  case False
  define hlen :: u16 where "hlen = of_nat (6 + length body)"
  have hlen: "uint hlen = 6 + int (length body)"
    using size unfolding hlen_def by (subst uint_length16) auto
  have strm': "stream (rx s sock) = be32 cmd @ be16 hlen @ body @ rest"
    by (simp add: strm packet_def hlen_def)
  obtain es where acc: "ps2netfs_accept_pkt sock len pkt_type s =
     (let s1 = s\<lparr>rx := (rx s)(sock := es), recv_packet := poke 0 (be32 cmd @ be16 hlen) (recv_packet s)\<rparr> in
      if cmd \<noteq> pkt_type then Ret (0, (close_fd (ps2_netfs_fd s1) s1)\<lparr>ps2_netfs_fd := -1\<rparr>)
      else if uint hlen > len then Ret (0, s1)
      else obind (recv_into_packet sock 6 (uint hlen - 6) s1)
             (\<lambda>(r, s). if of_cint r = 0 then Ret (0, s) else Ret (1, s)))"
    and es: "stream es = body @ rest"
    using accept_pkt_header [OF wf strm'] .
  consider "cmd \<noteq> pkt_type" | "cmd = pkt_type" "len < uint hlen" | "cmd = pkt_type" "\<not> len < uint hlen" "body = []"
    using False hlen by linarith
  then show ?thesis
    using acc es by cases (simp_all add: Let_def hlen close_fd_def of_cint_def)
qed

theorem accept_pkt_cases_witness:
  "\<exists>s'. ps2netfs_accept_pkt 5 10 PS2NETFS_OPEN_RLY
     ((link_init ())\<lparr>rx := \<lambda>_. [Arrive [0xbe, 0xef], Arrive (drop 2 (packet PS2NETFS_OPEN_RLY (be32 3)))]\<rparr>)
     = Ret (1, s') \<and> take 10 (recv_packet s') = packet PS2NETFS_OPEN_RLY (be32 3) \<and> stream (rx s' 5) = []"
proof -
  have "[0xbe, 0xef] @ drop 2 (packet PS2NETFS_OPEN_RLY (be32 3)) = packet PS2NETFS_OPEN_RLY (be32 3)"
    by (simp add: packet_def be32_def le32_def)
  with accept_pkt_cases [of "(link_init ())\<lparr>rx := \<lambda>_. [Arrive [0xbe, 0xef],
      Arrive (drop 2 (packet PS2NETFS_OPEN_RLY (be32 3)))]\<rparr>" 5 PS2NETFS_OPEN_RLY "be32 3" "[]" 10
      PS2NETFS_OPEN_RLY]
  show ?thesis by (auto simp: wf_link_def link_init_def be32_def le32_def)
qed

section \<open>What the requests share\<close>

text \<open>The answer to a request: a reply of kind \<open>rly\<close> that starts with the value \<open>v\<close>.\<close>

definition answers :: "u32 \<Rightarrow> u32 \<Rightarrow> byte list \<Rightarrow> byte list \<Rightarrow> ('fs, 'z) link_scheme \<Rightarrow> bool" where
  "answers rly v extra rest s \<longleftrightarrow> stream (rx s (ps2_netfs_fd s)) = packet rly (be32 v @ extra) @ rest"

lemma netfs_retval_packet:
  "netfs_retval (s\<lparr>recv_packet := poke 0 (packet rly (be32 v @ extra)) buf\<rparr>) = to_cint v"
proof -
  have "view_file_rly (enc_file_rly \<lparr>p_cmd = htonl rly, p_len = htons (of_nat (10 + length extra)), fy_retval = htonl v\<rparr> @ r) =
      \<lparr>p_cmd = htonl rly, p_len = htons (of_nat (10 + length extra)), fy_retval = htonl v\<rparr>" for r
    by (rule file_rly.view_enc) (simp add: ok_file_rly_def)
  then show ?thesis
    by (simp add: netfs_retval_def poke_def packet_def enc_file_rly_def order_simps)
qed

text \<open>A plain reply of the service.\<close>

definition netfs_reply :: "u32 \<Rightarrow> int \<Rightarrow> byte list" where
  "netfs_reply rly k = packet rly (be32 (of_cint k))"

locale netfs_request =
  fixes op :: "('fs, 'z) link_scheme \<Rightarrow> (int \<times> ('fs, 'z) link_scheme) outcome"
    and prepare :: "('fs, 'z) link_scheme \<Rightarrow> ('fs, 'z) link_scheme"
    and n :: nat
    and len :: int
    and rly :: u32
  assumes op_exchange: "op s = netfs_exchange n len rly (prepare s)"
    and prepare_only: "prepare s = s\<lparr>send_packet := send_packet (prepare s)\<rparr>"
    and prepare_length: "wf_link s \<Longrightarrow> length (send_packet (prepare s)) = PACKET_MAXSIZE"
    and room: "10 \<le> len" "len \<le> int PACKET_MAXSIZE"
begin

lemma prepared:
  assumes "wf_link s" and "tx_plan s (ps2_netfs_fd s) = []"
  obtains "wf_link (send_netfs n (prepare s))"
    and "send_netfs n (prepare s) = s\<lparr>send_packet := send_packet (prepare s),
      tx_log := tx_log s @ [(ps2_netfs_fd s, take n (send_packet (prepare s)))]\<rparr>"
proof -
  have "prepare s = s\<lparr>send_packet := send_packet (prepare s)\<rparr>" by (rule prepare_only)
  then have fields: "tx_plan (prepare s) = tx_plan s" "tx_log (prepare s) = tx_log s"
    "ps2_netfs_fd (prepare s) = ps2_netfs_fd s" "recv_packet (prepare s) = recv_packet s"
    by (metis link.select_convs link.surjective link.update_convs(6))+
  have "send_netfs n (prepare s) = (prepare s)\<lparr>tx_log := tx_log s @
      [(ps2_netfs_fd s, take n (send_packet (prepare s)))]\<rparr>"
    using assms(2) by (simp add: send_netfs_def send_fd_open fields)
  also have "\<dots> = s\<lparr>send_packet := send_packet (prepare s),
      tx_log := tx_log s @ [(ps2_netfs_fd s, take n (send_packet (prepare s)))]\<rparr>"
    by (subst prepare_only) simp
  finally show thesis using that assms(1) prepare_length [OF assms(1)] by (simp add: wf_link_def)
qed

lemma answered_state:
  assumes "wf_link s" and "tx_plan s (ps2_netfs_fd s) = []"
    and "answers rly v extra rest s" and "10 + int (length extra) \<le> len"
  obtains es where "op s = Ret (to_cint v, s\<lparr>rx := (rx s)(ps2_netfs_fd s := es),
      send_packet := send_packet (prepare s),
      tx_log := tx_log s @ [(ps2_netfs_fd s, take n (send_packet (prepare s)))],
      recv_packet := poke 0 (packet rly (be32 v @ extra)) (recv_packet s)\<rparr>)"
    and "stream es = rest"
proof -
  let ?s = "send_netfs n (prepare s)"
  have wf: "wf_link ?s" and s: "?s = s\<lparr>send_packet := send_packet (prepare s),
      tx_log := tx_log s @ [(ps2_netfs_fd s, take n (send_packet (prepare s)))]\<rparr>"
    using prepared [OF assms(1,2)] by blast+
  have "stream (rx ?s (ps2_netfs_fd s)) = packet rly (be32 v @ extra) @ rest"
    using assms(3) by (subst s) (simp add: answers_def)
  moreover have "6 + int (length (be32 v @ extra)) \<le> len" "be32 v @ extra \<noteq> []"
    using assms(4) by (auto simp: be32_def le32_def)
  ultimately obtain es where acc: "ps2netfs_accept_pkt (ps2_netfs_fd s) len rly ?s =
      Ret (1, ?s\<lparr>rx := (rx ?s)(ps2_netfs_fd s := es),
        recv_packet := poke 0 (packet rly (be32 v @ extra)) (recv_packet ?s)\<rparr>)"
    and es: "stream es = rest"
    using accept_pkt_packet [OF wf] room(2) by blast
  define s' where "s' = ?s\<lparr>rx := (rx ?s)(ps2_netfs_fd s := es),
      recv_packet := poke 0 (packet rly (be32 v @ extra)) (recv_packet ?s)\<rparr>"
  have "ps2_netfs_fd ?s = ps2_netfs_fd s" by (subst s) simp
  moreover have "netfs_retval s' = to_cint v"
    unfolding s'_def by (rule netfs_retval_packet)
  ultimately have "op s = Ret (to_cint v, s')"
    using acc by (simp add: op_exchange netfs_exchange_def Let_def s'_def)
  moreover have "s' = s\<lparr>rx := (rx s)(ps2_netfs_fd s := es), send_packet := send_packet (prepare s),
      tx_log := tx_log s @ [(ps2_netfs_fd s, take n (send_packet (prepare s)))],
      recv_packet := poke 0 (packet rly (be32 v @ extra)) (recv_packet s)\<rparr>"
    unfolding s'_def by (subst (1 2 3) s) simp
  ultimately show thesis using es that by simp
qed

lemma answered_keeps:
  assumes "wf_link s" and "tx_plan s (ps2_netfs_fd s) = []"
    and "answers rly v extra rest s" and "10 + int (length extra) \<le> len"
  shows "\<exists>s'. op s = Ret (to_cint v, s') \<and> stream (rx s' (ps2_netfs_fd s)) = rest \<and>
     tx_log s' = tx_log s @ [(ps2_netfs_fd s, take n (send_packet (prepare s)))] \<and>
     ps2_netfs_fd s' = ps2_netfs_fd s \<and> wf_link s' \<and> tx_plan s' = tx_plan s \<and> host s' = host s"
proof -
  have "length (poke 0 (packet rly (be32 v @ extra)) (recv_packet s)) = PACKET_MAXSIZE"
    using assms(1,4) room(2) by (subst length_poke) (auto simp: wf_link_def packet_def)
  moreover obtain es where "op s = Ret (to_cint v, s\<lparr>rx := (rx s)(ps2_netfs_fd s := es),
      send_packet := send_packet (prepare s),
      tx_log := tx_log s @ [(ps2_netfs_fd s, take n (send_packet (prepare s)))],
      recv_packet := poke 0 (packet rly (be32 v @ extra)) (recv_packet s)\<rparr>)" "stream es = rest"
    using answered_state [OF assms] .
  ultimately show ?thesis
    using prepare_length [OF assms(1)] by (simp add: wf_link_def)
qed

lemma replied:
  assumes "wf_link s" and "tx_plan s (ps2_netfs_fd s) = []"
    and "stream (rx s (ps2_netfs_fd s)) = netfs_reply rly k @ rest"
  obtains s' where "op s = Ret (to_cint (of_cint k), s')" and "stream (rx s' (ps2_netfs_fd s')) = rest"
    and "tx_log s' = tx_log s @ [(ps2_netfs_fd s, take n (send_packet (prepare s)))]"
    and "ps2_netfs_fd s' = ps2_netfs_fd s" and "wf_link s'" and "tx_plan s' (ps2_netfs_fd s') = []" and "host s' = host s"
proof -
  have "answers rly (of_cint k) [] rest s" using assms(3) by (simp add: answers_def netfs_reply_def)
  then show thesis using answered_keeps [OF assms(1,2)] room(1) assms(2) that by fastforce
qed

lemma answered:
  assumes "wf_link s" and "tx_plan s (ps2_netfs_fd s) = []"
    and "answers rly v extra rest s" and "10 + int (length extra) \<le> len"
  shows "\<exists>s'. op s = Ret (to_cint v, s') \<and> stream (rx s' (ps2_netfs_fd s)) = rest \<and>
     tx_log s' = tx_log s @ [(ps2_netfs_fd s, take n (send_packet (prepare s)))] \<and>
     ps2_netfs_fd s' = ps2_netfs_fd s \<and> wf_link s'"
  using answered_keeps [OF assms] by blast

lemma peer_closed:
  assumes "wf_link s" and "tx_plan s (ps2_netfs_fd s) = []"
    and "stream (rx s (ps2_netfs_fd s)) = []" and "script_end (rx s (ps2_netfs_fd s)) = Closes"
  shows "\<exists>s'. op s = Ret (netfs_retval s, s') \<and> ps2_netfs_fd s' = ps2_netfs_fd s \<and> closed s' = closed s"
proof -
  let ?s = "send_netfs n (prepare s)"
  have s: "?s = s\<lparr>send_packet := send_packet (prepare s),
      tx_log := tx_log s @ [(ps2_netfs_fd s, take n (send_packet (prepare s)))]\<rparr>"
    using prepared [OF assms(1,2)] by blast
  have "rx ?s = rx s" by (subst s) simp
  then obtain es where
    "recv_into_packet (ps2_netfs_fd s) 0 6 ?s = Ret (0, ?s\<lparr>rx := (rx ?s)(ps2_netfs_fd s := es)\<rparr>)"
    using recv_into_packet_eof [of 6 ?s "ps2_netfs_fd s" 0] assms(3,4) by auto
  moreover have fd: "ps2_netfs_fd ?s = ps2_netfs_fd s" "recv_packet ?s = recv_packet s" "closed ?s = closed s"
    by (subst s, simp)+
  ultimately have "op s = Ret (netfs_retval s, ?s\<lparr>rx := (rx ?s)(ps2_netfs_fd s := es)\<rparr>)"
    by (simp add: op_exchange netfs_exchange_def ps2netfs_accept_pkt_def Let_def of_cint_def netfs_retval_def)
  then show ?thesis by (simp add: fd)
qed

end

lemma length_strncpy_256 [simp]: "length (strncpy p MAX_PATH) = 256"
  by simp

lemma build_only:
  "build_open path mode s = s\<lparr>send_packet := send_packet (build_open path mode s)\<rparr>"
  "build_close cmd fd s = s\<lparr>send_packet := send_packet (build_close cmd fd s)\<rparr>"
  "build_lseek fd off wh s = s\<lparr>send_packet := send_packet (build_lseek fd off wh s)\<rparr>"
  "build_path cmd path s = s\<lparr>send_packet := send_packet (build_path cmd path s)\<rparr>"
  "build_mount f d fl a al s = s\<lparr>send_packet := send_packet (build_mount f d fl a al s)\<rparr>"
  "build_flags cmd path flags s = s\<lparr>send_packet := send_packet (build_flags cmd path flags s)\<rparr>"
  "build_remove opath flags s = s\<lparr>send_packet := send_packet (build_remove opath flags s)\<rparr>"
  by (simp_all add: build_open_def build_close_def build_lseek_def build_path_def build_mount_def
      build_flags_def build_remove_def Let_def)

lemma build_length:
  assumes "wf_link s"
  shows "length (send_packet (build_open path mode s)) = PACKET_MAXSIZE"
    "length (send_packet (build_close cmd fd s)) = PACKET_MAXSIZE"
    "length (send_packet (build_lseek fd off wh s)) = PACKET_MAXSIZE"
    "length (send_packet (build_path cmd path s)) = PACKET_MAXSIZE"
    "length (send_packet (build_mount f d fl a al s)) = PACKET_MAXSIZE"
    "length (send_packet (build_flags cmd path flags s)) = PACKET_MAXSIZE"
    "length (send_packet (build_remove opath flags s)) = PACKET_MAXSIZE"
  using assms file_req.ok_view [of "send_packet s"]
  by (simp_all add: build_open_def build_close_def build_lseek_def build_path_def build_mount_def
      build_flags_def build_remove_def Let_def wf_link_def file_req.length_store close_req.length_store
      lseek_req.length_store mount_req.length_store ok_file_req_def ok_close_req_def
      ok_lseek_req_def ok_mount_req_def split: option.splits)

interpretation req_open: netfs_request "ps2netfs_req_open path mode" "build_open path mode" 266 10
  PS2NETFS_OPEN_RLY for path mode
  by (unfold_locales, simp add: ps2netfs_req_open_def, rule build_only, erule build_length, simp_all)
interpretation req_close: netfs_request "ps2netfs_req_close fd" "build_close PS2NETFS_CLOSE_CMD fd" 10 10
  PS2NETFS_CLOSE_RLY for fd
  by (unfold_locales, simp add: ps2netfs_req_close_def, rule build_only, erule build_length, simp_all)
interpretation req_dclose: netfs_request "ps2netfs_req_dclose fd" "build_close PS2NETFS_DCLOSE_CMD fd" 10 10
  PS2NETFS_DCLOSE_RLY for fd
  by (unfold_locales, simp add: ps2netfs_req_dclose_def, rule build_only, erule build_length, simp_all)
interpretation req_lseek: netfs_request "ps2netfs_req_lseek fd offset whence" "build_lseek fd offset whence" 18 10
  PS2NETFS_LSEEK_RLY for fd offset whence
  by (unfold_locales, simp add: ps2netfs_req_lseek_def, rule build_only, erule build_length, simp_all)
interpretation req_dopen: netfs_request "ps2netfs_req_dopen path" "build_path PS2NETFS_DOPEN_CMD path" 266 10
  PS2NETFS_DOPEN_RLY for path
  by (unfold_locales, simp add: ps2netfs_req_dopen_def, rule build_only, erule build_length, simp_all)
interpretation req_mkdir: netfs_request "ps2netfs_req_mkdir path" "build_path PS2NETFS_MKDIR_CMD path" 266 10
  PS2NETFS_MKDIR_RLY for path
  by (unfold_locales, simp add: ps2netfs_req_mkdir_def, rule build_only, erule build_length, simp_all)
interpretation req_mount: netfs_request "ps2netfs_req_mount f d fl a al" "build_mount f d fl a al" 782 782
  PS2NETFS_MOUNT_RLY for f d fl a al
  by (unfold_locales, simp add: ps2netfs_req_mount_def, rule build_only, erule build_length, simp_all)
interpretation req_rmdir: netfs_request "ps2netfs_req_rmdir path" "build_flags PS2NETFS_RMDIR_CMD path 0" 266 10
  PS2NETFS_RMDIR_RLY for path
  by (unfold_locales, simp add: ps2netfs_req_rmdir_def, rule build_only, erule build_length, simp_all)
interpretation req_sync: netfs_request "ps2netfs_req_sync path flag" "build_flags PS2NETFS_SYNC_CMD path flag" 10 10
  PS2NETFS_SYNC_RLY for path flag
  by (unfold_locales, simp add: ps2netfs_req_sync_def, rule build_only, erule build_length, simp_all)
interpretation req_delete: netfs_request "ps2netfs_req_delete opath flags" "build_remove opath flags" 266 10
  PS2NETFS_REMOVE_RLY for opath flags
  by (unfold_locales, simp add: ps2netfs_req_delete_def, rule build_only, erule build_length, simp_all)
interpretation req_format: netfs_request "ps2netfs_req_format opath flags" "build_remove opath flags" 266 10
  PS2NETFS_FORMAT_RLY for opath flags
  by (unfold_locales, simp add: ps2netfs_req_format_def, rule build_only, erule build_length, simp_all)

text \<open>
  What the functions put on the connection: the fields in network byte order at their places. The bytes that are not
  assigned, the flags of \<open>dopen\<close> and \<open>mkdir\<close> and the path of a removal without one, are those an
  earlier packet left in the buffer.
\<close>

lemma wire_open: "take 266 (send_packet (build_open path mode s)) = packet PS2NETFS_OPEN_CMD (be32 mode @ strncpy path 256)"
  by (simp add: build_open_def store_def poke_def enc_file_req_def packet_def order_simps)

lemma wire_close: "take 10 (send_packet (build_close cmd fd s)) = packet cmd (be32 (of_cint fd))"
  by (simp add: build_close_def store_def poke_def enc_close_req_def packet_def order_simps)

lemma wire_lseek:
  "take 18 (send_packet (build_lseek fd offset whence s)) =
     packet PS2NETFS_LSEEK_CMD (be32 (of_cint fd) @ be32 (of_cint offset) @ be32 (of_cint whence))"
  by (simp add: build_lseek_def store_def poke_def enc_lseek_req_def packet_def order_simps)

lemma wire_path:
  "wf_link s \<Longrightarrow> take 266 (send_packet (build_path cmd path s)) = packet cmd (peek 6 4 (send_packet s) @ strncpy path 256)"
  by (simp add: build_path_def store_def poke_def enc_file_req_def view_file_req_def packet_def order_simps le32_peek
      length_peek wf_link_def)

lemma wire_mount:
  "take 782 (send_packet (build_mount f d fl a al s)) =
     packet PS2NETFS_MOUNT_CMD (strncpy f 256 @ strncpy d 256 @ be32 (of_cint fl) @ strncpy a 256 @ be32 (of_cint al))"
  by (simp add: build_mount_def store_def poke_def enc_mount_req_def packet_def order_simps)

lemma wire_flags:
  "take 266 (send_packet (build_flags cmd path flags s)) = packet cmd (be32 (of_cint flags) @ strncpy path 256)"
  "take 10 (send_packet (build_flags cmd path flags s)) = be32 cmd @ be16 266 @ be32 (of_cint flags)"
  by (simp_all add: build_flags_def store_def poke_def enc_file_req_def packet_def order_simps)

lemma wire_remove:
  assumes "wf_link s"
  shows "take 266 (send_packet (build_remove opath flags s)) =
     be32 PS2NETFS_REMOVE_CMD @ be16 0 @ be32 (of_cint flags) @
       (case opath of None \<Rightarrow> peek 10 256 (send_packet s) | Some path \<Rightarrow> strncpy path 256)"
proof -
  have "le16 (ucast (htonl 266)) = be16 0"
    by (simp add: htonl_def le32_def le16_def be16_def)
  then show ?thesis using assms
    by (simp add: build_remove_def Let_def store_def poke_def enc_file_req_def view_file_req_def order_simps
        length_peek wf_link_def split: option.splits)
qed

lemmas wire_requests = wire_open wire_close wire_lseek wire_mount wire_flags

text \<open>
  C22. The eleven requests with a plain reply, when the connection takes the request and the reply is
  at the head of the stream: exactly these bytes are sent, as one packet; the function returns the value in the
  reply; the stream is left behind the reply, the connection stays open. \<open>sync\<close> sends the first ten bytes of a
  packet that announces 266, and \<open>format\<close> sends what \<open>delete\<close> does, with the length 0.
\<close>

theorem netfs_requests_answered:
  assumes "(op, wire, rly) \<in>
      {(ps2netfs_req_open path mode, packet PS2NETFS_OPEN_CMD (be32 mode @ strncpy path 256), PS2NETFS_OPEN_RLY),
       (ps2netfs_req_close fd, packet PS2NETFS_CLOSE_CMD (be32 (of_cint fd)), PS2NETFS_CLOSE_RLY),
       (ps2netfs_req_dclose fd, packet PS2NETFS_DCLOSE_CMD (be32 (of_cint fd)), PS2NETFS_DCLOSE_RLY),
       (ps2netfs_req_lseek fd offset whence,
          packet PS2NETFS_LSEEK_CMD (be32 (of_cint fd) @ be32 (of_cint offset) @ be32 (of_cint whence)), PS2NETFS_LSEEK_RLY),
       (ps2netfs_req_dopen path, packet PS2NETFS_DOPEN_CMD (peek 6 4 (send_packet s) @ strncpy path 256), PS2NETFS_DOPEN_RLY),
       (ps2netfs_req_mkdir path, packet PS2NETFS_MKDIR_CMD (peek 6 4 (send_packet s) @ strncpy path 256), PS2NETFS_MKDIR_RLY),
       (ps2netfs_req_mount f d fl a al, packet PS2NETFS_MOUNT_CMD
          (strncpy f 256 @ strncpy d 256 @ be32 (of_cint fl) @ strncpy a 256 @ be32 (of_cint al)), PS2NETFS_MOUNT_RLY),
       (ps2netfs_req_rmdir path, packet PS2NETFS_RMDIR_CMD (be32 0 @ strncpy path 256), PS2NETFS_RMDIR_RLY),
       (ps2netfs_req_sync path fl, be32 PS2NETFS_SYNC_CMD @ be16 266 @ be32 (of_cint fl), PS2NETFS_SYNC_RLY),
       (ps2netfs_req_delete opath fl, be32 PS2NETFS_REMOVE_CMD @ be16 0 @ be32 (of_cint fl) @
          (case opath of None \<Rightarrow> peek 10 256 (send_packet s) | Some p \<Rightarrow> strncpy p 256), PS2NETFS_REMOVE_RLY),
       (ps2netfs_req_format opath fl, be32 PS2NETFS_REMOVE_CMD @ be16 0 @ be32 (of_cint fl) @
          (case opath of None \<Rightarrow> peek 10 256 (send_packet s) | Some p \<Rightarrow> strncpy p 256), PS2NETFS_FORMAT_RLY)}"
    and wf: "wf_link s" and plan: "tx_plan s (ps2_netfs_fd s) = []"
    and reply: "answers rly v [] rest s"
  shows "\<exists>s'. op s = Ret (to_cint v, s') \<and> stream (rx s' (ps2_netfs_fd s)) = rest \<and>
     tx_log s' = tx_log s @ [(ps2_netfs_fd s, wire)] \<and> ps2_netfs_fd s' = ps2_netfs_fd s \<and> wf_link s'"
proof -
  have zero: "be32 0 = be32 (of_cint 0)" by (simp add: of_cint_def)
  note answered = req_open.answered [OF wf plan] req_close.answered [OF wf plan]
      req_dclose.answered [OF wf plan] req_lseek.answered [OF wf plan] req_dopen.answered [OF wf plan]
      req_mkdir.answered [OF wf plan] req_mount.answered [OF wf plan] req_rmdir.answered [OF wf plan]
      req_sync.answered [OF wf plan] req_delete.answered [OF wf plan] req_format.answered [OF wf plan]
  show ?thesis
    using assms(1) reply by (auto simp: zero intro!: answered [unfolded wire_requests wire_path [OF wf] wire_remove [OF wf]])
qed

text \<open>A service that has answered 7 to an \<open>lseek\<close>, on descriptor 5.\<close>

definition netfs_example :: "unit link" where
  "netfs_example = (link_init ())\<lparr>ps2_netfs_fd := 5,
     rx := \<lambda>_. [Arrive (packet PS2NETFS_LSEEK_RLY (be32 7) @ [1, 2])]\<rparr>"

lemma netfs_example_simps [simp]:
  "wf_link netfs_example" "tx_plan netfs_example = (\<lambda>_. [])" "ps2_netfs_fd netfs_example = 5"
  "tx_log netfs_example = []" "answers PS2NETFS_LSEEK_RLY 7 [] [1, 2] netfs_example"
  by (simp_all add: netfs_example_def wf_link_def link_init_def answers_def)

theorem netfs_requests_answered_witness:
  "\<exists>s'. ps2netfs_req_lseek 3 0 2 netfs_example = Ret (7, s') \<and> stream (rx s' 5) = [1, 2] \<and>
     tx_log s' = [(5, be32 PS2NETFS_LSEEK_CMD @ be16 18 @ be32 3 @ be32 0 @ be32 2)]"
proof -
  have "packet PS2NETFS_LSEEK_CMD (be32 (of_cint 3) @ be32 (of_cint 0) @ be32 (of_cint 2)) =
      be32 PS2NETFS_LSEEK_CMD @ be16 18 @ be32 3 @ be32 0 @ be32 2"
    by (simp add: packet_def of_cint_def)
  then show ?thesis
    using netfs_requests_answered [where op = "ps2netfs_req_lseek 3 0 2" and rly = PS2NETFS_LSEEK_RLY and fd = 3 and offset = 0
        and whence = 2 and wire = "packet PS2NETFS_LSEEK_CMD (be32 (of_cint 3) @ be32 (of_cint 0) @ be32 (of_cint 2))"
        and s = netfs_example and v = 7 and rest = "[1, 2]"]
    by (simp add: to_cint_def) blast
qed

text \<open>
  A service that closed the connection is taken for a successful one: \<open>ps2netfs_accept_pkt\<close>
  returns -1, the callers test it with \<open>!\<close>, and every one of these functions returns whatever number
  is in the receive buffer from an earlier packet; the descriptor is neither closed nor forgotten.
\<close>

theorem netfs_closed_is_success:
  assumes "op \<in> {ps2netfs_req_open path mode, ps2netfs_req_close fd, ps2netfs_req_dclose fd,
       ps2netfs_req_lseek fd offset whence, ps2netfs_req_dopen path, ps2netfs_req_mkdir path,
       ps2netfs_req_mount f d fl a al, ps2netfs_req_rmdir path, ps2netfs_req_sync path fl,
       ps2netfs_req_delete opath fl, ps2netfs_req_format opath fl}"
    and wf: "wf_link s" and plan: "tx_plan s (ps2_netfs_fd s) = []"
    and fin: "stream (rx s (ps2_netfs_fd s)) = []" "script_end (rx s (ps2_netfs_fd s)) = Closes"
  shows "\<exists>s'. op s = Ret (netfs_retval s, s') \<and> ps2_netfs_fd s' = ps2_netfs_fd s \<and> closed s' = closed s"
  using assms(1)
  by (elim insertE emptyE)
     (simp_all add: req_open.peer_closed [OF wf plan fin] req_close.peer_closed [OF wf plan fin]
      req_dclose.peer_closed [OF wf plan fin] req_lseek.peer_closed [OF wf plan fin]
      req_dopen.peer_closed [OF wf plan fin] req_mkdir.peer_closed [OF wf plan fin]
      req_mount.peer_closed [OF wf plan fin] req_rmdir.peer_closed [OF wf plan fin]
      req_sync.peer_closed [OF wf plan fin] req_delete.peer_closed [OF wf plan fin]
      req_format.peer_closed [OF wf plan fin])

theorem netfs_closed_is_success_witness:
  "\<exists>s'. ps2netfs_req_open ''pfs0:/f'' 1 ((link_init ())\<lparr>ps2_netfs_fd := 5, rx := \<lambda>_. [PeerClosed],
     recv_packet := packet PS2NETFS_OPEN_RLY (be32 3) @ replicate 4086 0\<rparr>) = Ret (3, s') \<and> closed s' = []"
proof -
  let ?s = "(link_init ())\<lparr>ps2_netfs_fd := 5, rx := \<lambda>_. [PeerClosed],
     recv_packet := packet PS2NETFS_OPEN_RLY (be32 3) @ replicate 4086 0\<rparr>"
  have "netfs_retval ?s = 3"
    using netfs_retval_packet [where s = "link_init ()" and rly = PS2NETFS_OPEN_RLY and v = 3 and extra = "[]"
        and buf = "replicate 4096 0"]
    by (simp add: netfs_retval_def poke_def packet_def link_init_def to_cint_def)
  then show ?thesis
    using netfs_closed_is_success [of "ps2netfs_req_open ''pfs0:/f'' 1" "''pfs0:/f''" 1 0 0 0
        "''''" "''''" 0 "''''" 0 None ?s]
    by (simp add: wf_link_def link_init_def packet_def) blast
qed

section \<open>The requests as they go over the connection\<close>

definition open_request :: "string \<Rightarrow> u32 \<Rightarrow> byte list" where
  "open_request path mode = packet PS2NETFS_OPEN_CMD (be32 mode @ strncpy path MAX_PATH)"

definition close_request :: "int \<Rightarrow> byte list" where
  "close_request fd = packet PS2NETFS_CLOSE_CMD (be32 (of_cint fd))"

definition lseek_request :: "int \<Rightarrow> int \<Rightarrow> int \<Rightarrow> byte list" where
  "lseek_request fd offset whence =
     packet PS2NETFS_LSEEK_CMD (be32 (of_cint fd) @ be32 (of_cint offset) @ be32 (of_cint whence))"

definition read_request :: "int \<Rightarrow> int \<Rightarrow> byte list" where
  "read_request fd n = packet PS2NETFS_READ_CMD (be32 (of_cint fd) @ be32 (of_cint n))"

definition write_request :: "int \<Rightarrow> int \<Rightarrow> byte list" where
  "write_request fd n = packet PS2NETFS_WRITE_CMD (be32 (of_cint fd) @ be32 (of_cint n))"

lemma built_requests:
  "take 266 (send_packet (build_open path mode s)) = open_request path mode"
  "take 10 (send_packet (build_close PS2NETFS_CLOSE_CMD fd s)) = close_request fd"
  "take 18 (send_packet (build_lseek fd offset whence s)) = lseek_request fd offset whence"
  by (simp_all only: wire_requests open_request_def close_request_def lseek_request_def)

section \<open>Reading\<close>

lemma build_other [simp]:
  "ps2_netfs_fd (build enc r s) = ps2_netfs_fd s" "tx_plan (build enc r s) = tx_plan s"
  by simp_all

lemma send_netfs_open:
  "tx_plan s (ps2_netfs_fd s) = [] \<Longrightarrow> send_netfs n s = s\<lparr>tx_log := tx_log s @ [(ps2_netfs_fd s, take n (send_packet s))]\<rparr>"
  by (simp add: send_netfs_def send_fd_open)

text \<open>The run up to the data: the reply was taken, and as many bytes as it announces are received.\<close>

lemma read_accepted:
  assumes wf: "wf_link s" and plan: "tx_plan s (ps2_netfs_fd s) = []"
    and strm: "stream (rx s (ps2_netfs_fd s)) = packet PS2NETFS_READ_RLY (be32 v @ be32 k) @ rest"
    and pos: "0 < v"
  obtains es buf where "ps2netfs_req_read fd room n s =
      obind (pko_recv_bytes (ps2_netfs_fd s) room (to_cint v) (s\<lparr>rx := (rx s)(ps2_netfs_fd s := es), send_packet := buf,
        tx_log := tx_log s @ [(ps2_netfs_fd s, take sizeof_pkt_read_req buf)],
        recv_packet := poke 0 (packet PS2NETFS_READ_RLY (be32 v @ be32 k)) (recv_packet s)\<rparr>))
      (\<lambda>(r, bs, s). Ret (to_cint v, bs, s))"
    and "stream es = rest" and "length buf = PACKET_MAXSIZE" and "take sizeof_pkt_read_req buf = read_request fd n"
proof -
  define sock where "sock = ps2_netfs_fd s"
  define s1 where "s1 = send_netfs sizeof_pkt_read_req (build enc_read_req
      \<lparr>p_cmd = htonl PS2NETFS_READ_CMD, p_len = htons (of_nat sizeof_pkt_read_req),
       rq_fd = htonl (of_cint fd), rq_nbytes = htonl (of_cint n)\<rparr> s)"
  define buf where "buf = send_packet s1"
  have s1: "rx s1 = rx s" "ps2_netfs_fd s1 = sock" "wf_link s1"
    "s1 = s\<lparr>send_packet := buf, tx_log := tx_log s @ [(sock, take sizeof_pkt_read_req buf)]\<rparr>"
    using plan wf by (simp_all add: s1_def buf_def send_netfs_open sock_def wf_link_def
        read_req.length_store ok_read_req_def)
  have len: "length buf = PACKET_MAXSIZE" using s1(3) by (simp add: wf_link_def buf_def)
  have "buf = store enc_read_req \<lparr>p_cmd = htonl PS2NETFS_READ_CMD, p_len = htons (of_nat sizeof_pkt_read_req),
       rq_fd = htonl (of_cint fd), rq_nbytes = htonl (of_cint n)\<rparr> (send_packet s)"
    using plan by (simp add: buf_def s1_def send_netfs_open)
  then have head: "take sizeof_pkt_read_req buf = read_request fd n"
    using read_req.take_store [of "\<lparr>p_cmd = htonl PS2NETFS_READ_CMD, p_len = htons (of_nat sizeof_pkt_read_req),
       rq_fd = htonl (of_cint fd), rq_nbytes = htonl (of_cint n)\<rparr>" "send_packet s"]
    by (simp add: ok_read_req_def read_request_def packet_def enc_read_req_def order_simps)
  obtain es where acc: "ps2netfs_accept_pkt sock 14 PS2NETFS_READ_RLY s1 = Ret (1, s1\<lparr>rx := (rx s1)(sock := es),
      recv_packet := poke 0 (packet PS2NETFS_READ_RLY (be32 v @ be32 k)) (recv_packet s1)\<rparr>)"
    and es: "stream es = rest"
    using accept_pkt_packet [OF s1(3), of sock PS2NETFS_READ_RLY "be32 v @ be32 k" rest 14] strm
    by (auto simp: s1(1,2) sock_def be32_def le32_def)
  define s2 where "s2 = s1\<lparr>rx := (rx s1)(sock := es),
      recv_packet := poke 0 (packet PS2NETFS_READ_RLY (be32 v @ be32 k)) (recv_packet s1)\<rparr>"
  have "view_read_rly (enc_read_rly \<lparr>p_cmd = htonl PS2NETFS_READ_RLY, p_len = htons 14, ry_retval = htonl v,
      ry_nbytes = htonl k\<rparr> @ r) = \<lparr>p_cmd = htonl PS2NETFS_READ_RLY, p_len = htons 14, ry_retval = htonl v,
      ry_nbytes = htonl k\<rparr>" for r
    by (rule read_rly.view_enc) (simp add: ok_read_rly_def)
  then have view: "ry_retval (view_read_rly (recv_packet s2)) = htonl v"
    by (simp add: s2_def poke_def packet_def enc_read_rly_def order_simps)
  have same: "recv_packet s3 = recv_packet s2" if "pko_recv_bytes sock room m s2 = Ret (r, bs, s3)" for m r bs s3
    using that by (auto simp: pko_recv_bytes_def omap_Ret_iff)
  have "ps2netfs_req_read fd room n s = obind (pko_recv_bytes sock room (to_cint v) s2)
      (\<lambda>(r, bs, s). Ret (to_cint (ntohl (ry_retval (view_read_rly (recv_packet s)))), bs, s))"
    unfolding ps2netfs_req_read_def Let_def s1_def [symmetric]
    using acc view pos by (simp add: s1(2) s2_def)
  also have "\<dots> = obind (pko_recv_bytes sock room (to_cint v) s2) (\<lambda>(r, bs, s). Ret (to_cint v, bs, s))"
    using same view by (cases "pko_recv_bytes sock room (to_cint v) s2") auto
  finally have run: "ps2netfs_req_read fd room n s = obind (pko_recv_bytes sock room (to_cint v) s2)
      (\<lambda>(r, bs, s). Ret (to_cint v, bs, s))" .
  moreover have "s2 = s\<lparr>rx := (rx s)(ps2_netfs_fd s := es), send_packet := buf,
        tx_log := tx_log s @ [(ps2_netfs_fd s, take sizeof_pkt_read_req buf)],
        recv_packet := poke 0 (packet PS2NETFS_READ_RLY (be32 v @ be32 k)) (recv_packet s)\<rparr>"
    unfolding s2_def by (subst (1 2 3) s1(4)) (simp add: s1(1) sock_def)
  ultimately show thesis
    using es len head that [where es = es and buf = buf] by (simp add: sock_def)
qed

text \<open>A size as a value of the protocol.\<close>

lemma of_cint_length:
  assumes "0 < n" "n < 2 ^ 31"
  shows "to_cint (of_cint (int n)) = int n" "0 < of_cint (int n)"
proof -
  show v: "to_cint (of_cint (int n)) = int n"
    using assms(2) by (intro to_cint_of_cint) (simp add: is_cint_def)
  show "0 < of_cint (int n)"
    using v assms(1) by (cases "of_cint (int n) = 0") (auto simp: to_cint_def word_gt_0)
qed

lemma read_step:
  assumes wf: "wf_link s" and plan: "tx_plan s (ps2_netfs_fd s) = []"
    and strm: "stream (rx s (ps2_netfs_fd s)) =
      packet PS2NETFS_READ_RLY (be32 (of_cint (int (length data))) @ be32 k) @ data @ rest"
    and len: "0 < length data" "length data < 2 ^ 31" "length data \<le> room"
  obtains es buf where "ps2netfs_req_read fd room n s = Ret (int (length data), data,
      s\<lparr>rx := (rx s)(ps2_netfs_fd s := es), send_packet := buf, tx_log := tx_log s @ [(ps2_netfs_fd s, read_request fd n)],
        recv_packet := poke 0 (packet PS2NETFS_READ_RLY (be32 (of_cint (int (length data))) @ be32 k)) (recv_packet s)\<rparr>)"
    and "stream es = rest" and "length buf = PACKET_MAXSIZE"
proof -
  obtain es buf where run: "ps2netfs_req_read fd room n s =
      obind (pko_recv_bytes (ps2_netfs_fd s) room (int (length data)) (s\<lparr>rx := (rx s)(ps2_netfs_fd s := es), send_packet := buf,
        tx_log := tx_log s @ [(ps2_netfs_fd s, take sizeof_pkt_read_req buf)],
        recv_packet := poke 0 (packet PS2NETFS_READ_RLY (be32 (of_cint (int (length data))) @ be32 k)) (recv_packet s)\<rparr>))
      (\<lambda>(r, bs, s). Ret (int (length data), bs, s))"
    and es: "stream es = data @ rest" and buf: "length buf = PACKET_MAXSIZE"
    and head: "take sizeof_pkt_read_req buf = read_request fd n"
    using read_accepted [OF wf plan strm of_cint_length(2) [OF len(1,2)]] of_cint_length(1) [OF len(1,2)] by metis
  define s2 where "s2 = s\<lparr>rx := (rx s)(ps2_netfs_fd s := es), send_packet := buf,
        tx_log := tx_log s @ [(ps2_netfs_fd s, take sizeof_pkt_read_req buf)],
        recv_packet := poke 0 (packet PS2NETFS_READ_RLY (be32 (of_cint (int (length data))) @ be32 k)) (recv_packet s)\<rparr>"
  obtain es' where "pko_recv_bytes (ps2_netfs_fd s) room (int (length data)) s2 =
      Ret (int (length data), data, s2\<lparr>rx := (rx s2)(ps2_netfs_fd s := es')\<rparr>)" "stream es' = rest"
    using pko_recv_bytes_exact [of "int (length data)" room s2 "ps2_netfs_fd s"] len(3) es by (auto simp: s2_def)
  moreover have "s2\<lparr>rx := (rx s2)(ps2_netfs_fd s := es')\<rparr> = s\<lparr>rx := (rx s)(ps2_netfs_fd s := es'), send_packet := buf,
        tx_log := tx_log s @ [(ps2_netfs_fd s, take sizeof_pkt_read_req buf)],
        recv_packet := poke 0 (packet PS2NETFS_READ_RLY (be32 (of_cint (int (length data))) @ be32 k)) (recv_packet s)\<rparr>"
    by (simp add: s2_def)
  ultimately show thesis
    using that [where es = es' and buf = buf] run [folded s2_def] buf head by simp
qed

text \<open>
  \<open>ps2netfs_req_read\<close> trusts the size in the reply, not the one it asked for: the announced bytes
  are delivered exactly, and the stream is left behind them, when they fit the caller's object; a
  service that announces and sends more than that overflows it.
\<close>

theorem netfs_read_trusts_reply:
  assumes wf: "wf_link s" and plan: "tx_plan s (ps2_netfs_fd s) = []"
    and strm: "stream (rx s (ps2_netfs_fd s)) =
      packet PS2NETFS_READ_RLY (be32 (of_cint (int (length data))) @ be32 k) @ data @ rest"
    and size: "0 < length data" "length data < 2 ^ 31"
  shows "if length data \<le> room
     then \<exists>s'. ps2netfs_req_read fd room n s = Ret (int (length data), data, s') \<and>
       stream (rx s' (ps2_netfs_fd s)) = rest
     else ps2netfs_req_read fd room n s = Crash"
proof (cases "length data \<le> room")
  case True
  obtain es buf where "ps2netfs_req_read fd room n s = Ret (int (length data), data,
      s\<lparr>rx := (rx s)(ps2_netfs_fd s := es), send_packet := buf, tx_log := tx_log s @ [(ps2_netfs_fd s, read_request fd n)],
        recv_packet := poke 0 (packet PS2NETFS_READ_RLY (be32 (of_cint (int (length data))) @ be32 k)) (recv_packet s)\<rparr>)"
    "stream es = rest"
    by (rule read_step [OF wf plan strm size True])
  with True show ?thesis by simp
next
  case False
  obtain es buf where "ps2netfs_req_read fd room n s =
      obind (pko_recv_bytes (ps2_netfs_fd s) room (int (length data)) (s\<lparr>rx := (rx s)(ps2_netfs_fd s := es), send_packet := buf,
        tx_log := tx_log s @ [(ps2_netfs_fd s, take sizeof_pkt_read_req buf)],
        recv_packet := poke 0 (packet PS2NETFS_READ_RLY (be32 (of_cint (int (length data))) @ be32 k)) (recv_packet s)\<rparr>))
      (\<lambda>(r, bs, s). Ret (int (length data), bs, s))" and "stream es = data @ rest"
    using read_accepted [OF wf plan strm of_cint_length(2) [OF size]] of_cint_length(1) [OF size] by metis
  moreover have "pko_recv_bytes (ps2_netfs_fd s) room (int (length data)) (s\<lparr>rx := (rx s)(ps2_netfs_fd s := es), send_packet := buf,
        tx_log := tx_log s @ [(ps2_netfs_fd s, take sizeof_pkt_read_req buf)],
        recv_packet := poke 0 (packet PS2NETFS_READ_RLY (be32 (of_cint (int (length data))) @ be32 k)) (recv_packet s)\<rparr>) = Crash"
    using False calculation(2) size(1) by (intro pko_recv_bytes_overflow) simp_all
  ultimately show ?thesis using False by simp
qed

theorem netfs_read_trusts_reply_witness:
  "\<exists>s'. (ps2netfs_req_read 3 4 4 ((link_init ())\<lparr>rx := \<lambda>_. [Arrive (packet PS2NETFS_READ_RLY (be32 2 @ be32 0) @ [8, 9])]\<rparr>)
     = Ret (2, [8, 9], s')) \<and>
   ps2netfs_req_read 3 1 1 ((link_init ())\<lparr>rx := \<lambda>_. [Arrive (packet PS2NETFS_READ_RLY (be32 2 @ be32 0) @ [8, 9])]\<rparr>)
     = Crash"
  using netfs_read_trusts_reply [of "(link_init ())\<lparr>rx := \<lambda>_. [Arrive (packet PS2NETFS_READ_RLY
      (be32 2 @ be32 0) @ [8, 9])]\<rparr>" "[8, 9]" 0 "[]" 4 3 4]
    netfs_read_trusts_reply [of "(link_init ())\<lparr>rx := \<lambda>_. [Arrive (packet PS2NETFS_READ_RLY
      (be32 2 @ be32 0) @ [8, 9])]\<rparr>" "[8, 9]" 0 "[]" 1 3 1]
  by (auto simp: wf_link_def link_init_def of_cint_def)

section \<open>Writing\<close>

lemma write_step:
  assumes wf: "wf_link s" and plan: "tx_plan s (ps2_netfs_fd s) = []"
    and strm: "stream (rx s (ps2_netfs_fd s)) = packet PS2NETFS_WRITE_RLY (be32 v) @ rest"
    and n: "0 \<le> n" "nat n \<le> length ptr"
  obtains es buf where "ps2netfs_req_write fd ptr n s = Ret (to_cint v,
      s\<lparr>rx := (rx s)(ps2_netfs_fd s := es), send_packet := buf,
        tx_log := tx_log s @ map (Pair (ps2_netfs_fd s)) [write_request fd n, take (nat n) ptr],
        recv_packet := poke 0 (packet PS2NETFS_WRITE_RLY (be32 v)) (recv_packet s)\<rparr>)"
    and "stream es = rest" and "length buf = PACKET_MAXSIZE"
proof -
  let ?r = "\<lparr>p_cmd = htonl PS2NETFS_WRITE_CMD, p_len = htons (of_nat sizeof_pkt_write_req),
       wq_fd = htonl (of_cint fd), wq_nbytes = htonl (of_cint n)\<rparr>"
  define buf where "buf = store enc_write_req ?r (send_packet s)"
  define s1 where "s1 = s\<lparr>send_packet := buf,
      tx_log := tx_log s @ map (Pair (ps2_netfs_fd s)) [write_request fd n, take (nat n) ptr]\<rparr>"
  have head: "take sizeof_pkt_write_req buf = write_request fd n"
    using write_req.take_store [of ?r "send_packet s"] unfolding buf_def
    by (simp add: ok_write_req_def write_request_def packet_def enc_write_req_def order_simps)
  have req: "store enc_write_req \<lparr>p_cmd = htonl PS2NETFS_WRITE_CMD, p_len = htons 14, wq_fd = htonl (of_cint fd),
      wq_nbytes = htonl (of_cint n)\<rparr> (send_packet s) = buf" by (simp add: buf_def)
  have len: "length buf = PACKET_MAXSIZE"
    using wf by (simp add: buf_def wf_link_def write_req.length_store ok_write_req_def)
  then have wf1: "wf_link s1" using wf by (simp add: s1_def wf_link_def)
  obtain es where acc: "ps2netfs_accept_pkt (ps2_netfs_fd s) 10 PS2NETFS_WRITE_RLY s1 = Ret (1, s1\<lparr>
      rx := (rx s1)(ps2_netfs_fd s := es),
      recv_packet := poke 0 (packet PS2NETFS_WRITE_RLY (be32 v)) (recv_packet s1)\<rparr>)"
    and es: "stream es = rest"
    using accept_pkt_packet [OF wf1, of "ps2_netfs_fd s" PS2NETFS_WRITE_RLY "be32 v" rest 10] strm
    by (auto simp: s1_def be32_def le32_def)
  have "ps2netfs_req_write fd ptr n s = Ret (to_cint v, s1\<lparr>rx := (rx s1)(ps2_netfs_fd s := es),
      recv_packet := poke 0 (packet PS2NETFS_WRITE_RLY (be32 v)) (recv_packet s1)\<rparr>)"
    unfolding ps2netfs_req_write_def
    using acc n plan head netfs_retval_packet [where rly = PS2NETFS_WRITE_RLY and extra = "[]"]
    by (simp add: Let_def send_fd_open req s1_def)
  then show thesis using es len that [where es = es and buf = buf] by (simp add: s1_def)
qed

section \<open>Directories\<close>

lemma dread_step:
  assumes wf: "wf_link s" and plan: "tx_plan s (ps2_netfs_fd s) = []"
    and ok: "ok_dread_rly r" and hdr: "p_cmd r = htonl PS2NETFS_DREAD_RLY" "p_len r = htons 306"
    and strm: "stream (rx s (ps2_netfs_fd s)) = enc_dread_rly r @ rest"
  obtains es buf log where "ps2netfs_req_dread fd s = Ret (to_cint (ntohl (dy_retval r)), Some (read_dirent r),
      s\<lparr>rx := (rx s)(ps2_netfs_fd s := es), send_packet := buf, tx_log := log,
        recv_packet := poke 0 (enc_dread_rly r) (recv_packet s)\<rparr>)"
    and "stream es = rest" and "length buf = PACKET_MAXSIZE" and "prefix (tx_log s) log"
proof -
  define sock where "sock = ps2_netfs_fd s"
  define body where "body = drop 6 (enc_dread_rly r)"
  have len: "length body = 300" using dread_rly.length_enc [OF ok] by (simp add: body_def)
  have packet: "enc_dread_rly r = packet PS2NETFS_DREAD_RLY body"
  proof -
    have "take 6 (enc_dread_rly r) = be32 PS2NETFS_DREAD_RLY @ be16 306"
      by (simp add: enc_dread_rly_def hdr order_simps)
    with append_take_drop_id [of 6 "enc_dread_rly r"] len show ?thesis
      by (simp add: packet_def body_def)
  qed
  define s1 where "s1 = send_netfs sizeof_pkt_dread_req (build enc_dread_req
      \<lparr>p_cmd = htonl PS2NETFS_DREAD_CMD, p_len = htons (of_nat sizeof_pkt_dread_req),
       dq_fd = htonl (of_cint fd)\<rparr> s)"
  have s1: "rx s1 = rx s" "ps2_netfs_fd s1 = sock" "wf_link s1"
    using plan wf
    by (simp_all add: s1_def send_netfs_open sock_def wf_link_def dread_req.length_store ok_dread_req_def)
  have "body \<noteq> []" using len by auto
  then obtain es where acc: "ps2netfs_accept_pkt sock 306 PS2NETFS_DREAD_RLY s1 = Ret (1, s1\<lparr>rx := (rx s1)(sock := es),
      recv_packet := poke 0 (packet PS2NETFS_DREAD_RLY body) (recv_packet s1)\<rparr>)"
    and es: "stream es = rest"
    using accept_pkt_packet [OF s1(3), of sock PS2NETFS_DREAD_RLY body rest 306] strm packet len
    by (auto simp: s1 sock_def)
  have view: "view_dread_rly (poke 0 (packet PS2NETFS_DREAD_RLY body) (recv_packet s1)) = r"
    using dread_rly.view_store [OF ok] by (simp add: packet [symmetric] store_def)
  define buf where "buf = send_packet (build enc_dread_req
      \<lparr>p_cmd = htonl PS2NETFS_DREAD_CMD, p_len = htons (of_nat sizeof_pkt_dread_req),
       dq_fd = htonl (of_cint fd)\<rparr> s)"
  have "s1 = s\<lparr>send_packet := buf, tx_log := tx_log s @ [(sock, take sizeof_pkt_dread_req buf)]\<rparr>"
    using plan by (simp add: s1_def send_netfs_open sock_def buf_def)
  moreover have "length buf = PACKET_MAXSIZE" using s1(3) calculation by (simp add: wf_link_def)
  moreover have "ps2netfs_req_dread fd s = Ret (to_cint (ntohl (dy_retval r)), Some (read_dirent r),
      s1\<lparr>rx := (rx s1)(sock := es), recv_packet := poke 0 (enc_dread_rly r) (recv_packet s1)\<rparr>)"
    unfolding ps2netfs_req_dread_def Let_def s1_def [symmetric]
    using acc view by (simp add: s1 packet)
  ultimately show thesis using es that [where es = es and buf = buf and log = "tx_log s @ [(sock, take sizeof_pkt_dread_req buf)]"]
    by (simp add: sock_def)
qed

text \<open>The name of an entry reads back as the string the service put there, if it is shorter than the field.\<close>

lemma read_dirent_name:
  assumes name: "dy_path r = strncpy name 256" "no_nul name" "length name < 256"
  shows "c_str (de_name (read_dirent r)) = Some name"
proof -
  obtain k where "256 - length name = Suc k" using name(3) by (metis Suc_diff_Suc)
  then have "takeWhile (\<lambda>b. b \<noteq> 0) (dy_path r) = bytes_of name"
    using name takeWhile_bytes_of [OF name(2)] by (simp add: strncpy_short)
  then have "de_name (read_dirent r) = strncpy name 256"
    by (simp add: read_dirent_def strncpy_def)
  then show ?thesis using c_str_strncpy [OF name(2,3), of "[]"] by simp
qed

text \<open>On a closed connection the entry that is still in the buffer is given again.\<close>

lemma dread_closed:
  assumes wf: "wf_link s" and plan: "tx_plan s (ps2_netfs_fd s) = []"
    and fin: "stream (rx s (ps2_netfs_fd s)) = []" "script_end (rx s (ps2_netfs_fd s)) = Closes"
  obtains es buf log where "ps2netfs_req_dread fd s =
      Ret (to_cint (ntohl (dy_retval (view_dread_rly (recv_packet s)))), Some (read_dirent (view_dread_rly (recv_packet s))),
        s\<lparr>rx := (rx s)(ps2_netfs_fd s := es), send_packet := buf, tx_log := log\<rparr>)"
    and "stream es = []" and "script_end es = Closes" and "length buf = PACKET_MAXSIZE"
proof -
  define s1 where "s1 = send_netfs sizeof_pkt_dread_req (build enc_dread_req
      \<lparr>p_cmd = htonl PS2NETFS_DREAD_CMD, p_len = htons (of_nat sizeof_pkt_dread_req),
       dq_fd = htonl (of_cint fd)\<rparr> s)"
  define buf where "buf = send_packet s1"
  have s1: "s1 = s\<lparr>send_packet := buf, tx_log := tx_log s1\<rparr>" "ps2_netfs_fd s1 = ps2_netfs_fd s" "rx s1 = rx s"
    "recv_packet s1 = recv_packet s" "length buf = PACKET_MAXSIZE"
    using plan wf by (simp_all add: buf_def s1_def send_netfs_open wf_link_def dread_req.length_store ok_dread_req_def)
  obtain es where rcv: "recv_into_packet (ps2_netfs_fd s) 0 6 s1 = Ret (0, s1\<lparr>rx := (rx s1)(ps2_netfs_fd s := es)\<rparr>)"
    and es: "stream es = []" "script_end es = Closes"
    using recv_into_packet_eof [of 6 s1 "ps2_netfs_fd s" 0] fin by (auto simp: s1(3))
  have "ps2netfs_req_dread fd s =
      Ret (to_cint (ntohl (dy_retval (view_dread_rly (recv_packet s)))), Some (read_dirent (view_dread_rly (recv_packet s))),
        s1\<lparr>rx := (rx s1)(ps2_netfs_fd s := es)\<rparr>)"
    unfolding ps2netfs_req_dread_def Let_def s1_def [symmetric]
    using rcv by (simp add: s1(2,4) ps2netfs_accept_pkt_def of_cint_def)
  moreover have "s1\<lparr>rx := (rx s1)(ps2_netfs_fd s := es)\<rparr> =
      s\<lparr>rx := (rx s)(ps2_netfs_fd s := es), send_packet := buf, tx_log := tx_log s1\<rparr>"
    by (subst s1(1)) (simp add: s1(3))
  ultimately show thesis using that es s1(5) by simp
qed

text \<open>
  A directory entry arrives as it was sent: \<open>ps2netfs_req_dread\<close> takes the whole 306 bytes of a
  \<open>DREAD_RLY\<close>, returns its value and gives the mode, attributes, sizes and times as the service wrote
  them; the name reads back as the string the service put there if it is shorter than the field.
\<close>

theorem netfs_dread_entry:
  assumes wf: "wf_link s" and plan: "tx_plan s (ps2_netfs_fd s) = []"
    and ok: "ok_dread_rly r" and hdr: "p_cmd r = htonl PS2NETFS_DREAD_RLY" "p_len r = htons 306"
    and strm: "stream (rx s (ps2_netfs_fd s)) = enc_dread_rly r @ rest"
    and name: "dy_path r = strncpy name 256" "no_nul name" "length name < 256"
  shows "\<exists>s' e. ps2netfs_req_dread fd s = Ret (to_cint (ntohl (dy_retval r)), Some e, s') \<and>
     stream (rx s' (ps2_netfs_fd s)) = rest \<and>
     (de_mode e, de_attr e, de_size e, de_hisize e) =
       (ntohl (dy_mode r), ntohl (dy_attr r), ntohl (dy_size r), ntohl (dy_hisize r)) \<and>
     (de_ctime e, de_atime e, de_mtime e) = (dy_ctime r, dy_atime r, dy_mtime r) \<and>
     c_str (de_name e) = Some name"
proof -
  obtain es buf log where "ps2netfs_req_dread fd s = Ret (to_cint (ntohl (dy_retval r)), Some (read_dirent r),
      s\<lparr>rx := (rx s)(ps2_netfs_fd s := es), send_packet := buf, tx_log := log,
        recv_packet := poke 0 (enc_dread_rly r) (recv_packet s)\<rparr>)" "stream es = rest"
    using dread_step [OF wf plan ok hdr strm] .
  with read_dirent_name [OF name] show ?thesis by (auto simp: read_dirent_def)
qed

text \<open>A reply of the service for the entry \<open>f\<close>.\<close>

definition dread_example :: pkt_dread_rly where
  "dread_example = \<lparr>p_cmd = htonl PS2NETFS_DREAD_RLY, p_len = htons 306, dy_retval = htonl 1,
     dy_mode = htonl 0x11FF, dy_attr = 0, dy_size = htonl 42, dy_ctime = replicate 8 0,
     dy_atime = replicate 8 0, dy_mtime = [0, 1, 2, 3, 4, 5, 6, 7], dy_hisize = 0, dy_path = strncpy ''f'' 256\<rparr>"

theorem netfs_dread_entry_witness:
  "\<exists>s' e. ps2netfs_req_dread 3 ((link_init ())\<lparr>rx := \<lambda>_. [Arrive (enc_dread_rly dread_example)]\<rparr>) =
     Ret (1, Some e, s') \<and> c_str (de_name e) = Some ''f'' \<and> de_size e = 42 \<and> de_mtime e ! 5 = 5"
  using netfs_dread_entry [of "(link_init ())\<lparr>rx := \<lambda>_. [Arrive (enc_dread_rly dread_example)]\<rparr>"
      dread_example "[]" "''f''" 3]
  by (fastforce simp: dread_example_def ok_dread_rly_def link_init_def wf_link_def to_cint_def)

lemma mode_char_bit:
  "i < 9 \<Longrightarrow> mode_char mode i = (if bit mode i then ''rwxrwxrwx'' ! (8 - i) else CHR ''-'')"
proof -
  assume "i < 9"
  have "push_bit i 1 AND mode \<noteq> 0 \<longleftrightarrow> bit mode i"
    using and_exp_eq_0_iff_not_bit [of mode i] by (simp add: push_bit_eq_mult and.commute)
  moreover have "i \<in> {0, 1, 2, 3, 4, 5, 6, 7, 8}" using \<open>i < 9\<close> by auto
  ultimately show ?thesis by (auto simp: mode_char_def)
qed

text \<open>The listing of a mode: its type, then \<open>rwx\<close> for each of the nine access bits that is set.\<close>

lemma showMode_bits:
  "ps2netfs_showMode mode =
     (if bit mode 12 then CHR ''d'' else if bit mode 14 then CHR ''l'' else CHR ''-'')
     # map (\<lambda>j. if bit mode (8 - j) then ''rwxrwxrwx'' ! j else CHR ''-'') [0..<9]"
proof -
  have "mode AND 0x1000 \<noteq> 0 \<longleftrightarrow> bit mode 12" "mode AND 0x4000 \<noteq> 0 \<longleftrightarrow> bit mode 14"
    using and_exp_eq_0_iff_not_bit [of mode 12] and_exp_eq_0_iff_not_bit [of mode 14] by simp_all
  moreover have "map (mode_char mode) (rev [0..<9]) =
      map (\<lambda>j. if bit mode (8 - j) then ''rwxrwxrwx'' ! j else CHR ''-'') [0..<9]"
  proof -
    have "rev [0..<9] = map (\<lambda>j. 8 - j) [0..<9]" by (simp add: upt_rec)
    then show ?thesis by (simp add: mode_char_bit)
  qed
  ultimately show ?thesis by (simp add: ps2netfs_showMode_def)
qed

end
