(* ===== verification/Batch.thy ===== *)
theory Batch
  imports Framing
begin

text \<open>
  \<open>batch.c\<close>: the loop in which the batch tools serve the file requests of the console until it closes
  its first file. One request is read off the connection as a header and a body of the announced
  length, both into \<open>recv_packet\<close>, and handed to the handler of its command.
\<close>

record 'fs batch = "'fs link" +
  service_close :: int

section \<open>Requests\<close>

text \<open>The eight commands that both programs hand to \<open>linkproto_core.c\<close>.\<close>

definition file_command ::
  "'fs os \<Rightarrow> u32 \<Rightarrow> (('fs, 'z) link_scheme \<Rightarrow> (int \<times> ('fs, 'z) link_scheme) outcome) option" where
  "file_command os cmd =
     (if cmd = OPEN_CMD then Some (pko_open_file os)
      else if cmd = CLOSE_CMD then Some (pko_close_file os)
      else if cmd = READ_CMD then Some (pko_read_file os)
      else if cmd = WRITE_CMD then Some (pko_write_file os)
      else if cmd = LSEEK_CMD then Some (pko_lseek_file os)
      else if cmd = DOPEN_CMD then Some (pko_open_dir os)
      else if cmd = DREAD_CMD then Some (pko_read_dir os)
      else if cmd = DCLOSE_CMD then Some (pko_close_dir os)
      else None)"

text \<open>The \<open>switch\<close> of \<open>batch_io_read\<close>; the results of the handlers are ignored.\<close>

definition batch_switch :: "'fs os \<Rightarrow> u32 \<Rightarrow> ('fs, 'z) batch_scheme \<Rightarrow> ('fs, 'z) batch_scheme outcome" where
  "batch_switch os cmd s =
     (case file_command os cmd of
        None \<Rightarrow> Ret s
      | Some h \<Rightarrow> omap (\<lambda>(r, s). if cmd = CLOSE_CMD then s\<lparr>service_close := 0\<rparr> else s) (h s))"

definition batch_io_read :: "'fs os \<Rightarrow> int \<Rightarrow> ('fs, 'z) batch_scheme \<Rightarrow> (int \<times> ('fs, 'z) batch_scheme) outcome" where
  "batch_io_read os fd s =
     obind (recv_into_packet fd 0 (int sizeof_pkt_hdr) s) (\<lambda>(len, s).
     if len < 0 then Ret (len, s)
     else if len = 0 then Ret (0, s)
     else
       let hdr = view_hdr (recv_packet s); cmd = ntohl (p_cmd hdr); hlen = ntohs (p_len hdr) in
       obind (recv_body fd len hlen s) (\<lambda>(ret, s).
       obind (batch_switch os cmd s) (\<lambda>s. Ret (0, s))))"

section \<open>The log and the loop\<close>

text \<open>\<open>recvfrom\<close> on a datagram socket: one datagram, cut to the size of the buffer.\<close>

fun sys_recvfrom :: "nat \<Rightarrow> rx_event list \<Rightarrow> rx_result \<times> rx_event list" where
  "sys_recvfrom n [] = (Blocked, [])"
| "sys_recvfrom n (Arrive bs # es) = (Got (take n bs), es)"
| "sys_recvfrom n (PeerClosed # es) = sys_recvfrom n es"
| "sys_recvfrom n (RxError e # es) = (Failed e, es)"

text \<open>
  \<open>batch_log_read\<close>: the value returned and the text printed. The buffer of 1024 bytes may be filled to
  its end, and is then printed as a string that has none.
\<close>

definition batch_log_read :: "int \<Rightarrow> ('fs, 'z) link_scheme \<Rightarrow> (int \<times> string \<times> ('fs, 'z) link_scheme) outcome" where
  "batch_log_read fd s =
     (case sys_recvfrom 1024 (rx s fd) of
        (Blocked, es) \<Rightarrow> Hang
      | (Failed e, es) \<Rightarrow> Ret (-1, '''', s\<lparr>rx := (rx s)(fd := es)\<rparr>)
      | (Eof, es) \<Rightarrow> Ret (0, '''', s\<lparr>rx := (rx s)(fd := es)\<rparr>)
      | (Got bs, es) \<Rightarrow>
          obind (of_option (c_str (bs @ replicate (1024 - length bs) 0))) (\<lambda>text.
            Ret (int (length bs), text, s\<lparr>rx := (rx s)(fd := es)\<rparr>)))"

text \<open>What \<open>select\<close> returns: an error, or the descriptors that are ready, none at a timeout.\<close>

datatype wake = SelectError | Ready "int list"

text \<open>One round of the loop behind \<open>select\<close>.\<close>

definition batch_round :: "'fs os \<Rightarrow> int list \<Rightarrow> ('fs, 'z) batch_scheme \<Rightarrow> ('fs, 'z) batch_scheme outcome" where
  "batch_round os fds s =
     (if log_fd s \<in> set fds then omap (\<lambda>(r, text, s). s) (batch_log_read (log_fd s) s)
      else if pko_srv_fd s \<in> set fds then omap snd (batch_io_read os (pko_srv_fd s) s)
      else Ret s)"

text \<open>\<open>batch_io_loop\<close> on the results of its calls of \<open>select\<close>; when they end it waits in \<open>select\<close>.\<close>

fun batch_io_loop ::
  "'fs os \<Rightarrow> int \<Rightarrow> wake list \<Rightarrow> ('fs, 'z) batch_scheme \<Rightarrow> (int \<times> ('fs, 'z) batch_scheme) outcome" where
  "batch_io_loop os nservice [] s = Hang"
| "batch_io_loop os nservice (SelectError # ws) s = Ret (0, s)"
| "batch_io_loop os nservice (Ready fds # ws) s =
     obind (batch_round os fds s) (\<lambda>s.
     if nservice = 0 \<and> service_close s = 0 then Ret (0, s) else batch_io_loop os nservice ws s)"

section \<open>Serving requests\<close>

text \<open>The state in which the loop starts: \<open>service_close\<close> is 1.\<close>

definition batch_init :: "'fs \<Rightarrow> 'fs batch" where
  "batch_init fs = link.extend (link_init fs) \<lparr>service_close = 1\<rparr>"

lemma batch_init_simps [simp]:
  "wf_link (batch_init fs)" "service_close (batch_init fs) = 1" "host (batch_init fs) = fs"
  "tx_plan (batch_init fs) = (\<lambda>_. [])" "tx_log (batch_init fs) = []" "pko_srv_fd (batch_init fs) = 0"
  "log_fd (batch_init fs) = 0"
  by (simp_all add: batch_init_def link_init_def link.defs wf_link_def)

interpretation batch: framed_server "batch_io_read os" "\<lambda>cmd s. obind (batch_switch os cmd s) (\<lambda>s. Ret (0, s))"
  for os
  by unfold_locales (simp add: batch_io_read_def Let_def)

text \<open>
  C29. A request that fits the buffer is taken off the connection exactly, whatever the cut of the
  stream: the handler of its command runs with the whole packet in the buffer and with the stream at
  the byte behind it, where the data of a \<open>WRITE\<close> or the next request starts. A request whose header
  announces more than 4096 bytes overflows the buffer as soon as the bytes arrive.
\<close>

theorem batch_io_read_request:
  assumes "wf_link s"
  shows "(stream (rx s fd) = packet cmd body @ rest \<and> 6 + length body \<le> PACKET_MAXSIZE \<longrightarrow>
       (\<exists>es. batch_io_read os fd s = obind (batch_switch os cmd (s\<lparr>rx := (rx s)(fd := es),
           recv_packet := poke 0 (packet cmd body) (recv_packet s)\<rparr>)) (\<lambda>s. Ret (0, s))
         \<and> stream es = rest))
   \<and> (stream (rx s fd) = be32 cmd @ be16 hlen @ rest \<and> 4096 < uint hlen \<and> 4090 < length rest \<longrightarrow>
       batch_io_read os fd s = Crash)"
proof (intro conjI impI; elim conjE)
  assume "stream (rx s fd) = packet cmd body @ rest" "6 + length body \<le> PACKET_MAXSIZE"
  then show "\<exists>es. batch_io_read os fd s = obind (batch_switch os cmd (s\<lparr>rx := (rx s)(fd := es),
      recv_packet := poke 0 (packet cmd body) (recv_packet s)\<rparr>)) (\<lambda>s. Ret (0, s)) \<and> stream es = rest"
    using batch.serve_packet [OF assms] by metis
qed (rule batch.serve_overflow [OF assms])

theorem batch_io_read_request_witness:
  "batch_io_read tape_os 4 ((batch_init [])\<lparr>rx := \<lambda>_. [Arrive (be32 READ_CMD @ be16 5000 @ replicate 4994 1)]\<rparr>)
     = Crash"
  using batch_io_read_request [of "(batch_init [])\<lparr>rx := \<lambda>_. [Arrive (be32 READ_CMD @ be16 5000 @ replicate 4994 1)]\<rparr>"
      4 READ_CMD "[]" "replicate 4994 1" tape_os 5000]
  by (simp add: batch_init_def link_init_def link.defs wf_link_def)

section \<open>The loop as a machine\<close>

text \<open>A round of the loop, by the descriptor that is served.\<close>

inductive batch_step :: "'fs os \<Rightarrow> ('fs, 'z) batch_scheme \<Rightarrow> ('fs, 'z) batch_scheme \<Rightarrow> bool" for os where
  log: "batch_log_read (log_fd s) s = Ret (r, text, s') \<Longrightarrow> batch_step os s s'"
| request: "batch_io_read os (pko_srv_fd s) s = Ret (r, s') \<Longrightarrow> batch_step os s s'"
| idle: "batch_step os s s"

inductive_cases batch_stepE: "batch_step os s s'"

lemma batch_round_step: "batch_round os fds s = Ret s' \<Longrightarrow> batch_step os s s'"
  by (auto simp: batch_round_def omap_Ret_iff split: if_splits intro: batch_step.intros)

text \<open>
  What the loop keeps: the size of the buffers, the descriptors and settings, every socket but the
  two it serves; it sends only on the connection.
\<close>

definition batch_keeps :: "('fs, 'z) batch_scheme \<Rightarrow> ('fs, 'z) batch_scheme \<Rightarrow> bool" where
  "batch_keeps s s' \<longleftrightarrow>
     (wf_link s \<longrightarrow> wf_link s')
     \<and> (pko_srv_fd s', pksh_srv_fd s', cmd_fd s', log_fd s', ps2_netfs_fd s')
         = (pko_srv_fd s, pksh_srv_fd s, cmd_fd s, log_fd s, ps2_netfs_fd s)
     \<and> DEBUG s' = DEBUG s \<and> path_list s' = path_list s \<and> closed s' = closed s
     \<and> (\<forall>fd. fd \<noteq> pko_srv_fd s \<and> fd \<noteq> log_fd s \<longrightarrow> rx s' fd = rx s fd)
     \<and> (\<forall>fd. fd \<noteq> pko_srv_fd s \<longrightarrow> tx_plan s' fd = tx_plan s fd)
     \<and> (\<exists>ms. tx_log s' = tx_log s @ map (Pair (pko_srv_fd s)) ms)"

lemma batch_keeps_refl [simp]: "batch_keeps s s"
  by (simp add: batch_keeps_def)

lemma batch_keeps_trans: "batch_keeps s s1 \<Longrightarrow> batch_keeps s1 s2 \<Longrightarrow> batch_keeps s s2"
  unfolding batch_keeps_def by (auto simp flip: map_append)

lemma serves_batch_keeps: "serves s s' \<Longrightarrow> batch_keeps s s'"
  by (auto simp: serves_def batch_keeps_def)

lemma batch_keeps_service_close [simp]: "batch_keeps s (s'\<lparr>service_close := n\<rparr>) \<longleftrightarrow> batch_keeps s s'"
  by (simp add: batch_keeps_def wf_link_def)

lemma file_command_handler: "file_command os cmd = Some h \<Longrightarrow> wf_link s \<Longrightarrow> h s = Ret (r, s') \<Longrightarrow> serves s s'"
  by (auto simp: file_command_def split: if_splits
      dest: open_file.handler_serves open_dir.handler_serves read_dir.handler_serves
        close_dir.handler_serves close_file.handler_serves read_file.handler_serves
        write_file.handler_serves lseek_file.handler_serves)

lemma batch_switch_keeps: "batch_switch os cmd s = Ret s' \<Longrightarrow> wf_link s \<Longrightarrow> batch_keeps s s'"
  by (auto simp: batch_switch_def omap_Ret_iff split: option.splits if_splits
      dest!: file_command_handler intro: serves_batch_keeps)

lemma batch_io_read_keeps:
  assumes "batch_io_read os (pko_srv_fd s) s = Ret (r, s')" and "wf_link s"
  shows "batch_keeps s s'"
proof -
  obtain len s1 where rcv: "recv_into_packet (pko_srv_fd s) 0 6 s = Ret (len, s1)"
    using assms(1) by (auto simp: batch_io_read_def obind_Ret_iff)
  have s1: "serves s s1" using rcv by (rule serves_recv) simp
  show ?thesis
  proof (cases "0 < len")
    case False
    then have "s' = s1" using assms(1) rcv by (auto simp: batch_io_read_def split: if_splits)
    with s1 show ?thesis by (simp add: serves_batch_keeps)
  next
    case True
    then obtain ret s2 where
      body: "recv_body (pko_srv_fd s) len (ntohs (p_len (view_hdr (recv_packet s1)))) s1 = Ret (ret, s2)"
      and sw: "batch_switch os (ntohl (p_cmd (view_hdr (recv_packet s1)))) s2 = Ret s'"
      using assms(1) rcv by (auto simp: batch_io_read_def Let_def obind_Ret_iff)
    have wf1: "wf_link s1" using s1 assms(2) by (rule serves_wf)
    have "len \<le> 6"
      using rcv assms(2) by (cases rule: recv_into_packet_cases) auto
    then have "serves s1 s2"
      using body serves_recv [of s1 "nat len"] wf1 serves_srv_fd [OF s1]
      by (auto simp: recv_body_def wf_link_def)
    then have "serves s s2" using s1 by (blast intro: serves_trans)
    then show ?thesis
      using sw assms(2) by (blast intro: batch_keeps_trans serves_batch_keeps batch_switch_keeps serves_wf)
  qed
qed

lemma batch_log_read_keeps: "batch_log_read (log_fd s) s = Ret (r, text, s') \<Longrightarrow> batch_keeps s s'"
  by (auto simp: batch_log_read_def batch_keeps_def wf_link_def obind_Ret_iff split: prod.splits rx_result.splits)

lemma batch_step_keeps: "batch_step os s s' \<Longrightarrow> wf_link s \<Longrightarrow> batch_keeps s s'"
  by (erule batch_stepE) (auto dest: batch_io_read_keeps batch_log_read_keeps)

lemma batch_keeps_wf: "batch_keeps s s' \<Longrightarrow> wf_link s \<Longrightarrow> wf_link s'"
  by (simp add: batch_keeps_def)

lemma batch_steps_keep: "(batch_step os)\<^sup>*\<^sup>* s s' \<Longrightarrow> wf_link s \<Longrightarrow> batch_keeps s s' \<and> wf_link s'"
proof (induction rule: rtranclp_induct)
  case (step s1 s2)
  then show ?case
    using batch_step_keeps [OF step.hyps(2)] by (blast intro: batch_keeps_trans batch_keeps_wf)
qed simp

lemma batch_io_loop_steps:
  "batch_io_loop os nservice ws s = Ret (r, s') \<Longrightarrow>
     (batch_step os)\<^sup>*\<^sup>* s s' \<and> r = 0 \<and> (SelectError \<in> set ws \<or> nservice = 0 \<and> service_close s' = 0)"
proof (induction os nservice ws s rule: batch_io_loop.induct)
  case (3 os nservice fds ws s)
  then obtain s1 where s1: "batch_round os fds s = Ret s1"
    by (auto simp: obind_Ret_iff)
  with 3 batch_round_step [OF s1] show ?case
    by (auto split: if_splits intro: converse_rtranclp_into_rtranclp)
qed simp_all

text \<open>
  C16. \<open>batch_io_loop\<close>, for every sequence of events: whatever it served, the buffers have their size,
  no descriptor or setting changed, nothing was sent but on the connection and no other socket read;
  and it returns only for an error of \<open>select\<close> or, when \<open>nservice\<close> is 0, after a file was closed.
\<close>

theorem batch_io_loop_keeps:
  assumes "batch_io_loop os nservice ws s = Ret (r, s')" and "wf_link s"
  shows "batch_keeps s s' \<and> wf_link s' \<and> r = 0 \<and>
     (SelectError \<in> set ws \<or> nservice = 0 \<and> service_close s' = 0)"
  using batch_io_loop_steps [OF assms(1)] batch_steps_keep [of os s s'] assms(2) by blast

theorem batch_io_loop_keeps_witness:
  "\<exists>s'. batch_io_loop tape_os 0 [Ready [0], SelectError] ((batch_init [])\<lparr>rx := \<lambda>_. [Arrive [104, 105]]\<rparr>) = Ret (0, s')
     \<and> batch_keeps ((batch_init [])\<lparr>rx := \<lambda>_. [Arrive [104, 105]]\<rparr>) s' \<and> wf_link s'"
proof -
  let ?s = "(batch_init [])\<lparr>rx := \<lambda>_. [Arrive [104, 105 :: byte]]\<rparr>"
  have "replicate 1022 (0 :: byte) \<noteq> []" by simp
  then obtain s' where run: "batch_io_loop tape_os 0 [Ready [0], SelectError] ?s = Ret (0, s')"
    by (simp add: batch_round_def batch_log_read_def c_str_def)
  with batch_io_loop_keeps [OF run] show ?thesis by (simp add: wf_link_def batch_init_def link_init_def link.defs)
qed

section \<open>The end of a service\<close>

lemma batch_switch_close:
  "batch_switch os CLOSE_CMD s = omap (\<lambda>(r, s). s\<lparr>service_close := 0\<rparr>) (pko_close_file os s)"
  by (simp add: batch_switch_def file_command_def)

lemma close_file_reply:
  assumes "wf_link s" and "tx_plan s (pko_srv_fd s) = []"
    and "os_close os (host s) (to_cint (ntohl (cq_fd (view_close_req (recv_packet s))))) = (k, fs)"
  shows "\<exists>s'. pko_close_file os s = Ret (0, s') \<and> host s' = fs \<and> rx s' = rx s \<and>
     tx_log s' = tx_log s @ [(pko_srv_fd s, file_rly_wire CLOSE_RLY (of_cint k))]"
  using assms by (simp add: pko_close_file_def Let_def file_reply_log wf_link_def)

lemma view_close_packet:
  "cq_fd (view_close_req (poke 0 (packet CLOSE_CMD (be32 fd)) buf)) = htonl fd"
proof -
  have "packet CLOSE_CMD (be32 fd) = enc_close_req \<lparr>p_cmd = htonl CLOSE_CMD, p_len = htons 10, cq_fd = htonl fd\<rparr>"
    by (simp add: packet_def enc_close_req_def order_simps)
  then show ?thesis
    using close_req.view_store [of "\<lparr>p_cmd = htonl CLOSE_CMD, p_len = htons 10, cq_fd = htonl fd\<rparr>" buf]
    by (simp add: store_def ok_close_req_def)
qed

text \<open>
  C28. A tool that serves only one file (\<open>nservice\<close> is 0) returns as soon as the console closes it: at a
  \<open>CLOSE\<close> request at the head of the stream the loop closes the descriptor, sends the answer and
  returns, and what follows on the connection is not read.
\<close>

theorem batch_loop_ends_on_close:
  assumes wf: "wf_link s" and plan: "tx_plan s (pko_srv_fd s) = []"
    and strm: "stream (rx s (pko_srv_fd s)) = packet CLOSE_CMD (be32 fd) @ rest"
    and ready: "pko_srv_fd s \<in> set fds" "log_fd s \<notin> set fds"
    and close: "os_close os (host s) (to_cint fd) = (k, fs)"
  shows "\<exists>s'. batch_io_loop os 0 (Ready fds # ws) s = Ret (0, s') \<and> host s' = fs \<and>
     stream (rx s' (pko_srv_fd s)) = rest \<and>
     tx_log s' = tx_log s @ [(pko_srv_fd s, file_rly_wire CLOSE_RLY (of_cint k))]"
proof -
  obtain es where served: "batch_io_read os (pko_srv_fd s) s =
      obind (batch_switch os CLOSE_CMD (s\<lparr>rx := (rx s)(pko_srv_fd s := es),
        recv_packet := poke 0 (packet CLOSE_CMD (be32 fd)) (recv_packet s)\<rparr>)) (\<lambda>s. Ret (0, s))"
    and es: "stream es = rest"
    using batch.serve_packet [OF wf strm, of os] by auto
  define s1 where "s1 = s\<lparr>rx := (rx s)(pko_srv_fd s := es),
      recv_packet := poke 0 (packet CLOSE_CMD (be32 fd)) (recv_packet s)\<rparr>"
  have "wf_link s1"
    using wf by (simp add: s1_def wf_link_def length_poke packet_def)
  moreover have "os_close os (host s1) (to_cint (ntohl (cq_fd (view_close_req (recv_packet s1))))) = (k, fs)"
    using close by (simp add: s1_def view_close_packet)
  ultimately obtain s2 where s2: "pko_close_file os s1 = Ret (0, s2)" "host s2 = fs" "rx s2 = rx s1"
    "tx_log s2 = tx_log s1 @ [(pko_srv_fd s1, file_rly_wire CLOSE_RLY (of_cint k))]"
    using close_file_reply [of s1 os k fs] plan by (auto simp: s1_def)
  have "batch_io_loop os 0 (Ready fds # ws) s = Ret (0, s2\<lparr>service_close := 0\<rparr>)"
    using ready served s2(1) by (simp add: batch_round_def batch_switch_close s1_def)
  with s2 es show ?thesis by (simp add: s1_def)
qed

text \<open>A console that closes descriptor 3 and has sent one byte more.\<close>

definition close_example :: "byte list batch" where
  "close_example = (batch_init [7])\<lparr>pko_srv_fd := 4, log_fd := 5,
     rx := \<lambda>_. [Arrive (packet CLOSE_CMD (be32 3)), Arrive [9]]\<rparr>"

lemma close_example_simps [simp]:
  "wf_link close_example" "tx_plan close_example = (\<lambda>_. [])" "pko_srv_fd close_example = 4"
  "log_fd close_example = 5" "host close_example = [7]" "tx_log close_example = []"
  "stream (rx close_example fd) = packet CLOSE_CMD (be32 3) @ [9]"
  by (simp_all add: close_example_def batch_init_def link_init_def link.defs wf_link_def)

theorem batch_loop_ends_on_close_witness:
  "\<exists>s'. batch_io_loop tape_os 0 [Ready [4]] close_example = Ret (0, s') \<and> stream (rx s' 4) = [9] \<and>
     tx_log s' = [(4, file_rly_wire CLOSE_RLY 0)]"
  using batch_loop_ends_on_close [of close_example 3 "[9]" "[4]" tape_os 0 "[7]" "[]"]
  by (simp add: of_cint_def) blast

end
