(* ===== verification/Rlcommon.thy ===== *)
theory Rlcommon
  imports Common
begin

text \<open>
  \<open>rl_common.c\<close>: what the shell adds to readline. The state is the record \<open>rl\<close>: the statics of the
  file. \<open>stat\<close> is the host's, through \<open>os\<close>; the buffers of readline are arguments.
\<close>

record rl =
  cprompt :: bool
  lprompt :: bool
  suffix_list :: "string list"

definition rl_init :: rl where
  "rl_init = \<lparr>cprompt = True, lprompt = True, suffix_list = []\<rparr>"

section \<open>Prompts\<close>

definition get_prompt :: "rl \<Rightarrow> string" where
  "get_prompt r = (if cprompt r then ''pksh> '' else ''peer away> '')"

definition log_prompt :: "rl \<Rightarrow> string" where
  "log_prompt r = (if lprompt r then ''pksh> '' else ''log: '')"

text \<open>
  \<open>change_prompt\<close>: the prompt that is installed. The line being edited is copied to \<open>line_buf\<close>, an
  array of 256 characters.
\<close>

definition change_prompt :: "string \<Rightarrow> rl \<Rightarrow> (string \<times> rl) outcome" where
  "change_prompt rl_line_buffer r =
     (let r = r\<lparr>cprompt := \<not> cprompt r\<rparr>
      in oguard (length rl_line_buffer < 256) (Ret (get_prompt r, r)))"

text \<open>\<open>printf(buf)\<close> with a text from outside as the format: a percent sign that does not stand for
  itself makes it read arguments that are not there.\<close>

fun printf_text :: "string \<Rightarrow> string option" where
  "printf_text [] = Some []"
| "printf_text (c # s) =
     (if c = CHR ''%'' then
        (case s of [] \<Rightarrow> None
         | d # t \<Rightarrow> if d = CHR ''%'' then map_option ((#) c) (printf_text t) else None)
      else map_option ((#) c) (printf_text s))"

text \<open>\<open>write_log_line\<close>: the prompts installed before and after the text, and the text.\<close>

definition write_log_line :: "string \<Rightarrow> string \<Rightarrow> rl \<Rightarrow> ((string \<times> string \<times> string) \<times> rl) outcome" where
  "write_log_line rl_line_buffer buf r =
     (let r = r\<lparr>lprompt := \<not> lprompt r\<rparr>; before = log_prompt r in
      oguard (length rl_line_buffer < 256)
        (obind (of_option (printf_text buf)) (\<lambda>text.
         let r = r\<lparr>lprompt := \<not> lprompt r\<rparr> in Ret ((before, text, log_prompt r), r))))"

section \<open>Completion\<close>

definition common_set_suffix :: "string list \<Rightarrow> rl \<Rightarrow> rl" where
  "common_set_suffix ptr r = r\<lparr>suffix_list := ptr\<rparr>"

fun accept_loop :: "string \<Rightarrow> string list \<Rightarrow> int" where
  "accept_loop name [] = 1"
| "accept_loop name (s # sfl) = (if strstr name s \<noteq> None then 0 else accept_loop name sfl)"

definition accept_suffix :: "string list \<Rightarrow> string \<Rightarrow> int" where
  "accept_suffix sfl name = (if sfl = [] then 0 else accept_loop name sfl)"

definition is_dir :: "'fs os \<Rightarrow> 'fs \<Rightarrow> string \<Rightarrow> int" where
  "is_dir os fs name =
     (let (r, finfo) = os_stat os fs name in if r \<noteq> 0 then 0 else if S_ISDIR (st_mode finfo) then 1 else 0)"

text \<open>The loop over \<open>names[1]\<close>, \<open>names[2]\<close> and so on: the names copied to \<open>newnames\<close>.\<close>

fun keep_names :: "(string \<Rightarrow> int) \<Rightarrow> (string \<Rightarrow> int) \<Rightarrow> string list \<Rightarrow> string list" where
  "keep_names accept dir [] = []"
| "keep_names accept dir (name # names) =
     (if accept name = 0 then name # keep_names accept dir names
      else if dir name = 1 then name # keep_names accept dir names
      else keep_names accept dir names)"

text \<open>
  \<open>filename_completion_ignore\<close> on an array of names up to its \<open>NULL\<close>: the value returned and the array
  afterwards. \<open>names[0]\<close> is the common part of the matches; readline never calls it without.
\<close>

definition filename_completion_ignore ::
  "(string \<Rightarrow> int) \<Rightarrow> (string \<Rightarrow> int) \<Rightarrow> string list \<Rightarrow> (int \<times> string list) outcome" where
  "filename_completion_ignore accept dir names =
     (case names of
        [] \<Rightarrow> Crash
      | [n] \<Rightarrow> Ret (-1, names)
      | n # ns \<Rightarrow>
          let newnames = keep_names accept dir ns in
          if newnames = [] then Ret (-1, [])
          else if length newnames = 1 then Ret (-1, newnames)
          else Ret (0, n # newnames))"

text \<open>
  \<open>command_generator\<close> over the names of the command table: \<open>list_index\<close> and \<open>len\<close> are its statics. The
  loop gives the next name that starts with the text.
\<close>

fun generate_from :: "string list \<Rightarrow> string \<Rightarrow> nat \<Rightarrow> nat \<Rightarrow> string option \<times> nat" where
  "generate_from [] text len list_index = (None, list_index)"
| "generate_from (name # names) text len list_index =
     (let list_index = Suc list_index
      in if strncmp_eq name text len then (Some (dupstr name), list_index)
         else generate_from names text len list_index)"

definition command_generator ::
  "string list \<Rightarrow> string \<Rightarrow> int \<Rightarrow> nat \<times> nat \<Rightarrow> string option \<times> nat \<times> nat" where
  "command_generator commands text state st =
     (let (list_index, len) = (if state = 0 then (0, length text) else st);
          (name, list_index) = generate_from (drop list_index commands) text len list_index
      in (name, list_index, len))"

text \<open>
  \<open>command_completion\<close>: only the first word of a line is completed to a command. \<open>completion_matches\<close> is
  readline's.
\<close>

definition command_completion ::
  "(string \<Rightarrow> (string \<Rightarrow> int \<Rightarrow> nat \<times> nat \<Rightarrow> string option \<times> nat \<times> nat) \<Rightarrow> 'm option) \<Rightarrow> string list \<Rightarrow> string \<Rightarrow> int \<Rightarrow> 'm option" where
  "command_completion completion_matches commands txt start =
     (if start = 0 then completion_matches txt (command_generator commands) else None)"

text \<open>\<open>completion_matches\<close> calls the generator until it returns \<open>NULL\<close>; at most \<open>n\<close> times here.\<close>

fun generate_all :: "nat \<Rightarrow> string list \<Rightarrow> string \<Rightarrow> int \<Rightarrow> nat \<times> nat \<Rightarrow> string list" where
  "generate_all 0 commands text state st = []"
| "generate_all (Suc n) commands text state st =
     (case command_generator commands text state st of
        (None, st) \<Rightarrow> []
      | (Some name, st) \<Rightarrow> name # generate_all n commands text 1 st)"

section \<open>Search paths\<close>

text \<open>\<open>strtok_r\<close> with one separator: the non-empty pieces between separators, in order.\<close>

function strtok_all :: "char \<Rightarrow> string \<Rightarrow> string list" where
  "strtok_all sep line =
     (let s = dropWhile (\<lambda>c. c = sep) line in
      if s = [] then []
      else takeWhile (\<lambda>c. c \<noteq> sep) s # strtok_all sep (dropWhile (\<lambda>c. c \<noteq> sep) s))"
  by pat_completeness auto
termination
proof (relation "measure (\<lambda>(sep, line). length line)")
  fix sep :: char and line s :: string
  assume s: "s = dropWhile (\<lambda>c. c = sep) line" "s \<noteq> []"
  have "hd s \<noteq> sep" using hd_dropWhile [of "\<lambda>c. c = sep" line] s(2) unfolding s(1) by blast
  then have "length (dropWhile (\<lambda>c. c \<noteq> sep) s) < length s"
    using s(2) by (cases s) (simp_all add: length_dropWhile_le le_imp_less_Suc)
  moreover have "length s \<le> length line" using s(1) by (simp add: length_dropWhile_le)
  ultimately show "((sep, dropWhile (\<lambda>c. c \<noteq> sep) s), (sep, line)) \<in> measure (\<lambda>(sep, line). length line)"
    by simp
qed simp

declare strtok_all.simps [simp del]

text \<open>
  \<open>path_split\<close>: each directory goes to the front of the list. A node is allocated with the size of a
  pointer (4) instead of that of the node (8), a name without room for its terminator; \<open>room n\<close> is
  what a block of \<open>malloc(n)\<close> really holds.
\<close>

fun path_loop :: "(nat \<Rightarrow> nat) \<Rightarrow> string list \<Rightarrow> string list \<Rightarrow> string list outcome" where
  "path_loop room [] tail = Ret tail"
| "path_loop room (dir # dirs) tail =
     oguard (8 \<le> room 4 \<and> length dir < room (length dir)) (path_loop room dirs (dir # tail))"

definition path_split :: "(nat \<Rightarrow> nat) \<Rightarrow> string \<Rightarrow> string list outcome" where
  "path_split room line = path_loop room (strtok_all CHR '':'' line) []"

section \<open>Lemmas\<close>

lemma keep_names_filter: "keep_names accept dir names = filter (\<lambda>n. accept n = 0 \<or> dir n = 1) names"
  by (induction names) auto

lemma accept_suffix_iff: "accept_suffix sfl name = 0 \<longleftrightarrow> sfl = [] \<or> (\<exists>s \<in> set sfl. sublist s name)"
proof -
  have "accept_loop name sfl = 0 \<longleftrightarrow> (\<exists>s \<in> set sfl. sublist s name)"
    by (induction sfl) (simp_all add: strstr_None_iff del: not_None_eq)
  then show ?thesis by (simp add: accept_suffix_def)
qed

text \<open>
  \<open>filename_completion_ignore\<close> keeps, of two or more matches, exactly those that contain one of the
  configured sfl or are directories (all of them when no suffix is configured), in their order;
  one that is left replaces the common part, so it is completed; when none is left the array becomes
  empty; a single match is left as it is.
\<close>

theorem completion_keeps_suffixes:
  assumes "ns \<noteq> []"
    and "kept = filter (\<lambda>n. sfl = [] \<or> (\<exists>s \<in> set sfl. sublist s n) \<or> is_dir os fs n = 1) ns"
  shows "filename_completion_ignore (accept_suffix sfl) (is_dir os fs) (n # ns) =
      Ret (if length kept < 2 then -1 else 0, if length kept < 2 then kept else n # kept)
   \<and> filename_completion_ignore (accept_suffix sfl) (is_dir os fs) [n] = Ret (-1, [n])"
proof -
  have kept: "keep_names (accept_suffix sfl) (is_dir os fs) ns = kept"
    by (simp add: keep_names_filter accept_suffix_iff assms(2) disj_assoc)
  then show ?thesis using assms(1)
    by (cases ns; cases kept) (auto simp: filename_completion_ignore_def Let_def simp del: keep_names.simps)
qed

theorem completion_keeps_suffixes_witness:
  "filename_completion_ignore (accept_suffix [''.elf'']) (\<lambda>n. 0) [''a'', ''a.c'', ''a.elf''] = Ret (-1, [''a.elf''])"
proof -
  define os :: "unit os" where "os = \<lparr>os_open = \<lambda>fs p flags mode. (-1, fs), os_close = \<lambda>fs fd. (0, fs),
     os_read = \<lambda>fs fd n. ((0, []), fs), os_write = \<lambda>fs fd bs. (0, fs), os_lseek = \<lambda>fs fd offset whence. (0, fs),
     os_opendir = \<lambda>fs p. (0, fs), os_readdir = \<lambda>fs dir. ((0, ''''), fs), os_closedir = \<lambda>fs dir. (0, fs), os_isdir = \<lambda>fs dir. False,
     os_stat = \<lambda>fs p. (-1, \<lparr>st_mode = 0, st_size = 0, st_ctime = None, st_atime = None, st_mtime = None\<rparr>),
     os_malloc = \<lambda>fs n. True\<rparr>"
  have "is_dir os () = (\<lambda>n. 0)" by (simp add: is_dir_def os_def fun_eq_iff)
  moreover have "sublist ''.elf'' ''a.elf''" "\<not> sublist ''.elf'' ''a.c''"
    by (simp_all add: sublist_code)
  ultimately show ?thesis
    using completion_keeps_suffixes [of "[''a.c'', ''a.elf'']" "[''a.elf'']" "[''.elf'']" os "()" "''a''"]
    by simp
qed

lemma path_loop_rev:
  assumes "8 \<le> room 4" and "\<forall>n. n < room n"
  shows "path_loop room dirs tail = Ret (rev dirs @ tail)"
  using assms by (induction dirs arbitrary: tail) simp_all

lemma strtok_all_Nil [simp]: "strtok_all sep [] = []"
  by (simp add: strtok_all.simps)

lemma strtok_all_piece:
  "d \<noteq> [] \<Longrightarrow> sep \<notin> set d \<Longrightarrow> strtok_all sep (d @ sep # line) = d # strtok_all sep line"
proof -
  assume d: "d \<noteq> []" "sep \<notin> set d"
  have "dropWhile (\<lambda>c. c = sep) (d @ sep # line) = d @ sep # line" using d by (cases d) auto
  moreover have "takeWhile (\<lambda>c. c \<noteq> sep) (d @ sep # line) = d" "dropWhile (\<lambda>c. c \<noteq> sep) (d @ sep # line) = sep # line"
    using d(2) by (induction d) auto
  moreover have "strtok_all sep (sep # line) = strtok_all sep line"
    by (subst (1 2) strtok_all.simps) simp
  ultimately show ?thesis
    using d(1) by (subst strtok_all.simps) (simp add: Let_def)
qed

lemma strtok_all_last: "d \<noteq> [] \<Longrightarrow> sep \<notin> set d \<Longrightarrow> strtok_all sep d = [d]"
proof -
  assume d: "d \<noteq> []" "sep \<notin> set d"
  have "dropWhile (\<lambda>c. c = sep) d = d" using d by (cases d) auto
  moreover have "takeWhile (\<lambda>c. c \<noteq> sep) d = d" "dropWhile (\<lambda>c. c \<noteq> sep) d = []"
    using d(2) by (induction d) auto
  ultimately show ?thesis
    using d(1) by (subst strtok_all.simps) (simp only: Let_def if_False strtok_all_Nil)
qed

fun join_path :: "string list \<Rightarrow> string" where
  "join_path [] = ''''"
| "join_path [d] = d"
| "join_path (d # ds) = d @ '':'' @ join_path ds"

lemma strtok_all_join:
  "\<forall>d \<in> set ds. d \<noteq> [] \<and> CHR '':'' \<notin> set d \<Longrightarrow> strtok_all CHR '':'' (join_path ds) = ds"
proof (induction ds rule: join_path.induct)
  case 1
  then show ?case by simp
next
  case (2 d)
  then show ?case by (simp add: strtok_all_last)
next
  case (3 d e ds)
  then show ?case by (simp add: strtok_all_piece)
qed

text \<open>
  \<open>path_split\<close> turns the directories of a setting into a list in reverse order, so the last one named
  is the first one searched; on blocks of exactly the size asked for, the first directory already
  writes past its node.
\<close>

theorem path_split_reverses:
  assumes "\<forall>d \<in> set ds. d \<noteq> [] \<and> CHR '':'' \<notin> set d" and "8 \<le> room 4" and "\<forall>n. n < room n"
  shows "path_split room (join_path ds) = Ret (rev ds)
   \<and> (ds \<noteq> [] \<longrightarrow> path_split (\<lambda>n. n) (join_path ds) = Crash)"
  using assms by (cases ds) (simp_all add: path_split_def strtok_all_join path_loop_rev)

theorem path_split_reverses_witness:
  "path_split (\<lambda>n. n + 4) ''/a:/b'' = Ret [''/b'', ''/a''] \<and> path_split (\<lambda>n. n) ''/a:/b'' = Crash"
  using path_split_reverses [of "[''/a'', ''/b'']" "\<lambda>n. n + 4"] by simp

lemma generate_from_spec:
  "generate_from names text len i =
     (case dropWhile (\<lambda>n. \<not> strncmp_eq n text len) names of
        [] \<Rightarrow> (None, i + length names)
      | n # ns \<Rightarrow> (Some n, i + (length names - length ns)))"
proof (induction names arbitrary: i)
  case (Cons n names)
  show ?case
  proof (cases "dropWhile (\<lambda>n. \<not> strncmp_eq n text len) names")
    case Nil
    then show ?thesis using Cons [of "Suc i"]
      by (simp only: generate_from.simps Let_def dupstr_def dropWhile.simps list.case) simp
  next
    case (Cons m ns)
    then have "length ns < length names"
      using length_dropWhile_le [of "\<lambda>n. \<not> strncmp_eq n text len" names] by simp
    then show ?thesis using Cons.IH [of "Suc i"] Cons
      by (simp only: generate_from.simps Let_def dupstr_def dropWhile.simps list.case) (simp add: Suc_diff_le)
  qed
qed simp

lemma filter_step:
  "filter P xs = (case dropWhile (\<lambda>x. \<not> P x) xs of [] \<Rightarrow> [] | y # ys \<Rightarrow> y # filter P ys)"
  by (induction xs) auto

lemma drop_behind:
  assumes "dropWhile P (drop i xs) = y # ys"
  shows "drop (i + (length (drop i xs) - length ys)) xs = ys"
proof -
  have "suffix ys (drop i xs)"
    using suffix_dropWhile [of P "drop i xs"] assms by (metis suffix_ConsD)
  then obtain zs where "drop i xs = zs @ ys" by (auto simp: suffix_def)
  then have "drop (length (drop i xs) - length ys) (drop i xs) = ys" by simp
  then show ?thesis by (simp add: add.commute)
qed

lemma generate_all_from:
  "length commands < i + n \<Longrightarrow> generate_all n commands text 1 (i, len) =
     filter (\<lambda>c. strncmp_eq c text len) (drop i commands)"
proof (induction n arbitrary: i)
  case (Suc n)
  show ?case
  proof (cases "dropWhile (\<lambda>c. \<not> strncmp_eq c text len) (drop i commands)")
    case Nil
    then show ?thesis
      by (subst filter_step) (simp add: command_generator_def generate_from_spec del: dropWhile_eq_Nil_conv)
  next
    case (Cons c cs)
    define j where "j = i + (length (drop i commands) - length cs)"
    have "drop j commands = cs" using drop_behind [OF Cons] by (simp only: j_def)
    moreover have "i < j"
      using Cons length_dropWhile_le [of "\<lambda>c. \<not> strncmp_eq c text len" "drop i commands"]
      by (simp add: j_def)
    moreover have "generate_from (drop i commands) text len i = (Some c, j)"
      by (simp only: generate_from_spec Cons list.case j_def)
    ultimately show ?thesis
      using Suc.IH [of j] Suc.prems by (subst filter_step) (simp add: command_generator_def Cons)
  qed
qed simp

lemma strncmp_prefix: "no_nul text \<Longrightarrow> strncmp_eq c text (length text) \<longleftrightarrow> prefix text c"
proof
  assume no: "no_nul text" and "strncmp_eq c text (length text)"
  then have "take (length text) (c @ [NUL]) = text" by (simp add: strncmp_eq_def)
  moreover from this have "length text \<le> length c"
    using no by (cases "length text \<le> length c") (auto simp: no_nul_def)
  ultimately show "prefix text c" by (simp add: take_is_prefix) (metis take_is_prefix)
qed (auto simp: strncmp_eq_def prefix_def)

text \<open>
  Completion of a command: called until it gives \<open>NULL\<close>, \<open>command_generator\<close> gives exactly the names
  of the command table that start with the text, each once and in the order of the table, whatever
  was left in its statics by an earlier completion.
\<close>

theorem command_generator_complete:
  assumes "no_nul text"
  shows "generate_all (Suc (length commands)) commands text 0 st = filter (prefix text) commands"
proof -
  have "command_generator commands text 0 st = command_generator commands text 1 (0, length text)"
    by (simp add: command_generator_def)
  then have "generate_all (Suc (length commands)) commands text 0 st =
      generate_all (Suc (length commands)) commands text 1 (0, length text)"
    by simp
  also have "\<dots> = filter (\<lambda>c. strncmp_eq c text (length text)) commands"
    by (subst generate_all_from) simp_all
  finally show ?thesis using assms by (simp add: strncmp_prefix)
qed

theorem command_generator_complete_witness:
  "generate_all 4 [''exit'', ''eeexec'', ''help''] ''e'' 0 (7, 7) = [''exit'', ''eeexec'']"
  using command_generator_complete [of "''e''" "[''exit'', ''eeexec'', ''help'']" "(7, 7)"]
  by (simp add: eval_nat_numeral)

end
