(* ===== verification/Shell.thy ===== *)
theory Shell
  imports Netfs Batch Rlcommon
begin

text \<open>
  \<open>pksh.c\<close>, the shell: its state, the commands for the link to the console, the log and the service of
  requests. The state extends \<open>link\<close> with the statics of \<open>pksh.c\<close> and \<open>pksh.h\<close>. A command function takes
  its argument as a string in an array of \<open>cap\<close> characters, as it may be modified in place.
\<close>

section \<open>The environment and the state\<close>

text \<open>
  What the shell runs on: the system calls, \<open>malloc\<close> (the real size of a block), the macro of readline,
  the line being edited, files by their name, what uninitialised local arrays hold, and what strings hold
  that were freed.
\<close>

record 'fs env =
  env_os :: "'fs os"
  env_net :: "'fs net"
  env_system :: "'fs \<Rightarrow> string \<Rightarrow> int \<times> 'fs"
  env_chdir :: "'fs \<Rightarrow> string \<Rightarrow> int \<times> 'fs"
  env_getwd :: "'fs \<Rightarrow> string option"
  env_fopen :: "'fs \<Rightarrow> string \<Rightarrow> string option"
  env_environ :: "string list"
  env_room :: "nat \<Rightarrow> nat"
  env_whitespace :: "char \<Rightarrow> bool"
  env_line :: string
  env_junk :: "byte list"
  env_freed :: "string list \<Rightarrow> string list"

text \<open>
  \<open>exec_state\<close> is the variable \<open>state\<close> of the shell, 1 after a program was started. \<open>log_lines\<close> are the
  lines of the log that were printed, \<open>shown\<close> the output of the commands that are there to show something.
\<close>

record 'fs shell = "'fs link" +
  dst_ip :: string
  src_ip :: string
  pksh_history :: string
  VERBOSE :: int
  DUMPSCREEN :: int
  exec_state :: int
  doloop :: int
  log_to_file :: int
  log_f_fd :: int
  log_buf :: "byte list"
  log_loc :: int
  log_lines :: "string list"
  rl_state :: rl
  shown :: "string list"

definition shell_init :: "'fs \<Rightarrow> 'fs shell" where
  "shell_init fs = link.extend (link_init fs)
     \<lparr>dst_ip = ''192.168.0.10'', src_ip = ''0.0.0.0'', pksh_history = '''', VERBOSE = 0, DUMPSCREEN = 0,
      exec_state = 0, doloop = 1, log_to_file = 0, log_f_fd = 0, log_buf = replicate 1024 0, log_loc = 0,
      log_lines = [], rl_state = rl_init, shown = []\<rparr>"

text \<open>\<open>trim(arg)\<close> when its result is ignored: the string that starts where it started.\<close>

definition trim_arg :: "nat \<Rightarrow> string \<Rightarrow> string outcome" where
  "trim_arg cap arg = omap (\<lambda>(k, t). take k arg @ t) (trim cap arg)"

text \<open>A local array of 256 characters into which a string was built.\<close>

definition argv_array :: "'fs env \<Rightarrow> string \<Rightarrow> byte list" where
  "argv_array env argv = poke 0 (bytes_of argv) (take MAX_PATH (env_junk env))"

definition cmd_con :: "'fs env \<Rightarrow> ('fs, 'z) shell_scheme \<Rightarrow> ('fs, 'z) shell_scheme" where
  "cmd_con env s = snd (pko_cmd_con (env_net env) (dst_ip s) CMD_PORT s)"

text \<open>\<open>change_prompt\<close> on the shell's copy of the statics of \<open>rl_common.c\<close>.\<close>

definition shell_prompt :: "'fs env \<Rightarrow> ('fs, 'z) shell_scheme \<Rightarrow> ('fs, 'z) shell_scheme outcome" where
  "shell_prompt env s = omap (\<lambda>(p, r). s\<lparr>rl_state := r\<rparr>) (change_prompt (env_line env) (rl_state s))"

section \<open>Numbers\<close>

text \<open>
  \<open>strtol\<close> with base 0 or 10, on a host with a \<open>long\<close> of 32 bits: blanks and a sign, with base 0 the
  prefixes of octal and hexadecimal numbers, the longest run of digits, and the limits of the type.
\<close>

definition digit_value :: "char \<Rightarrow> nat option" where
  "digit_value c =
     (let n = of_char c in
      if 48 \<le> n \<and> n \<le> 57 then Some (n - 48)
      else if 97 \<le> n \<and> n \<le> 122 then Some (n - 87)
      else if 65 \<le> n \<and> n \<le> 90 then Some (n - 55)
      else None)"

definition digit_of :: "nat \<Rightarrow> char \<Rightarrow> bool" where
  "digit_of base c \<longleftrightarrow> (case digit_value c of None \<Rightarrow> False | Some d \<Rightarrow> d < base)"

fun digits :: "nat \<Rightarrow> nat \<Rightarrow> string \<Rightarrow> nat" where
  "digits base acc [] = acc"
| "digits base acc (c # s) =
     (case digit_value c of
        None \<Rightarrow> acc
      | Some d \<Rightarrow> if d < base then digits base (acc * base + d) s else acc)"

definition isspace :: "char \<Rightarrow> bool" where
  "isspace c \<longleftrightarrow> c = CHR '' '' \<or> (9 \<le> (of_char c :: nat) \<and> (of_char c :: nat) \<le> 13)"

definition strtol :: "nat \<Rightarrow> string \<Rightarrow> int" where
  "strtol base s =
     (let s = dropWhile isspace s;
          neg = (s \<noteq> [] \<and> hd s = CHR ''-'');
          s = (if s \<noteq> [] \<and> (hd s = CHR ''-'' \<or> hd s = CHR ''+'') then tl s else s);
          hex = (base = 0 \<and> (prefix ''0x'' s \<or> prefix ''0X'' s) \<and> drop 2 s \<noteq> [] \<and> digit_of 16 (hd (drop 2 s)));
          (b, s) = (if hex then (16, drop 2 s)
                    else if base = 0 \<and> prefix ''0'' s then (8, s)
                    else if base = 0 then (10, s) else (base, s));
          n = int (digits b 0 s)
      in max (- (2 ^ 31)) (min (2 ^ 31 - 1) (if neg then - n else n)))"

section \<open>Commands for the link\<close>

definition cli_reset :: "'fs env \<Rightarrow> ('fs, 'z) shell_scheme \<Rightarrow> int \<times> ('fs, 'z) shell_scheme" where
  "cli_reset env s =
     (let s = cmd_con env (s\<lparr>exec_state := 0\<rparr>);
          (r, s) = pko_reset_req (cmd_fd s) s;
          s = close_fd (ps2_netfs_fd s) s
      in (0, s\<lparr>ps2_netfs_fd := -1\<rparr>))"

text \<open>
  The loop \<open>while(1)\<close> in which the shell waits for the console to come back, one attempt a second.
  It is partial: it need not end.
\<close>

partial_function (option) reconnect ::
  "'fs net \<Rightarrow> string \<Rightarrow> ('fs, 'z) shell_scheme \<Rightarrow> ('fs, 'z) shell_scheme option" where
  "reconnect net ip s =
     (let p = cmd_listener net ip SRV_PORT 1 s; s = (snd p)\<lparr>pko_srv_fd := fst p\<rparr>
      in if fst p > 0 then Some s else reconnect net ip s)"

definition wait_console :: "'fs env \<Rightarrow> ('fs, 'z) shell_scheme \<Rightarrow> ('fs, 'z) shell_scheme outcome" where
  "wait_console env s =
     (case reconnect (env_net env) (dst_ip s) s of None \<Rightarrow> Hang | Some s \<Rightarrow> Ret s)"

text \<open>\<open>fix_cmd_arg\<close> into a local array of 256 characters.\<close>

definition shell_argv :: "'fs env \<Rightarrow> string \<Rightarrow> ('fs, 'z) shell_scheme \<Rightarrow> (nat \<times> string) outcome" where
  "shell_argv env arg s = fix_cmd_arg (is_file (env_os env) (host s)) MAX_PATH arg"

definition cli_execeiop :: "'fs env \<Rightarrow> string \<Rightarrow> ('fs, 'z) shell_scheme \<Rightarrow> (int \<times> ('fs, 'z) shell_scheme) outcome" where
  "cli_execeiop env arg s =
     (let s = s\<lparr>exec_state := 1\<rparr> in
      obind (shell_argv env arg s) (\<lambda>(argc, argv).
      let s = cmd_con env s in
      omap (\<lambda>(ret, s). (0, s))
        (pko_execiop_req (env_junk env) (cmd_fd s) (argv_array env argv) (of_nat (length argv)) (of_nat argc) s)))"

definition cli_execee :: "'fs env \<Rightarrow> string \<Rightarrow> ('fs, 'z) shell_scheme \<Rightarrow> (int \<times> ('fs, 'z) shell_scheme) outcome" where
  "cli_execee env arg s =
     obind (if exec_state s = 1 then
              let s = snd (cli_reset env s); s = close_fd (pko_srv_fd s) s in
              obind (shell_prompt env s) (\<lambda>s.
              obind (wait_console env s) (shell_prompt env))
            else Ret s) (\<lambda>s.
     let s = s\<lparr>exec_state := 1\<rparr> in
     obind (shell_argv env arg s) (\<lambda>(argc, argv).
     let s = cmd_con env s in
     omap (\<lambda>(ret, s). (0, s))
       (pko_execee_req (env_junk env) (cmd_fd s) (argv_array env argv) (of_nat (length argv)) (of_nat argc) s)))"

definition cli_gsexec ::
  "'fs env \<Rightarrow> nat \<Rightarrow> string \<Rightarrow> ('fs, 'z) shell_scheme \<Rightarrow> (int \<times> ('fs, 'z) shell_scheme) outcome" where
  "cli_gsexec env cap arg s =
     obind (trim_arg cap arg) (\<lambda>arg.
     let n = size_file (env_os env) (host s) arg in
     if n > 16384 then Ret (-1, s)
     else if n = 0 then Ret (-1, s)
     else
       obind (shell_argv env arg s) (\<lambda>(argc, argv).
       let s = cmd_con env s in
       omap (\<lambda>(ret, s). (0, s)) (pko_gsexec_req (cmd_fd s) (argv_array env argv) (of_cint n) s)))"

definition dumpregs :: "'fs env \<Rightarrow> string \<Rightarrow> u32 \<Rightarrow> ('fs, 'z) shell_scheme \<Rightarrow> (int \<times> ('fs, 'z) shell_scheme) outcome" where
  "dumpregs env file regs s =
     (let argv = arg_prepend_host file in
      oguard (length argv < MAX_PATH)
        (let s = cmd_con env s in Ret (pko_dumpregs_req (cmd_fd s) argv regs s)))"

text \<open>The file name in front of the first blank, in an array of 256 characters.\<close>

definition first_word :: "string \<Rightarrow> nat \<Rightarrow> string outcome" where
  "first_word arg i = oguard (i < MAX_PATH) (Ret (take i arg))"

definition cli_dumpregs ::
  "'fs env \<Rightarrow> nat \<Rightarrow> string \<Rightarrow> ('fs, 'z) shell_scheme \<Rightarrow> (int \<times> ('fs, 'z) shell_scheme) outcome" where
  "cli_dumpregs env cap arg s =
     obind (trim_arg cap arg) (\<lambda>arg.
     case strchr arg CHR '' '' of
       None \<Rightarrow> Ret (-1, s)
     | Some i \<Rightarrow>
         obind (first_word arg i) (\<lambda>file.
         let regs = get_register_index (drop (Suc i) arg) i
         in omap (\<lambda>(ret, s). (0, s)) (dumpregs env file (of_nat regs) s)))"

definition dumpmem ::
  "'fs env \<Rightarrow> string \<Rightarrow> u32 \<Rightarrow> u32 \<Rightarrow> ('fs, 'z) shell_scheme \<Rightarrow> (int \<times> ('fs, 'z) shell_scheme) outcome" where
  "dumpmem env file offset n s =
     (let s = cmd_con env s; argv = arg_prepend_host file
      in oguard (length argv < MAX_PATH) (Ret (pko_dumpmemory_req (cmd_fd s) argv offset n s)))"

definition cli_dumpmem ::
  "'fs env \<Rightarrow> nat \<Rightarrow> string \<Rightarrow> ('fs, 'z) shell_scheme \<Rightarrow> (int \<times> ('fs, 'z) shell_scheme) outcome" where
  "cli_dumpmem env cap arg s =
     obind (trim_arg cap arg) (\<lambda>arg.
     case strchr arg CHR '' '' of
       None \<Rightarrow> Ret (-1, s)
     | Some i \<Rightarrow>
         obind (first_word arg i) (\<lambda>file.
         let ptr = drop i arg; offset = of_cint (strtol 0 ptr) in
         obind (trim (cap - i) ptr) (\<lambda>(k, ptr).
         case strchr ptr CHR '' '' of
           None \<Rightarrow> Ret (-1, s)
         | Some j \<Rightarrow>
             let n = of_cint (strtol 0 (drop j ptr))
             in omap (\<lambda>(ret, s). (0, s)) (dumpmem env file offset n s))))"

definition cli_writemem ::
  "'fs env \<Rightarrow> nat \<Rightarrow> string \<Rightarrow> ('fs, 'z) shell_scheme \<Rightarrow> (int \<times> ('fs, 'z) shell_scheme) outcome" where
  "cli_writemem env cap arg s =
     obind (trim_arg cap arg) (\<lambda>arg.
     case strchr arg CHR '' '' of
       None \<Rightarrow> Ret (-1, s)
     | Some i \<Rightarrow>
         obind (first_word arg i) (\<lambda>file.
         let offset = of_cint (strtol 0 (drop i arg));
             (fd, s) = on_host (\<lambda>fs. os_open (env_os env) fs file O_RDONLY 0) s;
             (n, s) = on_host (\<lambda>fs. os_lseek (env_os env) fs fd 0 2) s;
             (r, s) = on_host (\<lambda>fs. os_close (env_os env) fs fd) s;
             s = cmd_con env s;
             argv = arg_prepend_host file
         in oguard (length argv < MAX_PATH)
              (let (ret, s) = pko_writemem_req (cmd_fd s) argv offset (of_cint n) s in Ret (0, s))))"

definition cli_exception ::
  "'fs env \<Rightarrow> nat \<Rightarrow> string \<Rightarrow> ('fs, 'z) shell_scheme \<Rightarrow> (int \<times> ('fs, 'z) shell_scheme) outcome" where
  "cli_exception env cap arg s =
     obind (trim_arg cap arg) (\<lambda>arg.
     let s = cmd_con env s in
     if arg = ''console'' then
       let (r, s) = pko_dump2pc_req (cmd_fd s) (s\<lparr>DUMPSCREEN := 0\<rparr>) in Ret (0, s)
     else if arg = ''screen'' then
       let (r, s) = pko_dump2screen_req (cmd_fd s) (s\<lparr>DUMPSCREEN := 1\<rparr>) in Ret (0, s)
     else Ret (0, s))"

definition cli_vustart :: "'fs env \<Rightarrow> string \<Rightarrow> ('fs, 'z) shell_scheme \<Rightarrow> int \<times> ('fs, 'z) shell_scheme" where
  "cli_vustart env arg s =
     (let vpu = strtol 10 arg; s = cmd_con env s in
      if vpu \<noteq> 0 \<and> vpu \<noteq> 1 then (-1, s)
      else let (r, s) = pko_start_vu (cmd_fd s) (of_cint vpu) s in (0, s))"

definition cli_vustop :: "'fs env \<Rightarrow> string \<Rightarrow> ('fs, 'z) shell_scheme \<Rightarrow> int \<times> ('fs, 'z) shell_scheme" where
  "cli_vustop env arg s =
     (let vpu = strtol 10 arg; s = cmd_con env s in
      if vpu \<noteq> 0 \<and> vpu \<noteq> 1 then (-1, s)
      else let (r, s) = pko_stop_vu (cmd_fd s) (of_cint vpu) s in (0, s))"

definition cli_vumem :: "('fs, 'z) shell_scheme \<Rightarrow> int \<times> ('fs, 'z) shell_scheme" where
  "cli_vumem s = (0, s)"

definition cli_poweroff :: "'fs env \<Rightarrow> ('fs, 'z) shell_scheme \<Rightarrow> int \<times> ('fs, 'z) shell_scheme" where
  "cli_poweroff env s = (let s = cmd_con env s; (r, s) = pko_poweroff_req (cmd_fd s) s in (0, s))"

section \<open>Settings\<close>

definition cli_debug :: "('fs, 'z) shell_scheme \<Rightarrow> int \<times> ('fs, 'z) shell_scheme" where
  "cli_debug s = (0, if pko_debug s \<noteq> 0 then pko_set_debug 0 s else pko_set_debug 1 s)"

definition cli_verbose :: "('fs, 'z) shell_scheme \<Rightarrow> int \<times> ('fs, 'z) shell_scheme" where
  "cli_verbose s = (0, if VERBOSE s \<noteq> 0 then s\<lparr>VERBOSE := 0\<rparr> else s\<lparr>VERBOSE := 1\<rparr>)"

definition cli_quit :: "('fs, 'z) shell_scheme \<Rightarrow> int \<times> ('fs, 'z) shell_scheme" where
  "cli_quit s = (0, s\<lparr>doloop := 0\<rparr>)"

definition cli_setroot :: "string \<Rightarrow> ('fs, 'z) shell_scheme \<Rightarrow> int \<times> ('fs, 'z) shell_scheme" where
  "cli_setroot arg s = (0, pko_set_root arg s)"

definition cli_reconnect :: "'fs env \<Rightarrow> ('fs, 'z) shell_scheme \<Rightarrow> int \<times> ('fs, 'z) shell_scheme" where
  "cli_reconnect env s =
     (let s = close_fd (pko_srv_fd s) s;
          (fd, s) = cmd_listener (env_net env) (dst_ip s) SRV_PORT 60 s;
          s = close_fd (ps2_netfs_fd s) (s\<lparr>pko_srv_fd := fd\<rparr>)
      in (0, s\<lparr>ps2_netfs_fd := -1\<rparr>))"

text \<open>\<open>S_IRUSR | S_IWUSR | S_IRGRP | S_IROTH\<close>\<close>

abbreviation (input) LOG_F_MODE :: u32 where "LOG_F_MODE \<equiv> 0x1A4"

definition cli_log ::
  "'fs env \<Rightarrow> nat \<Rightarrow> string \<Rightarrow> ('fs, 'z) shell_scheme \<Rightarrow> (int \<times> ('fs, 'z) shell_scheme) outcome" where
  "cli_log env cap arg s =
     obind (trim_arg cap arg) (\<lambda>arg.
     if arg = ''stdout'' \<or> arg = '''' then
       let s = (if log_to_file s \<noteq> 0
                then snd (on_host (\<lambda>fs. os_close (env_os env) fs (log_f_fd s)) s) else s)
       in Ret (0, s\<lparr>log_to_file := 0\<rparr>)
     else
       let (fd, s) = on_host (\<lambda>fs. os_open (env_os env) fs arg (O_WRONLY OR O_CREAT OR O_TRUNC) LOG_F_MODE)
             (s\<lparr>log_to_file := 1\<rparr>)
       in Ret (0, s\<lparr>log_f_fd := fd\<rparr>))"

section \<open>The log\<close>

text \<open>
  \<open>pko_log_read\<close>: \<open>log_buf\<close> and \<open>log_loc\<close> are its statics. \<open>sizeof(buf) - loc - 1\<close> is unsigned, so it is
  \<open><= 0\<close> only when \<open>loc\<close> is 1023. A negative \<open>loc\<close>, left by an error of \<open>recvfrom\<close>, makes the next call
  write in front of the buffer.
\<close>

definition log_flush :: "'fs env \<Rightarrow> ('fs, 'z) shell_scheme \<Rightarrow> ('fs, 'z) shell_scheme outcome" where
  "log_flush env s =
     obind (of_option (c_str (log_buf s))) (\<lambda>text.
     if log_to_file s \<noteq> 0 then
       let (r, s) = on_host (\<lambda>fs. os_write (env_os env) fs (log_f_fd s) (bytes_of text)) s
       in Ret (s\<lparr>log_loc := 0\<rparr>)
     else if strchr text NEWLINE \<noteq> None \<or> log_loc s = 1023 then
       oguard (text \<noteq> [])
         (let text = (if last text \<noteq> NEWLINE then butlast text @ [NEWLINE] else text) in
          obind (write_log_line (env_line env) text (rl_state s)) (\<lambda>((before, out, after), r).
          Ret (s\<lparr>log_buf := poke 0 (bytes_of text) (log_buf s), log_lines := log_lines s @ [out],
            rl_state := r, log_loc := 0\<rparr>)))
     else Ret s)"

definition pko_log_read :: "'fs env \<Rightarrow> int \<Rightarrow> ('fs, 'z) shell_scheme \<Rightarrow> (int \<times> ('fs, 'z) shell_scheme) outcome" where
  "pko_log_read env fd s =
     (let buf = (if log_loc s = 0 then replicate 1024 0 else log_buf s) in
      oguard (0 \<le> log_loc s)
        (case sys_recvfrom (1024 - nat (log_loc s) - 1) (rx s fd) of
           (Blocked, es) \<Rightarrow> Hang
         | (res, es) \<Rightarrow>
             let (ret, bs) = (case res of Got bs \<Rightarrow> (int (length bs), bs) | Failed e \<Rightarrow> (-1, []) | _ \<Rightarrow> (0, []));
                 s = s\<lparr>rx := (rx s)(fd := es), log_buf := poke (nat (log_loc s)) bs buf,
                       log_loc := log_loc s + ret\<rparr>
             in omap (Pair ret) (log_flush env s)))"

section \<open>Requests to the shell\<close>

text \<open>A string in \<open>recv_packet\<close>, from an offset on.\<close>

definition packet_string :: "nat \<Rightarrow> ('fs, 'z) link_scheme \<Rightarrow> string outcome" where
  "packet_string off s = of_option (c_str (drop off (recv_packet s)))"

definition srv_stop_vu :: "'fs env \<Rightarrow> ('fs, 'z) shell_scheme \<Rightarrow> ('fs, 'z) shell_scheme" where
  "srv_stop_vu env s =
     (let s = cmd_con env s
      in snd (pko_stop_vu (cmd_fd s) (ucast (ntohs (ucast (uq_vpu (view_vu_req (recv_packet s)))))) s))"

definition srv_start_vu :: "'fs env \<Rightarrow> ('fs, 'z) shell_scheme \<Rightarrow> ('fs, 'z) shell_scheme" where
  "srv_start_vu env s =
     (let s = cmd_con env s
      in snd (pko_start_vu (cmd_fd s) (ucast (ntohs (ucast (uq_vpu (view_vu_req (recv_packet s)))))) s))"

text \<open>The NUL that \<open>trim\<close> stores when its argument lies in \<open>recv_packet\<close>.\<close>

definition trim_packet :: "nat \<Rightarrow> string \<Rightarrow> ('fs, 'z) link_scheme \<Rightarrow> ('fs, 'z) link_scheme" where
  "trim_packet off arg s = s\<lparr>recv_packet :=
     poke (off + leading_blanks arg + last_nonblank arg (length arg)) [0] (recv_packet s)\<rparr>"

text \<open>The \<open>switch\<close> of \<open>pko_srv_read\<close>. The case \<open>GSEXEC_CMD\<close> has no \<open>break\<close>.\<close>

definition srv_switch :: "'fs env \<Rightarrow> u32 \<Rightarrow> ('fs, 'z) shell_scheme \<Rightarrow> ('fs, 'z) shell_scheme outcome" where
  "srv_switch env cmd s =
     (case file_command (env_os env) cmd of
        Some h \<Rightarrow> omap snd (h s)
      | None \<Rightarrow>
          if cmd = DUMPMEM_CMD then
            let req = view_memio_req (recv_packet s) in
            obind (packet_string 14 s) (\<lambda>argv.
              omap snd (dumpmem env argv (ntohl (iq_offset req)) (ntohl (iq_size req)) s))
          else if cmd = DUMPREGS_CMD then
            let req = view_dumpregs_req (recv_packet s) in
            obind (packet_string 10 s) (\<lambda>argv. omap snd (dumpregs env argv (ntohl (eq_regs req)) s))
          else if cmd = GSEXEC_CMD then
            obind (packet_string 8 s) (\<lambda>file.
            obind (cli_gsexec env (PACKET_MAXSIZE - 8) file s) (\<lambda>(r, s).
              Ret (srv_stop_vu env (trim_packet 8 file s))))
          else if cmd = STOPVU_CMD then Ret (srv_stop_vu env s)
          else if cmd = STARTVU_CMD then Ret (srv_start_vu env s)
          else if cmd = EXECEE_CMD then
            obind (packet_string 10 s) (\<lambda>argv. omap snd (cli_execee env argv s))
          else if cmd = EXECIOP_CMD then
            obind (packet_string 10 s) (\<lambda>argv. omap snd (cli_execeiop env argv s))
          else if cmd = RESET_CMD then Ret (snd (cli_reset env s))
          else Ret s)"

definition pko_srv_read :: "'fs env \<Rightarrow> int \<Rightarrow> ('fs, 'z) shell_scheme \<Rightarrow> (int \<times> ('fs, 'z) shell_scheme) outcome" where
  "pko_srv_read env fd s =
     obind (recv_into_packet fd 0 (int sizeof_pkt_hdr) s) (\<lambda>(len, s).
     if len < 0 then Ret (len, s)
     else if len = 0 then
       (if fd = pko_srv_fd s then
          obind (shell_prompt env (close_fd fd s)) (\<lambda>s.
          obind (wait_console env s) (\<lambda>s.
          omap (Pair 0) (shell_prompt env ((close_fd (ps2_netfs_fd s) s)\<lparr>ps2_netfs_fd := -1\<rparr>))))
        else Ret (-1, s))
     else
       let hdr = view_hdr (recv_packet s); cmd = ntohl (p_cmd hdr); hlen = ntohs (p_len hdr) in
       obind (recv_body fd len hlen s) (\<lambda>(ret, s).
       obind (srv_switch env cmd s) (\<lambda>s. Ret (0, s))))"

section \<open>What the commands keep\<close>

text \<open>
  \<open>shell_keeps s s'\<close>: the buffers keep their size, the descriptors of the log and of the command server
  and the configuration stay, and what was sent, closed and logged is only added to.
\<close>

definition shell_keeps :: "('fs, 'z) shell_scheme \<Rightarrow> ('fs, 'z) shell_scheme \<Rightarrow> bool" where
  "shell_keeps s s' \<longleftrightarrow>
     (wf_link s \<longrightarrow> wf_link s') \<and> (length (log_buf s) = 1024 \<longrightarrow> length (log_buf s') = 1024)
     \<and> (pksh_srv_fd s', log_fd s', path_list s', dst_ip s', src_ip s', pksh_history s')
         = (pksh_srv_fd s, log_fd s, path_list s, dst_ip s, src_ip s, pksh_history s)
     \<and> prefix (tx_log s) (tx_log s') \<and> prefix (closed s) (closed s') \<and> prefix (log_lines s) (log_lines s')
     \<and> prefix (shown s) (shown s')"

lemma shell_keeps_refl [simp, intro]: "shell_keeps s s"
  by (simp add: shell_keeps_def)

lemma shell_keeps_trans [trans]: "shell_keeps s s1 \<Longrightarrow> shell_keeps s1 s2 \<Longrightarrow> shell_keeps s s2"
  unfolding shell_keeps_def by (auto intro: prefix_order.trans)

text \<open>The fields of the shell are the part behind the fields of the link.\<close>

lemma same_more:
  assumes "link.more s' = link.more (s :: ('fs, 'z) shell_scheme)"
  shows "dst_ip s' = dst_ip s" "src_ip s' = src_ip s" "pksh_history s' = pksh_history s" "VERBOSE s' = VERBOSE s"
    "DUMPSCREEN s' = DUMPSCREEN s" "exec_state s' = exec_state s" "doloop s' = doloop s"
    "log_to_file s' = log_to_file s" "log_f_fd s' = log_f_fd s" "log_buf s' = log_buf s"
    "log_loc s' = log_loc s" "log_lines s' = log_lines s" "rl_state s' = rl_state s"
    "shown s' = shown s"
  using assms by (cases s; cases s'; simp)+

lemma shell_keeps_serves: "serves s s' \<Longrightarrow> shell_keeps s (s' :: ('fs, 'z) shell_scheme)"
  using same_more [of s' s] by (auto simp: serves_def shell_keeps_def)

lemma shell_keeps_opens: "opens s s' \<Longrightarrow> shell_keeps s (s' :: ('fs, 'z) shell_scheme)"
  using same_more [of s' s] by (auto simp: opens_def shell_keeps_def wf_link_def)

lemma shell_keeps_send_fd: "shell_keeps s (snd (send_fd fd bs s))"
  by (auto simp: shell_keeps_def wf_link_def send_fd_def split: prod.splits sum.splits)

lemma shell_keeps_recv:
  assumes "recv_into_packet fd off n s = Ret (r, s')" and "off \<le> PACKET_MAXSIZE"
  shows "shell_keeps s s'"
proof -
  obtain bs s1 where s1: "pko_recv_bytes fd (length (recv_packet s) - off) n s = Ret (r, bs, s1)"
    and s': "s' = s1\<lparr>recv_packet := poke off bs (recv_packet s1)\<rparr>"
    using assms(1) by (auto simp: recv_into_packet_def omap_Ret_iff)
  obtain es where "s1 = s\<lparr>rx := (rx s)(fd := es)\<rparr>"
    using s1 by (auto simp: pko_recv_bytes_def omap_Ret_iff)
  with s' assms(2) pko_recv_bytes_length [OF s1] show ?thesis
    by (auto simp: shell_keeps_def wf_link_def length_poke)
qed

lemma shell_keeps_updates [simp]:
  "shell_keeps s (s'\<lparr>exec_state := n\<rparr>) = shell_keeps s s'" "shell_keeps s (s'\<lparr>ps2_netfs_fd := n\<rparr>) = shell_keeps s s'"
  "shell_keeps s (s'\<lparr>pko_srv_fd := n\<rparr>) = shell_keeps s s'" "shell_keeps s (s'\<lparr>DUMPSCREEN := n\<rparr>) = shell_keeps s s'"
  "shell_keeps s (s'\<lparr>VERBOSE := n\<rparr>) = shell_keeps s s'" "shell_keeps s (s'\<lparr>doloop := n\<rparr>) = shell_keeps s s'"
  "shell_keeps s (s'\<lparr>rl_state := r\<rparr>) = shell_keeps s s'" "shell_keeps s (s'\<lparr>log_to_file := n\<rparr>) = shell_keeps s s'"
  "shell_keeps s (s'\<lparr>log_f_fd := n\<rparr>) = shell_keeps s s'" "shell_keeps s (s'\<lparr>DEBUG := n\<rparr>) = shell_keeps s s'"
  "shell_keeps s (s'\<lparr>host := fs\<rparr>) = shell_keeps s s'" "shell_keeps s (s'\<lparr>rx := es\<rparr>) = shell_keeps s s'"
  "shell_keeps s (s'\<lparr>log_loc := n\<rparr>) = shell_keeps s s'"
  by (simp_all add: shell_keeps_def wf_link_def)

lemma shell_keeps_close: "shell_keeps s (close_fd fd s)"
  by (simp add: shell_keeps_def wf_link_def close_fd_def)

lemma shell_keeps_on_host: "on_host f s = (r, s') \<Longrightarrow> shell_keeps s s'"
  by (rule shell_keeps_opens) (rule opens_on_host)

lemma shell_keeps_listener: "cmd_listener net ip port t s = (r, s') \<Longrightarrow> shell_keeps s s'"
  by (rule shell_keeps_opens) (rule cmd_listener_cases [THEN conjunct1])

lemma shell_keeps_cmd_con: "shell_keeps s (cmd_con env s)"
  unfolding cmd_con_def by (rule shell_keeps_opens) (metis pko_cmd_con_opens(1) prod.collapse)

text \<open>
  One more operation behind a run, in the form of the results of the operations. A function of the stub is
  a \<open>send_fd\<close>, with a check in front of it or without.
\<close>

lemmas stub_defs = pko_dump2pc_req_def pko_dump2screen_req_def pko_poweroff_req_def pko_reset_req_def
  pko_dumpmemory_req_def pko_writemem_req_def pko_dumpregs_req_def pko_execee_req_def pko_execiop_req_def
  exec_req_def pko_gsexec_req_def pko_stop_vu_def pko_start_vu_def hdr_req_def Let_def

lemma keeps_send: "shell_keeps s s1 \<Longrightarrow> send_fd fd bs s1 = (r, s2) \<Longrightarrow> shell_keeps s s2"
  using shell_keeps_trans [OF _ shell_keeps_send_fd [of s1 fd bs]] by simp

lemma keeps_con: "shell_keeps s s1 \<Longrightarrow> shell_keeps s (cmd_con env s1)"
  by (rule shell_keeps_trans [OF _ shell_keeps_cmd_con])

lemma keeps_close: "shell_keeps s s1 \<Longrightarrow> shell_keeps s (close_fd fd s1)"
  by (rule shell_keeps_trans [OF _ shell_keeps_close])

lemma keeps_host: "shell_keeps s s1 \<Longrightarrow> on_host f s1 = (r, s2) \<Longrightarrow> shell_keeps s s2"
  by (rule shell_keeps_trans [OF _ shell_keeps_on_host])

lemma keeps_listener: "shell_keeps s s1 \<Longrightarrow> cmd_listener net ip port t s1 = (r, s2) \<Longrightarrow> shell_keeps s s2"
  by (rule shell_keeps_trans [OF _ shell_keeps_listener])

lemma keeps_prompt: "shell_keeps s s1 \<Longrightarrow> shell_prompt env s1 = Ret s2 \<Longrightarrow> shell_keeps s s2"
  by (auto simp: shell_prompt_def omap_Ret_iff)

lemma reconnect_keeps:
  assumes "reconnect net ip s = Some s'"
  shows "shell_keeps s s'"
  using assms
proof (induction rule: reconnect.raw_induct [rotated 1, consumes 1, case_names attempt])
  case (attempt rec net ip s s')
  obtain r s1 where run: "cmd_listener net ip SRV_PORT 1 s = (r, s1)" by fastforce
  then have "shell_keeps s (s1\<lparr>pko_srv_fd := r\<rparr>)" by (simp add: shell_keeps_listener)
  moreover have "if r > 0 then s' = s1\<lparr>pko_srv_fd := r\<rparr> else rec net ip (s1\<lparr>pko_srv_fd := r\<rparr>) = Some s'"
    using attempt(2) run by (auto simp: Let_def split: if_splits)
  ultimately show ?case using attempt(1) by (metis shell_keeps_trans)
qed

lemma keeps_wait: "shell_keeps s s1 \<Longrightarrow> wait_console env s1 = Ret s2 \<Longrightarrow> shell_keeps s s2"
  by (auto simp: wait_console_def split: option.splits dest!: reconnect_keeps intro: shell_keeps_trans)

lemmas keeps_dests = keeps_send keeps_host keeps_listener keeps_prompt keeps_wait
lemmas outcome_dests = obind_Ret_iff omap_Ret_iff oguard_Ret_iff

section \<open>The contract of a command\<close>

text \<open>A command of the shell may be run with any argument; when it returns, it kept what is to be kept.\<close>

locale shell_command =
  fixes command :: "string \<Rightarrow> ('fs, 'z) shell_scheme \<Rightarrow> (int \<times> ('fs, 'z) shell_scheme) outcome"
  assumes keeps: "command arg s = Ret (r, s') \<Longrightarrow> shell_keeps s s'"
begin

lemma command_wf: "command arg s = Ret (r, s') \<Longrightarrow> wf_link s \<Longrightarrow> wf_link s'"
  using keeps [of arg s r s'] by (simp add: shell_keeps_def)

lemma keeps_after: "shell_keeps s s1 \<Longrightarrow> command arg s1 = Ret (r, s2) \<Longrightarrow> shell_keeps s s2"
  by (rule shell_keeps_trans [OF _ keeps])

end

lemma keeps_snd:
  assumes "shell_keeps s s1"
  shows "shell_keeps s (snd (send_fd fd bs s1))" "shell_keeps s (snd (on_host f s1))"
    "shell_keeps s (snd (cmd_listener net ip port t s1))" "shell_keeps s (cmd_con env s1)"
    "shell_keeps s (close_fd d s1)"
  using assms
  by (metis keeps_send prod.collapse, metis keeps_host prod.collapse, metis keeps_listener prod.collapse,
      rule keeps_con, rule keeps_close)

lemma keeps_away:
  assumes "shell_prompt env s1 = Ret s2" and "wait_console env s2 = Ret s3" and "shell_prompt env s3 = Ret s4"
    and "shell_keeps s s1"
  shows "shell_keeps s s4"
  using assms keeps_prompt keeps_wait by blast

lemma cli_reset_keeps: "shell_keeps s s1 \<Longrightarrow> shell_keeps s (snd (cli_reset env s1))"
  by (simp add: cli_reset_def stub_defs case_prod_beta keeps_snd)

lemma dumpregs_keeps: "dumpregs env f n s = Ret (r, s') \<Longrightarrow> shell_keeps s s'"
  by (auto simp: dumpregs_def stub_defs outcome_dests keeps_snd dest!: arg_cong [where f = snd])

lemma dumpmem_keeps: "dumpmem env f a n s = Ret (r, s') \<Longrightarrow> shell_keeps s s'"
  by (auto simp: dumpmem_def stub_defs outcome_dests keeps_snd dest!: arg_cong [where f = snd])

interpretation reset: shell_command "\<lambda>arg s. Ret (cli_reset env s)" for env
  by unfold_locales (metis cli_reset_keeps outcome.inject shell_keeps_refl snd_conv)

interpretation execeiop: shell_command "cli_execeiop env" for env
  by unfold_locales (auto simp: cli_execeiop_def stub_defs outcome_dests case_prod_beta keeps_snd)

interpretation execee: shell_command "cli_execee env" for env
proof
  fix arg s r and s' :: "('a, 'b) shell_scheme"
  assume run: "cli_execee env arg s = Ret (r, s')"
  then obtain s1 where "shell_keeps s s1" and "\<exists>argc argv. shell_argv env arg (s1\<lparr>exec_state := 1\<rparr>) = Ret (argc, argv) \<and>
      (let s = cmd_con env (s1\<lparr>exec_state := 1\<rparr>) in
       omap (\<lambda>(ret, s). (0, s)) (pko_execee_req (env_junk env) (cmd_fd s) (argv_array env argv)
         (of_nat (length argv)) (of_nat argc) s)) = Ret (r, s')"
    using keeps_away [of env _ _ _ _ s] keeps_close [OF cli_reset_keeps [OF shell_keeps_refl]]
    unfolding cli_execee_def by (auto simp: obind_Ret_iff Let_def split: if_splits) blast+
  then show "shell_keeps s s'"
    by (auto simp: stub_defs outcome_dests case_prod_beta keeps_snd)
qed

interpretation gsexec: shell_command "cli_gsexec env cap" for env cap
  by unfold_locales
     (auto simp: cli_gsexec_def stub_defs outcome_dests case_prod_beta keeps_snd split: if_splits)

interpretation dumpregs_cmd: shell_command "cli_dumpregs env cap" for env cap
  by unfold_locales (auto simp: cli_dumpregs_def outcome_dests split: option.splits dest: dumpregs_keeps)

interpretation dumpmem_cmd: shell_command "cli_dumpmem env cap" for env cap
  by unfold_locales
     (auto simp: cli_dumpmem_def Let_def outcome_dests split: option.splits dest!: dumpmem_keeps)

interpretation writemem: shell_command "cli_writemem env cap" for env cap
  by unfold_locales
     (auto simp: cli_writemem_def stub_defs outcome_dests case_prod_beta keeps_snd split: option.splits)

interpretation exception: shell_command "cli_exception env cap" for env cap
  by unfold_locales
     (auto simp: cli_exception_def stub_defs outcome_dests case_prod_beta keeps_snd split: if_splits)

interpretation vustart: shell_command "\<lambda>arg s. Ret (cli_vustart env arg s)" for env
  by unfold_locales (auto simp: cli_vustart_def stub_defs case_prod_beta keeps_snd split: if_splits)

interpretation vustop: shell_command "\<lambda>arg s. Ret (cli_vustop env arg s)" for env
  by unfold_locales (auto simp: cli_vustop_def stub_defs case_prod_beta keeps_snd split: if_splits)

interpretation poweroff: shell_command "\<lambda>arg s. Ret (cli_poweroff env s)" for env
  by unfold_locales (auto simp: cli_poweroff_def stub_defs case_prod_beta keeps_snd)

interpretation debug: shell_command "\<lambda>arg s. Ret (cli_debug s)"
  by unfold_locales (auto simp: cli_debug_def pko_set_debug_def)

interpretation verbose: shell_command "\<lambda>arg s. Ret (cli_verbose s)"
  by unfold_locales (auto simp: cli_verbose_def)

interpretation quit: shell_command "\<lambda>arg s. Ret (cli_quit s)"
  by unfold_locales (auto simp: cli_quit_def)

interpretation vumem: shell_command "\<lambda>arg s. Ret (cli_vumem s)"
  by unfold_locales (auto simp: cli_vumem_def)

interpretation setroot: shell_command "\<lambda>arg s. Ret (cli_setroot arg s)"
  by unfold_locales (auto simp: cli_setroot_def pko_set_root_def)

interpretation reconnect_cmd: shell_command "\<lambda>arg s. Ret (cli_reconnect env s)" for env
  by unfold_locales (auto simp: cli_reconnect_def Let_def case_prod_beta keeps_snd)

interpretation log_cmd: shell_command "cli_log env cap" for env cap
  by unfold_locales
     (auto simp: cli_log_def Let_def outcome_dests case_prod_beta keeps_snd split: if_splits)

section \<open>Serving requests\<close>

interpretation shell: framed_server "pko_srv_read env" "\<lambda>cmd s. obind (srv_switch env cmd s) (\<lambda>s. Ret (0, s))"
  for env
  by unfold_locales (simp add: pko_srv_read_def Let_def)

lemma srv_vu_keeps: "shell_keeps s s1 \<Longrightarrow> shell_keeps s (srv_stop_vu env s1)"
  "shell_keeps s s1 \<Longrightarrow> shell_keeps s (srv_start_vu env s1)"
  by (simp_all add: srv_stop_vu_def srv_start_vu_def stub_defs keeps_snd)

lemma trim_arg_room: "trim_arg cap arg = Ret t \<Longrightarrow> leading_blanks arg + last_nonblank arg (length arg) < cap"
  by (auto simp: trim_arg_def trim_def omap_Ret_iff oguard_Ret_iff Let_def)

lemma trim_packet_keeps:
  assumes "cli_gsexec env (PACKET_MAXSIZE - 8) arg s = Ret (r, s1)"
  shows "shell_keeps s (trim_packet 8 arg s1)"
proof -
  have "leading_blanks arg + last_nonblank arg (length arg) < PACKET_MAXSIZE - 8"
    using assms trim_arg_room by (auto simp: cli_gsexec_def obind_Ret_iff)
  then have "shell_keeps s1 (trim_packet 8 arg s1)"
    by (simp add: shell_keeps_def trim_packet_def wf_link_def length_poke)
  with gsexec.keeps [OF assms] show ?thesis by (rule shell_keeps_trans)
qed

lemma srv_switch_keeps:
  assumes "srv_switch env cmd s = Ret s'" and "wf_link s"
  shows "shell_keeps s s'"
proof (cases "file_command (env_os env) cmd :: (('a, 'b) shell_scheme \<Rightarrow> _) option")
  case (Some h)
  then show ?thesis
    using assms file_command_handler [OF Some assms(2)]
    by (auto simp: srv_switch_def omap_Ret_iff intro: shell_keeps_serves)
next
  case None
  then show ?thesis
    using assms(1)
    by (auto simp: srv_switch_def outcome_dests Let_def srv_vu_keeps trim_packet_keeps cli_reset_keeps
        split: if_splits dest!: dumpmem_keeps dumpregs_keeps execee.keeps execeiop.keeps)
qed

lemma pko_srv_read_keeps:
  assumes "pko_srv_read env fd s = Ret (r, s')" and "wf_link s"
  shows "shell_keeps s s'"
proof -
  obtain len s1 where rcv: "recv_into_packet fd 0 6 s = Ret (len, s1)"
    using assms(1) by (auto simp: pko_srv_read_def obind_Ret_iff)
  have s1: "shell_keeps s s1" by (rule shell_keeps_recv [OF rcv]) simp
  have wf1: "wf_link s1" using s1 assms(2) by (simp add: shell_keeps_def)
  consider "len < 0" | "len = 0" | "0 < len" by linarith
  then show ?thesis
  proof cases
    case 1
    then show ?thesis using assms(1) rcv s1 by (simp add: pko_srv_read_def)
  next
    case 2
    show ?thesis
    proof (cases "fd = pko_srv_fd s1")
      case True
      then obtain s2 s3 where "shell_prompt env (close_fd fd s1) = Ret s2" "wait_console env s2 = Ret s3"
        "shell_prompt env ((close_fd (ps2_netfs_fd s3) s3)\<lparr>ps2_netfs_fd := -1\<rparr>) = Ret s'"
        using assms(1) rcv 2 by (auto simp: pko_srv_read_def obind_Ret_iff omap_Ret_iff)
      moreover have "shell_keeps s s3" using calculation(1,2) keeps_close [OF s1] keeps_prompt keeps_wait by blast
      then have "shell_keeps s ((close_fd (ps2_netfs_fd s3) s3)\<lparr>ps2_netfs_fd := -1\<rparr>)" by (simp add: keeps_close)
      ultimately show ?thesis using keeps_prompt by blast
    next
      case False
      then show ?thesis using assms(1) rcv 2 s1 by (simp add: pko_srv_read_def)
    qed
  next
    case 3
    then obtain ret s2 where
      body: "recv_body fd len (ntohs (p_len (view_hdr (recv_packet s1)))) s1 = Ret (ret, s2)"
      and sw: "srv_switch env (ntohl (p_cmd (view_hdr (recv_packet s1)))) s2 = Ret s'"
      using assms(1) rcv by (auto simp: pko_srv_read_def Let_def obind_Ret_iff)
    have "len \<le> 6" using rcv assms(2) by (cases rule: recv_into_packet_cases) auto
    then have "nat len \<le> PACKET_MAXSIZE" by simp
    with body have "shell_keeps s1 s2" unfolding recv_body_def by (rule shell_keeps_recv)
    with s1 have "shell_keeps s s2" by (rule shell_keeps_trans)
    moreover have "wf_link s2" using calculation assms(2) by (simp add: shell_keeps_def)
    ultimately show ?thesis using srv_switch_keeps [OF sw] by (blast intro: shell_keeps_trans)
  qed
qed

lemma c_str_length: "c_str bs = Some t \<Longrightarrow> length t < length bs"
proof -
  assume "c_str bs = Some t"
  then have "0 \<in> set bs" and t: "length t = length (takeWhile (\<lambda>b. b \<noteq> 0) bs)" by (auto simp: c_str_def split: if_splits)
  then have "takeWhile (\<lambda>b. b \<noteq> 0) bs \<noteq> bs" by (auto simp: takeWhile_eq_all_conv)
  then show "length t < length bs"
    using t by (metis length_takeWhile_le nat_less_le takeWhile_eq_take take_all_iff order_refl)
qed

lemma last_replaced_length: "t \<noteq> [] \<Longrightarrow> length (butlast t @ [c]) = length t"
  by simp

lemma write_log_line_keeps_log: "log_flush env s = Ret s' \<Longrightarrow> shell_keeps s s'"
  by (auto simp: log_flush_def outcome_dests Let_def case_prod_beta keeps_snd split: if_splits dest!: c_str_length)
     (auto simp: shell_keeps_def wf_link_def length_poke last_replaced_length)

lemma sys_recvfrom_length: "sys_recvfrom n es = (Got bs, es') \<Longrightarrow> length bs \<le> n"
  by (induction n es rule: sys_recvfrom.induct) auto

lemma log_buf_length:
  assumes "fst (sys_recvfrom (1023 - nat loc) es) = Got bs" and "length buf = 1024"
  shows "length (poke (nat loc) bs buf) = 1024"
proof -
  have "length bs \<le> 1023 - nat loc" using assms(1) sys_recvfrom_length by (metis prod.collapse)
  then have "bs \<noteq> [] \<Longrightarrow> nat loc + length bs \<le> length buf" using assms(2) by (cases bs) auto
  then show ?thesis using assms(2) by (cases "bs = []") (simp_all add: length_poke)
qed

lemma pko_log_read_keeps: "pko_log_read env fd s = Ret (r, s') \<Longrightarrow> shell_keeps s s'"
  by (auto simp: pko_log_read_def outcome_dests Let_def case_prod_beta split: rx_result.splits
      dest!: write_log_line_keeps_log) (auto simp: shell_keeps_def wf_link_def log_buf_length)

section \<open>Waiting for the console\<close>

text \<open>One round of the loop in which the shell waits: the descriptor is stored, good or not.\<close>

definition attempt :: "'fs net \<Rightarrow> string \<Rightarrow> ('fs, 'z) shell_scheme \<Rightarrow> ('fs, 'z) shell_scheme" where
  "attempt net ip s = (let (fd, s) = cmd_listener net ip SRV_PORT 1 s in s\<lparr>pko_srv_fd := fd\<rparr>)"

lemma reconnect_attempt:
  "reconnect net ip s = (let s1 = attempt net ip s in if 0 < pko_srv_fd s1 then Some s1 else reconnect net ip s1)"
  by (subst reconnect.simps) (simp add: attempt_def Let_def case_prod_beta)

lemma reconnect_after:
  "\<not> (\<exists>k\<in>{1..n}. 0 < pko_srv_fd ((attempt net ip ^^ k) s)) \<Longrightarrow>
     reconnect net ip s = reconnect net ip ((attempt net ip ^^ n) s)"
proof (induction n)
  case (Suc n)
  then have "reconnect net ip s = reconnect net ip ((attempt net ip ^^ n) s)" by auto
  also have "\<dots> = reconnect net ip ((attempt net ip ^^ Suc n) s)"
  proof -
    have "\<not> 0 < pko_srv_fd (attempt net ip ((attempt net ip ^^ n) s))"
      using Suc.prems by (auto dest: bspec [of _ _ "Suc n"])
    then show ?thesis by (subst reconnect_attempt) (simp add: Let_def)
  qed
  finally show ?case .
qed simp

lemma reconnect_attempts:
  assumes "reconnect net ip s = Some s'"
  shows "\<exists>n. s' = (attempt net ip ^^ Suc n) s \<and> 0 < pko_srv_fd s' \<and>
     \<not> (\<exists>k\<in>{1..n}. 0 < pko_srv_fd ((attempt net ip ^^ k) s))"
  using assms
proof (induction rule: reconnect.raw_induct [rotated 1, consumes 1, case_names attempt])
  case (attempt rec net ip s s')
  define s1 where "s1 = Shell.attempt net ip s"
  have step: "(if 0 < pko_srv_fd s1 then Some s1 else rec net ip s1) = Some s'"
    using attempt(2) by (auto simp: s1_def Shell.attempt_def Let_def case_prod_beta)
  show ?case
  proof (cases "0 < pko_srv_fd s1")
    case True
    with step show ?thesis by (intro exI [of _ 0]) (simp add: s1_def)
  next
    case False
    then obtain n where n: "s' = (Shell.attempt net ip ^^ Suc n) s1" "0 < pko_srv_fd s'"
      "\<not> (\<exists>k\<in>{1..n}. 0 < pko_srv_fd ((Shell.attempt net ip ^^ k) s1))"
      using attempt(1) step by metis
    have "\<not> 0 < pko_srv_fd ((Shell.attempt net ip ^^ k) s)" if "k \<in> {1..Suc n}" for k
    proof (cases "k = 1")
      case True
      with False show ?thesis by (simp add: s1_def)
    next
      case other: False
      then obtain j where "k = Suc j" "j \<in> {1..n}" using \<open>k \<in> {1..Suc n}\<close> by (cases k) auto
      with n(3) show ?thesis by (simp add: s1_def funpow_swap1)
    qed
    with n show ?thesis by (intro exI [of _ "Suc n"]) (simp add: s1_def funpow_swap1)
  qed
qed

text \<open>
  C27. The wait for the console ends exactly if an attempt to connect succeeds, and then it ends with the
  first one that does: the state is the one after that attempt, with the new descriptor. While none
  succeeds the shell does nothing else.
\<close>

theorem reconnect_first_success:
  "(reconnect net ip s = Some s' \<longleftrightarrow>
     (\<exists>n. s' = (attempt net ip ^^ Suc n) s \<and> 0 < pko_srv_fd s' \<and>
        \<not> (\<exists>k\<in>{1..n}. 0 < pko_srv_fd ((attempt net ip ^^ k) s))))
   \<and> (reconnect net ip s = None \<longleftrightarrow> \<not> (\<exists>n. 0 < pko_srv_fd ((attempt net ip ^^ Suc n) s)))"
proof -
  have found: "reconnect net ip s = Some ((attempt net ip ^^ Suc n) s)"
    if "0 < pko_srv_fd ((attempt net ip ^^ Suc n) s)"
      and "\<not> (\<exists>k\<in>{1..n}. 0 < pko_srv_fd ((attempt net ip ^^ k) s))" for n
    unfolding reconnect_after [OF that(2)] using that(1) by (subst reconnect_attempt) (simp add: Let_def)
  have "reconnect net ip s \<noteq> None" if "0 < pko_srv_fd ((attempt net ip ^^ Suc n) s)" for n
  proof -
    define m where "m = (LEAST n. 0 < pko_srv_fd ((attempt net ip ^^ Suc n) s))"
    have "0 < pko_srv_fd ((attempt net ip ^^ Suc m) s)"
      unfolding m_def using that by (rule LeastI)
    moreover have "\<not> 0 < pko_srv_fd ((attempt net ip ^^ k) s)" if "k \<in> {1..m}" for k
      using that not_less_Least [of "k - 1" "\<lambda>n. 0 < pko_srv_fd ((attempt net ip ^^ Suc n) s)"]
      unfolding m_def [symmetric] by (cases k) auto
    ultimately show ?thesis using found [of m] by auto
  qed
  moreover have "reconnect net ip s = None \<or> (\<exists>s'. reconnect net ip s = Some s')"
    by (cases "reconnect net ip s") auto
  ultimately show ?thesis
    using reconnect_attempts [of net ip s] found by blast
qed

lemma attempt_link:
  "link.more (attempt net ip s) = link.more s" "tx_log (attempt net ip s) = tx_log s"
  "tx_plan (attempt net ip s) = tx_plan s" "ps2_netfs_fd (attempt net ip s) = ps2_netfs_fd s"
  "prefix (closed s) (closed (attempt net ip s))"
proof -
  obtain r s1 where "cmd_listener net ip SRV_PORT 1 s = (r, s1)" by fastforce
  with cmd_listener_cases [OF this]
  show "link.more (attempt net ip s) = link.more s" "tx_log (attempt net ip s) = tx_log s"
    "tx_plan (attempt net ip s) = tx_plan s" "ps2_netfs_fd (attempt net ip s) = ps2_netfs_fd s"
    "prefix (closed s) (closed (attempt net ip s))"
    by (simp_all add: attempt_def opens_def)
qed

lemma attempts_link:
  "link.more ((attempt net ip ^^ n) s) = link.more s \<and> tx_log ((attempt net ip ^^ n) s) = tx_log s \<and>
   tx_plan ((attempt net ip ^^ n) s) = tx_plan s \<and> ps2_netfs_fd ((attempt net ip ^^ n) s) = ps2_netfs_fd s \<and>
   prefix (closed s) (closed ((attempt net ip ^^ n) s))"
  by (induction n) (auto simp: attempt_link(1-4) intro: prefix_order.trans [OF _ attempt_link(5)])

lemma reconnect_link:
  assumes "reconnect net ip s = Some s'"
  shows "link.more s' = link.more s" "tx_log s' = tx_log s" "tx_plan s' = tx_plan s"
    "ps2_netfs_fd s' = ps2_netfs_fd s" "prefix (closed s) (closed s')"
proof -
  obtain n where n: "s' = (attempt net ip ^^ Suc n) s" using reconnect_attempts [OF assms] by blast
  show "link.more s' = link.more s" "tx_log s' = tx_log s" "tx_plan s' = tx_plan s"
    "ps2_netfs_fd s' = ps2_netfs_fd s" "prefix (closed s) (closed s')"
    unfolding n using attempts_link [of "Suc n" net ip s] by blast+
qed

text \<open>The prompt of a console that is away, on the terminal and in the state.\<close>

definition away :: "('fs, 'z) shell_scheme \<Rightarrow> ('fs, 'z) shell_scheme" where
  "away s = s\<lparr>rl_state := (rl_state s)\<lparr>cprompt := \<not> cprompt (rl_state s)\<rparr>\<rparr>"

lemma shell_prompt_away: "length (env_line env) < 256 \<Longrightarrow> shell_prompt env s = Ret (away s)"
  by (simp add: shell_prompt_def change_prompt_def away_def Let_def)

lemma console_closed:
  assumes "stream (rx s fd) = []" "script_end (rx s fd) = Closes"
    and console: "fd = pko_srv_fd s" and line: "length (env_line env) < 256"
  obtains es where "pko_srv_read env fd s =
      (case reconnect (env_net env) (dst_ip s) (away (close_fd fd (s\<lparr>rx := (rx s)(fd := es)\<rparr>))) of
         None \<Rightarrow> Hang
       | Some s1 \<Rightarrow> Ret (0, (close_fd (ps2_netfs_fd s1) s1)\<lparr>ps2_netfs_fd := -1, rl_state := rl_state s\<rparr>))"
proof -
  obtain es where rcv: "recv_into_packet fd 0 6 s = Ret (0, s\<lparr>rx := (rx s)(fd := es)\<rparr>)"
    using recv_into_packet_eof [of 6 s fd 0] assms(1,2) by auto
  define s0 where "s0 = away (close_fd fd (s\<lparr>rx := (rx s)(fd := es)\<rparr>))"
  have ip: "dst_ip s0 = dst_ip s" by (simp add: s0_def away_def close_fd_def)
  have again: "away ((close_fd (ps2_netfs_fd s1) s1)\<lparr>ps2_netfs_fd := -1\<rparr>) =
      (close_fd (ps2_netfs_fd s1) s1)\<lparr>ps2_netfs_fd := -1, rl_state := rl_state s\<rparr>"
    if "reconnect (env_net env) (dst_ip s) s0 = Some s1" for s1
  proof -
    have "rl_state s1 = rl_state s0" using reconnect_link(1) [OF that] by (rule same_more)
    then show ?thesis by (simp add: s0_def away_def close_fd_def)
  qed
  have "pko_srv_read env fd s = (case reconnect (env_net env) (dst_ip s) s0 of None \<Rightarrow> Hang
      | Some s1 \<Rightarrow> Ret (0, (close_fd (ps2_netfs_fd s1) s1)\<lparr>ps2_netfs_fd := -1, rl_state := rl_state s\<rparr>))"
    using console [symmetric] by (simp add: pko_srv_read_def rcv shell_prompt_away [OF line] wait_console_def s0_def [symmetric]
        ip again split: option.splits)
  then show thesis unfolding s0_def by (rule that)
qed

text \<open>
  C17. \<open>pko_srv_read\<close> on a connection. A request that fits the buffer is taken off the stream exactly and
  dispatched on its command. The end of the connection of a client makes it return -1. The end of the
  connection to the console closes it; the shell waits until an attempt to connect succeeds, then has the
  new descriptor, no connection to the file system of the console any more, and the prompt it had.
\<close>

theorem pko_srv_read_serves:
  assumes "wf_link s"
  shows "(stream (rx s fd) = packet cmd body @ rest \<and> 6 + length body \<le> PACKET_MAXSIZE \<longrightarrow>
       (\<exists>es. pko_srv_read env fd s = obind (srv_switch env cmd (s\<lparr>rx := (rx s)(fd := es),
           recv_packet := poke 0 (packet cmd body) (recv_packet s)\<rparr>)) (\<lambda>s. Ret (0, s))
         \<and> stream es = rest))
   \<and> (stream (rx s fd) = [] \<and> script_end (rx s fd) = Closes \<and> fd \<noteq> pko_srv_fd s \<longrightarrow>
       (\<exists>es. pko_srv_read env fd s = Ret (-1, s\<lparr>rx := (rx s)(fd := es)\<rparr>)))
   \<and> (stream (rx s fd) = [] \<and> script_end (rx s fd) = Closes \<and> fd = pko_srv_fd s \<and> length (env_line env) < 256 \<longrightarrow>
       (\<exists>es. pko_srv_read env fd s =
         (case reconnect (env_net env) (dst_ip s) (away (close_fd fd (s\<lparr>rx := (rx s)(fd := es)\<rparr>))) of
            None \<Rightarrow> Hang
          | Some s1 \<Rightarrow> Ret (0, (close_fd (ps2_netfs_fd s1) s1)\<lparr>ps2_netfs_fd := -1, rl_state := rl_state s\<rparr>))))"
proof (intro conjI impI; elim conjE)
  assume "stream (rx s fd) = packet cmd body @ rest" "6 + length body \<le> PACKET_MAXSIZE"
  then show "\<exists>es. pko_srv_read env fd s = obind (srv_switch env cmd (s\<lparr>rx := (rx s)(fd := es),
      recv_packet := poke 0 (packet cmd body) (recv_packet s)\<rparr>)) (\<lambda>s. Ret (0, s)) \<and> stream es = rest"
    using shell.serve_packet [OF assms] by metis
next
  assume "stream (rx s fd) = []" "script_end (rx s fd) = Closes" and other: "fd \<noteq> pko_srv_fd s"
  then obtain es where "recv_into_packet fd 0 6 s = Ret (0, s\<lparr>rx := (rx s)(fd := es)\<rparr>)"
    using recv_into_packet_eof [of 6 s fd 0] by auto
  with other show "\<exists>es. pko_srv_read env fd s = Ret (-1, s\<lparr>rx := (rx s)(fd := es)\<rparr>)"
    by (auto simp: pko_srv_read_def)
next
  assume "stream (rx s fd) = []" "script_end (rx s fd) = Closes" "fd = pko_srv_fd s" "length (env_line env) < 256"
  then show "\<exists>es. pko_srv_read env fd s =
      (case reconnect (env_net env) (dst_ip s) (away (close_fd fd (s\<lparr>rx := (rx s)(fd := es)\<rparr>))) of
         None \<Rightarrow> Hang
       | Some s1 \<Rightarrow> Ret (0, (close_fd (ps2_netfs_fd s1) s1)\<lparr>ps2_netfs_fd := -1, rl_state := rl_state s\<rparr>))"
    by (rule console_closed) blast
qed

text \<open>A host without files, and a shell on it that is connected to a console and to its files.\<close>

definition no_files :: "'fs os" where
  "no_files = \<lparr>os_open = \<lambda>fs p f m. (-1, fs), os_close = \<lambda>fs fd. (-1, fs), os_read = \<lambda>fs fd n. ((-1, []), fs),
     os_write = \<lambda>fs fd bs. (-1, fs), os_lseek = \<lambda>fs fd o' w. (-1, fs), os_opendir = \<lambda>fs p. (0, fs),
     os_readdir = \<lambda>fs d. ((0, ''''), fs), os_closedir = \<lambda>fs d. (-1, fs), os_isdir = \<lambda>fs d. d = 0,
     os_stat = \<lambda>fs p. (-1, \<lparr>st_mode = 0, st_size = 0, st_ctime = None, st_atime = None, st_mtime = None\<rparr>),
     os_malloc = \<lambda>fs n. True\<rparr>"

definition example_env :: "int env" where
  "example_env = \<lparr>env_os = no_files, env_net = example_net, env_system = \<lambda>n c. (0, n), env_chdir = \<lambda>n d. (0, n),
     env_getwd = \<lambda>n. Some ''/'', env_fopen = \<lambda>n p. None,
     env_environ = [], env_room = \<lambda>n. n + 1, env_whitespace = \<lambda>c. c = CHR '' '' \<or> c = CHR 0x09, env_line = '''',
     env_junk = replicate 300 0, env_freed = \<lambda>ws. ws\<rparr>"

lemma example_env_simps [simp]:
  "env_os example_env = no_files" "env_net example_env = example_net" "env_line example_env = ''''"
  "env_junk example_env = replicate 300 0" "env_room example_env n = n + 1"
  "env_whitespace example_env c \<longleftrightarrow> c = CHR '' '' \<or> c = CHR 0x09" "env_environ example_env = []"
  by (simp_all add: example_env_def)

lemma example_listener:
  "cmd_listener example_net ip port t s = (host s, s\<lparr>host := host s + 1\<rparr>)" if "0 < host s"
  using that by (simp add: cmd_listener_def on_host_def example_net_def cmd_done_def)

lemma example_reconnect:
  "0 < host s \<Longrightarrow> reconnect example_net ip s = Some (s\<lparr>host := host s + 1, pko_srv_fd := host s\<rparr>)"
  by (subst reconnect_attempt) (simp add: attempt_def example_listener)

definition shell_example :: "int shell" where
  "shell_example = (shell_init 7)\<lparr>pko_srv_fd := 4, ps2_netfs_fd := 5, rx := \<lambda>_. [PeerClosed]\<rparr>"

lemma shell_example_simps [simp]:
  "wf_link shell_example" "host shell_example = 7" "pko_srv_fd shell_example = 4" "ps2_netfs_fd shell_example = 5"
  "closed shell_example = []" "rx shell_example = (\<lambda>_. [PeerClosed])" "tx_log shell_example = []"
  "tx_plan shell_example = (\<lambda>_. [])" "exec_state shell_example = 0" "log_loc shell_example = 0"
  "log_buf shell_example = replicate 1024 0" "log_to_file shell_example = 0" "log_lines shell_example = []"
  by (simp_all add: shell_example_def shell_init_def link_init_def link.defs wf_link_def)

theorem pko_srv_read_serves_witness:
  "\<exists>s'. pko_srv_read example_env 4 shell_example = Ret (0, s') \<and> pko_srv_fd s' = 7 \<and> ps2_netfs_fd s' = -1 \<and>
     closed s' = [4, 5]"
  using pko_srv_read_serves [of shell_example 4 0 "[]" "[]" example_env]
  by (auto simp: example_reconnect away_def close_fd_def)

section \<open>Requests for the console\<close>

lemma cmd_con_link:
  "tx_plan (cmd_con env s) = tx_plan s" "tx_log (cmd_con env s) = tx_log s" "closed (cmd_con env s) = closed s"
  "recv_packet (cmd_con env s) = recv_packet s" "ps2_netfs_fd (cmd_con env s) = ps2_netfs_fd s"
  "pko_srv_fd (cmd_con env s) = pko_srv_fd s" "link.more (cmd_con env s) = link.more s"
proof -
  obtain r s' where "pko_cmd_con (env_net env) (dst_ip s) CMD_PORT s = (r, s')" by fastforce
  with pko_cmd_con_opens [OF this]
  show "tx_plan (cmd_con env s) = tx_plan s" "tx_log (cmd_con env s) = tx_log s" "closed (cmd_con env s) = closed s"
    "recv_packet (cmd_con env s) = recv_packet s" "ps2_netfs_fd (cmd_con env s) = ps2_netfs_fd s"
    "pko_srv_fd (cmd_con env s) = pko_srv_fd s" "link.more (cmd_con env s) = link.more s"
    by (simp_all add: cmd_con_def opens_def)
qed

lemmas cmd_con_simps [simp] = cmd_con_link same_more [OF cmd_con_link(7)]

text \<open>The run of a command that sends one packet after it opened the command socket.\<close>

lemma view_vpu:
  assumes "wf_link s"
  shows "be16 (ntohs (ucast (uq_vpu (view_vu_req (recv_packet s))))) = peek 6 2 (recv_packet s)"
proof -
  have "length (peek 6 4 (recv_packet s)) = 4" using assms by (simp add: wf_link_def length_peek)
  then obtain a b c d where bs: "peek 6 4 (recv_packet s) = [a, b, c, d]"
    by (auto simp: numeral_eq_Suc length_Suc_conv)
  have "(ucast (un_le32 [a, b, c, d]) :: u16) = un_le16 [a, b]"
    by (rule bit_word_eqI) (auto simp: bit_simps)
  moreover have "be16 (ntohs w) = le16 w" for w
    using le16_htons [of "ntohs w"] by simp
  moreover have "peek 6 2 (recv_packet s) = take 2 (peek 6 4 (recv_packet s))"
    by (simp add: peek_def)
  ultimately show ?thesis by (simp add: view_vu_req_def bs le16_un_le16 del: un_le16.simps un_le32.simps)
qed

lemma ucast_up_down16: "ucast (ucast (w :: u16) :: u32) = w"
  by (rule bit_word_eqI) (auto simp: bit_simps)

lemma ucast_word_of_int16: "ucast (word_of_int n :: u32) = (word_of_int n :: u16)"
  by (rule bit_word_eqI) (auto simp: bit_simps)

lemma srv_stop_vu_sends:
  assumes "tx_plan s = (\<lambda>_. [])" and "wf_link s"
  shows "tx_log (srv_stop_vu env s) = tx_log s @
     [(cmd_fd (srv_stop_vu env s), be32 STOPVU_CMD @ be16 10 @ peek 6 2 (recv_packet s) @ [0, 0])]"
  using assms(1) view_vpu [OF assms(2)] by (simp add: srv_stop_vu_def pko_vu_wire ucast_up_down16 Let_def)

lemma length_argv_array:
  "length argv \<le> MAX_PATH \<Longrightarrow> MAX_PATH \<le> length (env_junk env) \<Longrightarrow> length (argv_array env argv) = MAX_PATH"
  by (simp add: argv_array_def length_poke min_absorb2)

text \<open>
  A \<open>GSEXEC\<close> request to the shell: the display list is announced to the console if the file has
  between 1 and 16384 bytes, and then, or without it, the shell falls into the next case and also tells the
  console to stop a vector unit, the one whose number is the size field of the request.
\<close>

theorem gsexec_request_stops_vu:
  assumes "wf_link s" and "tx_plan s = (\<lambda>_. [])"
    and arg: "packet_string 8 s = Ret arg" "trim_arg (PACKET_MAXSIZE - 8) arg = Ret file"
    and n: "n = size_file (env_os env) (host s) file" "0 \<le> n"
    and argv: "shell_argv env file s = Ret (argc, argv)" "length argv \<le> MAX_PATH" "MAX_PATH \<le> length (env_junk env)"
  shows "\<exists>s' fd. srv_switch env GSEXEC_CMD s = Ret s' \<and> tx_log s' = tx_log s @
     (if n = 0 \<or> 16384 < n then []
      else [(fd, be32 GSEXEC_CMD @ be16 264 @ be16 (of_int n) @ argv_array env argv)]) @
     [(cmd_fd s', be32 STOPVU_CMD @ be16 10 @ peek 6 2 (recv_packet s) @ [0, 0])]"
proof -
  define s1 where "s1 = (if n = 0 \<or> 16384 < n then s else snd (send_fd (cmd_fd (cmd_con env s))
     (be32 GSEXEC_CMD @ be16 264 @ be16 (of_int n) @ argv_array env argv) (cmd_con env s)))"
  have sent: "tx_log s1 = tx_log s @ (if n = 0 \<or> 16384 < n then []
      else [(cmd_fd (cmd_con env s), be32 GSEXEC_CMD @ be16 264 @ be16 (of_int n) @ argv_array env argv)])"
    and s1: "tx_plan s1 = (\<lambda>_. [])" "recv_packet s1 = recv_packet s"
    using assms(2) by (simp_all add: s1_def send_fd_whole)
  have trim: "trim_arg 4088 arg = Ret file" using arg(2) by simp
  have "\<exists>r. cli_gsexec env (PACKET_MAXSIZE - 8) arg s = Ret (r, s1)"
    using assms(2) n(2) length_argv_array [OF argv(2,3)]
    by (auto simp: cli_gsexec_def trim n(1) [symmetric] argv(1) Let_def gsexec_wire s1_def send_fd_whole of_cint_def
        ucast_word_of_int16)
  then obtain r where run: "cli_gsexec env (PACKET_MAXSIZE - 8) arg s = Ret (r, s1)" ..
  define s2 where "s2 = trim_packet 8 arg s1"
  have room: "8 + leading_blanks arg + last_nonblank arg (length arg) < PACKET_MAXSIZE"
    using trim_arg_room [OF arg(2)] by simp
  have "wf_link s2" using assms(1) trim_packet_keeps [OF run] by (simp add: shell_keeps_def s2_def)
  moreover have "peek 6 2 (recv_packet s2) = peek 6 2 (recv_packet s)"
    using assms(1) room s1(2) by (simp add: s2_def trim_packet_def peek_poke_before wf_link_def)
  moreover have "tx_plan s2 = (\<lambda>_. [])" "tx_log s2 = tx_log s1"
    using s1(1) by (simp_all add: s2_def trim_packet_def)
  ultimately have stop: "tx_log (srv_stop_vu env s2) = tx_log s1 @
      [(cmd_fd (srv_stop_vu env s2), be32 STOPVU_CMD @ be16 10 @ peek 6 2 (recv_packet s) @ [0, 0])]"
    using srv_stop_vu_sends [of s2 env] by simp
  have "srv_switch env GSEXEC_CMD s = Ret (srv_stop_vu env s2)"
    using run by (simp add: srv_switch_def file_command_def arg(1) s2_def)
  with stop sent show ?thesis by auto
qed

lemma no_files_simps [simp]: "size_file no_files fs file = 0" "is_file no_files fs file = False"
  by (simp_all add: size_file_def is_file_def no_files_def)

lemma example_argv: "shell_argv example_env ''a'' s = Ret (1, ''a'' @ [NUL])"
  by (simp add: shell_argv_def fix_cmd_arg_def fix_loop.simps skip_word_eq skip_spaces_eq)

definition gsexec_example :: "int shell" where
  "gsexec_example = shell_example\<lparr>recv_packet := poke 0 (packet GSEXEC_CMD (be16 1 @ [97, 0])) (recv_packet shell_example)\<rparr>"

theorem gsexec_request_stops_vu_witness:
  "\<exists>s'. srv_switch example_env GSEXEC_CMD gsexec_example = Ret s' \<and>
     tx_log s' = [(cmd_fd s', be32 STOPVU_CMD @ be16 10 @ be16 1 @ [0, 0])]"
proof -
  have buf: "recv_packet shell_example = replicate 4096 0"
    by (simp add: shell_example_def shell_init_def link_init_def link.defs)
  have "packet_string 8 gsexec_example = Ret ''a''"
    by (simp add: packet_string_def gsexec_example_def buf poke_def packet_def c_str_def string_of_def char_of_def
        bit_Suc_0_iff)
  moreover have "trim_arg (PACKET_MAXSIZE - 8) ''a'' = Ret ''a''"
    by (simp add: trim_arg_def trim_def)
  moreover have "peek 6 2 (recv_packet gsexec_example) = be16 1"
    by (simp add: gsexec_example_def buf poke_def peek_def packet_def)
  moreover have "wf_link gsexec_example" "tx_plan gsexec_example = (\<lambda>_. [])" "tx_log gsexec_example = []"
    by (simp_all add: gsexec_example_def wf_link_def buf length_poke packet_def)
      (simp add: shell_example_def shell_init_def link_init_def link.defs)
  ultimately show ?thesis
    using gsexec_request_stops_vu [of gsexec_example "''a''" "''a''" 0 example_env 1 "''a'' @ [NUL]"]
    by (auto simp: example_argv)
qed

section \<open>Programs\<close>

text \<open>What \<open>cli_execee\<close> sends: the number of arguments and the arguments, then whatever was on the stack.\<close>

definition exec_wire :: "'fs env \<Rightarrow> u32 \<Rightarrow> nat \<Rightarrow> string \<Rightarrow> byte list" where
  "exec_wire env cmd argc argv = be32 cmd @ be16 266 @ be32 (of_nat argc) @ bytes_of argv @ [0] @
     peek (11 + length argv) (255 - length argv) (env_junk env)"

lemma take_argv_array: "take (length argv) (argv_array env argv) = bytes_of argv"
  by (simp add: argv_array_def poke_def)

lemma exec_sends:
  assumes "tx_plan s = (\<lambda>_. [])" and "length argv < MAX_PATH" and "sizeof_pkt_exec_req \<le> length (env_junk env)"
  shows "exec_req cmd (env_junk env) fd (argv_array env argv) (of_nat (length argv)) (of_nat argc) s =
     Ret (266, s\<lparr>tx_log := tx_log s @ [(fd, exec_wire env cmd argc argv)]\<rparr>)"
  using assms
  by (simp add: exec_req_wire unat_of_nat length_argv_array take_argv_array exec_wire_def)

lemma start_program:
  assumes plan: "tx_plan s0 = (\<lambda>_. [])" and junk: "sizeof_pkt_exec_req \<le> length (env_junk env)"
    and argv: "\<And>fs. fix_cmd_arg (is_file (env_os env) fs) MAX_PATH arg = Ret (argc, argv)" "length argv < MAX_PATH"
  shows "\<exists>s'. (let s = s0\<lparr>exec_state := 1\<rparr> in
     obind (shell_argv env arg s) (\<lambda>(argc, argv).
     let s = cmd_con env s in
     omap (\<lambda>(ret, s). (0 :: int, s))
       (pko_execee_req (env_junk env) (cmd_fd s) (argv_array env argv) (of_nat (length argv)) (of_nat argc) s)))
       = Ret (0, s') \<and> exec_state s' = 1 \<and> closed s' = closed s0 \<and> pko_srv_fd s' = pko_srv_fd s0 \<and>
      ps2_netfs_fd s' = ps2_netfs_fd s0 \<and> rl_state s' = rl_state s0 \<and>
      tx_log s' = tx_log s0 @ [(cmd_fd s', exec_wire env EXECEE_CMD argc argv)]"
  using plan by (simp add: shell_argv_def argv Let_def pko_execee_req_def exec_sends [OF _ argv(2) junk])

lemma cli_reset_sends:
  assumes "tx_plan s = (\<lambda>_. [])"
  shows "tx_log (snd (cli_reset env s)) = tx_log s @ [(cmd_fd (snd (cli_reset env s)), be32 RESET_CMD @ be16 6)]"
    "tx_plan (snd (cli_reset env s)) = tx_plan s" "closed (snd (cli_reset env s)) = closed s @ [ps2_netfs_fd s]"
    "ps2_netfs_fd (snd (cli_reset env s)) = -1" "pko_srv_fd (snd (cli_reset env s)) = pko_srv_fd s"
    "rl_state (snd (cli_reset env s)) = rl_state s" "dst_ip (snd (cli_reset env s)) = dst_ip s"
  using assms by (simp_all add: cli_reset_def Let_def case_prod_beta pko_hdr_wire close_fd_def)

text \<open>
  C24. \<open>cli_execee\<close>. The first program is started by one request with its arguments. When a program may
  already be running (\<open>exec_state\<close> is 1) the console is first told to reset, the connections to it and to
  its files are closed, and the shell waits until it can connect again; only then the request is sent. In
  both cases the shell then knows that a program was started.
\<close>

theorem cli_execee_resets_first:
  assumes plan: "tx_plan s = (\<lambda>_. [])" and junk: "sizeof_pkt_exec_req \<le> length (env_junk env)"
    and line: "length (env_line env) < 256"
    and argv: "\<And>fs. fix_cmd_arg (is_file (env_os env) fs) MAX_PATH arg = Ret (argc, argv)" "length argv < MAX_PATH"
  shows "(exec_state s \<noteq> 1 \<longrightarrow>
       (\<exists>s'. cli_execee env arg s = Ret (0, s') \<and> exec_state s' = 1 \<and> closed s' = closed s \<and>
          tx_log s' = tx_log s @ [(cmd_fd s', exec_wire env EXECEE_CMD argc argv)]))
   \<and> (exec_state s = 1 \<and>
       reconnect (env_net env) (dst_ip s) (away (close_fd (pko_srv_fd s) (snd (cli_reset env s)))) = Some s1 \<longrightarrow>
       (\<exists>s' fd. cli_execee env arg s = Ret (0, s') \<and> exec_state s' = 1 \<and> pko_srv_fd s' = pko_srv_fd s1 \<and>
          ps2_netfs_fd s' = -1 \<and> rl_state s' = rl_state s \<and>
          prefix (closed s @ [ps2_netfs_fd s, pko_srv_fd s]) (closed s') \<and>
          tx_log s' = tx_log s @ [(fd, be32 RESET_CMD @ be16 6), (cmd_fd s', exec_wire env EXECEE_CMD argc argv)]))"
proof (intro conjI impI; (elim conjE)?)
  assume "exec_state s \<noteq> 1"
  then show "\<exists>s'. cli_execee env arg s = Ret (0, s') \<and> exec_state s' = 1 \<and> closed s' = closed s \<and>
      tx_log s' = tx_log s @ [(cmd_fd s', exec_wire env EXECEE_CMD argc argv)]"
    using start_program [OF plan junk argv] by (auto simp: cli_execee_def)
next
  define s0 where "s0 = away (close_fd (pko_srv_fd s) (snd (cli_reset env s)))"
  assume running: "exec_state s = 1"
    and "reconnect (env_net env) (dst_ip s) (away (close_fd (pko_srv_fd s) (snd (cli_reset env s)))) = Some s1"
  then have s1: "reconnect (env_net env) (dst_ip s) s0 = Some s1" by (simp add: s0_def)
  note s0 = s0_def away_def close_fd_def cli_reset_sends [OF plan]
  have "dst_ip s0 = dst_ip s" by (simp add: s0)
  then have wait: "wait_console env s0 = Ret s1" by (simp add: wait_console_def s1)
  have "tx_plan (away s1) = (\<lambda>_. [])" using reconnect_link(3) [OF s1] plan by (simp add: s0)
  from start_program [OF this junk argv] obtain s' where s': "cli_execee env arg s = Ret (0, s')"
    "exec_state s' = 1" "closed s' = closed s1" "pko_srv_fd s' = pko_srv_fd s1" "ps2_netfs_fd s' = ps2_netfs_fd s1"
    "rl_state s' = rl_state (away s1)" "tx_log s' = tx_log s1 @ [(cmd_fd s', exec_wire env EXECEE_CMD argc argv)]"
    using running cli_reset_sends(5) [OF plan, of env]
    by (auto simp: cli_execee_def Let_def shell_prompt_away [OF line] s0_def [symmetric] wait)
       (auto simp: away_def)
  moreover have "rl_state s1 = rl_state s0" using reconnect_link(1) [OF s1] by (rule same_more)
  moreover have "closed s0 = closed s @ [ps2_netfs_fd s, pko_srv_fd s]" by (simp add: s0)
  ultimately show "\<exists>s' fd. cli_execee env arg s = Ret (0, s') \<and> exec_state s' = 1 \<and> pko_srv_fd s' = pko_srv_fd s1 \<and>
      ps2_netfs_fd s' = -1 \<and> rl_state s' = rl_state s \<and>
      prefix (closed s @ [ps2_netfs_fd s, pko_srv_fd s]) (closed s') \<and>
      tx_log s' = tx_log s @ [(fd, be32 RESET_CMD @ be16 6), (cmd_fd s', exec_wire env EXECEE_CMD argc argv)]"
    using reconnect_link [OF s1] by (auto simp: s0)
qed

lemma example_cmd_con: "0 < host s \<Longrightarrow> cmd_con example_env s = s\<lparr>host := host s + 1, cmd_fd := host s\<rparr>"
  by (simp add: cmd_con_def pko_cmd_con_def on_host_def example_net_def)

theorem cli_execee_resets_first_witness:
  "\<exists>s'. cli_execee example_env ''a'' (shell_example\<lparr>exec_state := 1\<rparr>) = Ret (0, s') \<and> exec_state s' = 1 \<and>
     pko_srv_fd s' = 8 \<and> prefix [5, 4] (closed s') \<and>
     map snd (tx_log s') = [be32 RESET_CMD @ be16 6, exec_wire example_env EXECEE_CMD 1 (''a'' @ [NUL])]"
proof -
  define s0 where "s0 = away (close_fd 4 (snd (cli_reset example_env (shell_example\<lparr>exec_state := 1\<rparr>))))"
  have "host s0 = 8"
    by (simp add: s0_def away_def close_fd_def cli_reset_def Let_def case_prod_beta example_cmd_con pko_hdr_wire)
  then have s1: "reconnect example_net ip s0 = Some (s0\<lparr>host := 9, pko_srv_fd := 8\<rparr>)" for ip
    by (simp add: example_reconnect)
  have argv: "fix_cmd_arg (is_file no_files fs) MAX_PATH ''a'' = Ret (1, ''a'' @ [NUL])" for fs :: int
    using example_argv [of "shell_example\<lparr>host := fs\<rparr>"] by (simp add: shell_argv_def)
  show ?thesis
    using cli_execee_resets_first [of "shell_example\<lparr>exec_state := 1\<rparr>" example_env "''a''" 1 "''a'' @ [NUL]"
        "s0\<lparr>host := 9, pko_srv_fd := 8\<rparr>"]
    by (auto simp: argv s1 s0_def [symmetric])
qed

section \<open>Lines of the log\<close>

text \<open>
  Between two datagrams \<open>log_buf\<close> holds the pending text, the beginning of a line, in front of zeros;
  with no pending text its contents do not matter.
\<close>

definition log_pending :: "string \<Rightarrow> ('fs, 'z) shell_scheme \<Rightarrow> bool" where
  "log_pending p s \<longleftrightarrow> log_loc s = int (length p) \<and> length p < 1023 \<and> no_nul p \<and> NEWLINE \<notin> set p \<and>
     (p \<noteq> [] \<longrightarrow> log_buf s = bytes_of p @ replicate (1024 - length p) 0)"

text \<open>What is printed: the text, with its last character replaced if it is not a newline.\<close>

definition log_line :: "string \<Rightarrow> string" where
  "log_line text = (if last text = NEWLINE then text else butlast text @ [NEWLINE])"

lemma printf_text_plain: "CHR ''%'' \<notin> set s \<Longrightarrow> printf_text s = Some s"
  by (induction s) auto

lemma log_received:
  assumes p: "log_pending p s" and "rx s fd = Arrive bs # es" and bs: "0 \<notin> set bs" "length p + length bs \<le> 1023"
  defines "msg \<equiv> p @ string_of bs"
  shows "pko_log_read env fd s = omap (Pair (int (length bs))) (log_flush env (s\<lparr>rx := (rx s)(fd := es),
      log_buf := bytes_of msg @ replicate (1024 - length msg) 0, log_loc := int (length msg)\<rparr>))"
    and "c_str (bytes_of msg @ replicate (1024 - length msg) 0) = Some msg"
proof -
  have buf: "(if log_loc s = 0 then replicate 1024 0 else log_buf s) = bytes_of p @ replicate (1024 - length p) 0"
    using p by (auto simp: log_pending_def bytes_of_def)
  have "poke (length p) bs (bytes_of p @ replicate (1024 - length p) 0) =
      bytes_of msg @ replicate (1024 - length msg) 0"
    using bs by (simp add: poke_def msg_def bytes_of_def [of "p @ _"])
      (simp add: bytes_of_def [symmetric] flip: map_append)
  then show "pko_log_read env fd s = omap (Pair (int (length bs))) (log_flush env (s\<lparr>rx := (rx s)(fd := es),
      log_buf := bytes_of msg @ replicate (1024 - length msg) 0, log_loc := int (length msg)\<rparr>))"
    using p assms(2) bs(2) unfolding pko_log_read_def buf
    by (simp add: log_pending_def msg_def nat_diff_distrib)
  have "1024 - length msg = Suc (1023 - length msg)" using bs by (simp add: msg_def)
  moreover have "no_nul msg" using p bs(1) by (simp add: msg_def log_pending_def no_nul_string_of)
  ultimately show "c_str (bytes_of msg @ replicate (1024 - length msg) 0) = Some msg"
    by (simp add: c_str_bytes_of)
qed

lemma log_printed:
  assumes "c_str (log_buf s) = Some msg" and "msg \<noteq> []" and "strchr msg NEWLINE \<noteq> None \<or> log_loc s = 1023"
    and "log_to_file s = 0" and "length (env_line env) < 256" and "CHR ''%'' \<notin> set msg"
  shows "log_flush env s = Ret (s\<lparr>log_buf := poke 0 (bytes_of (log_line msg)) (log_buf s),
      log_lines := log_lines s @ [log_line msg], rl_state := rl_state s, log_loc := 0\<rparr>)"
proof -
  have ended: "(if last msg \<noteq> NEWLINE then butlast msg @ [NEWLINE] else msg) = log_line msg"
    by (simp add: log_line_def)
  have "CHR ''%'' \<notin> set (log_line msg)"
    using assms(6) by (auto simp: log_line_def dest: in_set_butlastD)
  then have "printf_text (log_line msg) = Some (log_line msg)" by (rule printf_text_plain)
  then show ?thesis
    using assms(2-5)
    by (simp add: log_flush_def assms(1) write_log_line_def Let_def ended del: not_None_eq split del: if_split)
qed

text \<open>
  C26. The log on the terminal, one datagram of text at a time. The text is added to the pending text;
  while there is no newline in it and it is shorter than 1023 characters it stays pending. Otherwise all of
  it is printed and nothing stays pending: unchanged if it ends in a newline; if a newline is only inside
  it, the last character of the unfinished line is overwritten with a newline. After an error of
  \<open>recvfrom\<close> the position of the buffer is one less, and when nothing was pending the next call writes in
  front of the buffer.
\<close>

theorem pko_log_read_lines:
  assumes "log_pending p s" and "log_to_file s = 0" and "length (env_line env) < 256"
  shows "(rx s fd = Arrive bs # es \<and> 0 \<notin> set bs \<and> length p + length bs \<le> 1023 \<and>
       CHR ''%'' \<notin> set (p @ string_of bs) \<longrightarrow>
       (\<exists>s'. pko_log_read env fd s = Ret (int (length bs), s') \<and> rx s' fd = es \<and>
         (if NEWLINE \<in> set (string_of bs) \<or> length p + length bs = 1023
          then log_lines s' = log_lines s @ [log_line (p @ string_of bs)] \<and> log_pending [] s'
          else log_lines s' = log_lines s \<and> log_pending (p @ string_of bs) s')))
   \<and> (rx s fd = RxError e # es \<and> p = [] \<longrightarrow>
       (\<exists>s'. pko_log_read env fd s = Ret (-1, s') \<and> pko_log_read env fd s' = Crash))"
proof (intro conjI impI; elim conjE)
  assume rx: "rx s fd = Arrive bs # es" and bs: "0 \<notin> set bs" "length p + length bs \<le> 1023"
    and plain: "CHR ''%'' \<notin> set (p @ string_of bs)"
  define msg where "msg = p @ string_of bs"
  define s1 where "s1 = s\<lparr>rx := (rx s)(fd := es),
      log_buf := bytes_of msg @ replicate (1024 - length msg) 0, log_loc := int (length msg)\<rparr>"
  have step: "pko_log_read env fd s = omap (Pair (int (length bs))) (log_flush env s1)"
    and str: "c_str (log_buf s1) = Some msg"
    using log_received [OF assms(1) rx bs] by (simp_all add: s1_def msg_def)
  have s1: "log_to_file s1 = 0" "log_loc s1 = int (length msg)" "log_lines s1 = log_lines s" "rx s1 fd = es"
    using assms(2) by (simp_all add: s1_def)
  have nl: "strchr msg NEWLINE = None \<longleftrightarrow> NEWLINE \<notin> set (string_of bs)"
    using assms(1) by (auto simp: strchr_None_iff log_pending_def msg_def)
  have len: "length msg = length p + length bs" by (simp add: msg_def)
  show "\<exists>s'. pko_log_read env fd s = Ret (int (length bs), s') \<and> rx s' fd = es \<and>
         (if NEWLINE \<in> set (string_of bs) \<or> length p + length bs = 1023
          then log_lines s' = log_lines s @ [log_line (p @ string_of bs)] \<and> log_pending [] s'
          else log_lines s' = log_lines s \<and> log_pending (p @ string_of bs) s')"
  proof (cases "NEWLINE \<in> set (string_of bs) \<or> length p + length bs = 1023")
    case True
    have ne: "msg \<noteq> []" using True length_string_of [of bs] by (auto simp: msg_def simp del: length_string_of)
    have "strchr msg NEWLINE \<noteq> None \<or> log_loc s1 = 1023"
      using True nl len s1(2) by auto
    note log_printed [OF str ne this s1(1) assms(3) plain [folded msg_def]]
    with True step s1 show ?thesis by (simp add: log_pending_def msg_def)
  next
    case False
    then have "log_flush env s1 = Ret s1" using nl len s1 by (simp add: log_flush_def str)
    moreover have "log_pending msg s1"
      using False len assms(1) bs(2) no_nul_string_of [OF bs(1)] s1
      by (auto simp: log_pending_def msg_def s1_def)
    ultimately show ?thesis using False step s1 by (simp add: msg_def)
  qed
next
  assume "rx s fd = RxError e # es" and "p = []"
  then show "\<exists>s'. pko_log_read env fd s = Ret (-1, s') \<and> pko_log_read env fd s' = Crash"
    using assms(1,2)
    by (auto simp: pko_log_read_def log_pending_def log_flush_def c_str_def string_of_def)
qed

theorem pko_log_read_lines_witness:
  "\<exists>s'. pko_log_read example_env 5 (shell_example\<lparr>rx := \<lambda>_. [Arrive [65, 10, 66, 67]]\<rparr>) = Ret (4, s') \<and>
     log_lines s' = [''A'' @ [NEWLINE] @ ''B'' @ [NEWLINE]]"
proof -
  have "string_of [65, 10, 66, 67] = ''A'' @ [NEWLINE] @ ''BC''"
    by (simp add: string_of_def char_of_def bit_Suc_0_iff)
  then show ?thesis
    using pko_log_read_lines [of "[]" "shell_example\<lparr>rx := \<lambda>_. [Arrive [65, 10, 66, 67]]\<rparr>" example_env 5
        "[65, 10, 66, 67]" "[]"]
    by (auto simp: log_pending_def log_line_def)
qed

end
