(* ===== verification/Netcmds.thy ===== *)
theory Netcmds
  imports Shell
begin

text \<open>
  \<open>pksh.c\<close>, the commands on files: those that go to the console's file system when their argument names a
  device and to a program of the host otherwise, the other commands that run a program, and those that
  show something.
\<close>

section \<open>Programs of the host\<close>

text \<open>\<open>sprintf(clicom, \<dots>)\<close> into the array of 1024 characters and \<open>system(clicom)\<close>.\<close>

definition clicom_system ::
  "'fs env \<Rightarrow> string \<Rightarrow> ('fs, 'z) shell_scheme \<Rightarrow> (int \<times> ('fs, 'z) shell_scheme) outcome" where
  "clicom_system env clicom s =
     oguard (length clicom < 1024) (Ret (on_host (\<lambda>fs. env_system env fs clicom) s))"

definition cli_make ::
  "'fs env \<Rightarrow> string \<Rightarrow> ('fs, 'z) shell_scheme \<Rightarrow> (int \<times> ('fs, 'z) shell_scheme) outcome" where
  "cli_make env arg s = clicom_system env (''make '' @ arg) s"

definition cli_pwd :: "'fs env \<Rightarrow> ('fs, 'z) shell_scheme \<Rightarrow> (int \<times> ('fs, 'z) shell_scheme) outcome" where
  "cli_pwd env s =
     (case env_getwd env (host s) of
        None \<Rightarrow> Ret (1, s)
      | Some dir \<Rightarrow> oguard (length dir < 1024) (Ret (0, s\<lparr>shown := shown s @ [dir]\<rparr>)))"

text \<open>
  \<open>cli_cd\<close>: without an argument to the value of \<open>HOME\<close>; when there is none \<open>read_pair\<close> gets an array
  that was never written.
\<close>

definition cli_cd ::
  "'fs env \<Rightarrow> string \<Rightarrow> ('fs, 'z) shell_scheme \<Rightarrow> (int \<times> ('fs, 'z) shell_scheme) outcome" where
  "cli_cd env arg s =
     (if length arg = 0 then
        obind (of_option (get_home (env_environ env))) (\<lambda>line.
        oguard (length line < MAXPATHLEN)
          (let (key, value) = read_pair line;
               (r, s) = on_host (\<lambda>fs. env_chdir env fs value) s
           in omap (\<lambda>(r, s). (0, s)) (cli_pwd env s)))
      else
        let (r, s) = on_host (\<lambda>fs. env_chdir env fs arg) s in
        if r = -1 then Ret (1, s) else omap (\<lambda>(r, s). (0, s)) (cli_pwd env s))"

section \<open>The console's file system\<close>

text \<open>The connection to the console's file system, opened when it is needed.\<close>

definition netfs_ready :: "'fs env \<Rightarrow> ('fs, 'z) shell_scheme \<Rightarrow> bool \<times> ('fs, 'z) shell_scheme" where
  "netfs_ready env s =
     (if ps2_netfs_fd s < 0 then
        let (fd, s) = ps2netfs_open (env_net env) (dst_ip s) PS2NETFS_LISTEN_PORT 2 s
        in (\<not> fd < 0, s\<lparr>ps2_netfs_fd := fd\<rparr>)
      else (True, s))"

text \<open>A command with a connection; without one it returns 0.\<close>

definition on_netfs ::
  "'fs env \<Rightarrow> (('fs, 'z) shell_scheme \<Rightarrow> (int \<times> ('fs, 'z) shell_scheme) outcome) \<Rightarrow>
     ('fs, 'z) shell_scheme \<Rightarrow> (int \<times> ('fs, 'z) shell_scheme) outcome" where
  "on_netfs env f s = (let (ok, s) = netfs_ready env s in if ok then f s else Ret (0, s))"

text \<open>A command that goes to the console if its argument names a device. The arrays the name is split into
  have \<open>MAXPATHLEN\<close> characters each.\<close>

definition on_device ::
  "string \<Rightarrow> 'a outcome \<Rightarrow> 'a outcome \<Rightarrow> 'a outcome" where
  "on_device arg remote local =
     obind (split_filename MAXPATHLEN MAXPATHLEN MAXPATHLEN arg) (\<lambda>(device, dir, filename).
     if device \<noteq> '''' then remote else local)"

definition cli_rmdir ::
  "'fs env \<Rightarrow> string \<Rightarrow> ('fs, 'z) shell_scheme \<Rightarrow> (int \<times> ('fs, 'z) shell_scheme) outcome" where
  "cli_rmdir env arg s =
     on_device arg (on_netfs env (\<lambda>s. omap (\<lambda>(ret, s). (0, s)) (ps2netfs_req_rmdir arg s)) s)
       (clicom_system env (''rm -r '' @ arg) s)"

definition cli_mkdir ::
  "'fs env \<Rightarrow> string \<Rightarrow> ('fs, 'z) shell_scheme \<Rightarrow> (int \<times> ('fs, 'z) shell_scheme) outcome" where
  "cli_mkdir env arg s =
     on_device arg (on_netfs env (\<lambda>s. omap (\<lambda>(ret, s). (0, s)) (ps2netfs_req_mkdir arg s)) s)
       (clicom_system env (''mkdir '' @ arg) s)"

definition cli_rename ::
  "'fs env \<Rightarrow> string \<Rightarrow> ('fs, 'z) shell_scheme \<Rightarrow> (int \<times> ('fs, 'z) shell_scheme) outcome" where
  "cli_rename env arg s =
     on_device arg (on_netfs env (\<lambda>s. omap (\<lambda>(ret, s). (0, s)) (ps2netfs_req_delete (Some arg) 0 s)) s)
       (clicom_system env (''rm '' @ arg) s)"

definition cli_ps2umount ::
  "'fs env \<Rightarrow> string \<Rightarrow> ('fs, 'z) shell_scheme \<Rightarrow> (int \<times> ('fs, 'z) shell_scheme) outcome" where
  "cli_ps2umount env arg s = on_netfs env (ps2netfs_req_umount (env_junk env) arg 0) s"

definition cli_ps2sync ::
  "'fs env \<Rightarrow> string \<Rightarrow> ('fs, 'z) shell_scheme \<Rightarrow> (int \<times> ('fs, 'z) shell_scheme) outcome" where
  "cli_ps2sync env arg s = on_netfs env (\<lambda>s. omap (\<lambda>(ret, s). (0, s)) (ps2netfs_req_sync arg 0 s)) s"

definition cli_ps2format ::
  "'fs env \<Rightarrow> string \<Rightarrow> ('fs, 'z) shell_scheme \<Rightarrow> (int \<times> ('fs, 'z) shell_scheme) outcome" where
  "cli_ps2format env arg s = on_netfs env (\<lambda>s. omap (\<lambda>(ret, s). (0, s)) (ps2netfs_req_format (Some arg) 0 s)) s"

text \<open>\<open>cli_ps2mount\<close>: the device is taken for the file system to mount, the rest for the device.\<close>

definition cli_ps2mount ::
  "'fs env \<Rightarrow> string \<Rightarrow> ('fs, 'z) shell_scheme \<Rightarrow> (int \<times> ('fs, 'z) shell_scheme) outcome" where
  "cli_ps2mount env arg s = on_netfs env (\<lambda>s.
     obind (split_filename MAXPATHLEN MAXPATHLEN MAXPATHLEN arg) (\<lambda>(device, dir, filename).
     obind (of_option (c_str filename)) (\<lambda>filename.
     omap (\<lambda>(ret, s). (0, s)) (ps2netfs_req_mount device filename 0 '''' 0 s)))) s"

section \<open>Numbers as text\<close>

text \<open>The conversions of \<open>printf\<close> that the listings use, without and with a width.\<close>

definition digit_char :: "nat \<Rightarrow> char" where
  "digit_char d = char_of (if d < 10 then 48 + d else 87 + d)"

fun numeral_text :: "nat \<Rightarrow> nat \<Rightarrow> string" where
  "numeral_text base n =
     (if base < 2 \<or> n < base then [digit_char n]
      else numeral_text base (n div base) @ [digit_char (n mod base)])"

declare numeral_text.simps [simp del]

definition dec :: "int \<Rightarrow> string" where
  "dec i = (if i < 0 then CHR ''-'' # numeral_text 10 (nat (- i)) else numeral_text 10 (nat i))"

definition pad_left :: "char \<Rightarrow> nat \<Rightarrow> string \<Rightarrow> string" where
  "pad_left c n s = replicate (n - length s) c @ s"

definition pad_right :: "nat \<Rightarrow> string \<Rightarrow> string" where
  "pad_right n s = s @ replicate (n - length s) CHR '' ''"

section \<open>Listings\<close>

text \<open>The line \<open>ps2netfs_showStat\<close> and \<open>cli_list\<close> print for an entry.\<close>

definition list_line :: "ps2netfs_dirent \<Rightarrow> string outcome" where
  "list_line dirent =
     obind (ps2netfs_showStat dirent) (\<lambda>(mode, month).
     obind (of_option (c_str (de_name dirent))) (\<lambda>name.
     let t = (\<lambda>i. dec (uint (de_mtime dirent ! i))) in
     Ret (mode @ '' 0x'' @ pad_left CHR ''0'' 4 (numeral_text 16 (unat (de_attr dirent)))
       @ '' '' @ pad_left CHR '' '' 9 (dec (to_cint (de_size dirent))) @ '' '' @ month
       @ '' '' @ pad_left CHR '' '' 2 (t 4) @ '' '' @ pad_left CHR '' '' 2 (t 3) @ '':''
       @ pad_left CHR ''0'' 2 (t 2) @ '' '' @ pad_right 20 name @ '' '')))"

text \<open>The loop over the entries: partial, as it goes on for as long as the console reports entries.\<close>

partial_function (option) list_loop ::
  "int \<Rightarrow> ('fs, 'z) shell_scheme \<Rightarrow> ('fs, 'z) shell_scheme outcome option" where
  "list_loop fd s =
     (case ps2netfs_req_dread fd s of
        Hang \<Rightarrow> Some Hang
      | Crash \<Rightarrow> Some Crash
      | Ret (ret, dirent, s) \<Rightarrow>
          if ret > 0 then
            (case obind (of_option dirent) list_line of
               Hang \<Rightarrow> Some Hang
             | Crash \<Rightarrow> Some Crash
             | Ret line \<Rightarrow> list_loop fd (s\<lparr>shown := shown s @ [line]\<rparr>))
          else Some (Ret s))"

definition list_entries :: "int \<Rightarrow> ('fs, 'z) shell_scheme \<Rightarrow> ('fs, 'z) shell_scheme outcome" where
  "list_entries fd s = (case list_loop fd s of None \<Rightarrow> Hang | Some m \<Rightarrow> m)"

definition list_dir :: "string \<Rightarrow> ('fs, 'z) shell_scheme \<Rightarrow> (int \<times> ('fs, 'z) shell_scheme) outcome" where
  "list_dir arg s =
     obind (ps2netfs_req_dopen arg s) (\<lambda>(fd, s).
     if fd < 0 then Ret (-1, (close_fd (ps2_netfs_fd s) s)\<lparr>ps2_netfs_fd := -1\<rparr>)
     else
       let s = (if fd > 0 then s\<lparr>shown := shown s @ [''['' @ arg @ '']'']\<rparr> else s) in
       obind (list_entries fd s) (\<lambda>s.
       if fd > 0 then omap (\<lambda>(r, s). (0, s)) (ps2netfs_req_dclose fd s) else Ret (0, s)))"

definition cli_list ::
  "'fs env \<Rightarrow> string \<Rightarrow> ('fs, 'z) shell_scheme \<Rightarrow> (int \<times> ('fs, 'z) shell_scheme) outcome" where
  "cli_list env arg s =
     on_device arg (on_netfs env (list_dir arg) s) (clicom_system env (''ls -l '' @ arg) s)"

text \<open>\<open>cli_devlist\<close>: as many strings as the console reports, one behind the other in 256 characters.\<close>

fun devices :: "nat \<Rightarrow> nat \<Rightarrow> byte list \<Rightarrow> string list outcome" where
  "devices i 0 devlist = Ret []"
| "devices i (Suc n) devlist =
     obind (of_option (c_str devlist)) (\<lambda>name.
     omap (\<lambda>ls. ('' dev '' @ pad_left CHR ''0'' 2 (dec (int i)) @ '' : '' @ [CHR 0x27] @ name @ [CHR 0x27]) # ls)
       (devices (Suc i) n (drop (length name + 1) devlist)))"


definition cli_devlist :: "'fs env \<Rightarrow> ('fs, 'z) shell_scheme \<Rightarrow> (int \<times> ('fs, 'z) shell_scheme) outcome" where
  "cli_devlist env s = on_netfs env (\<lambda>s.
     obind (ps2netfs_req_devlist s) (\<lambda>(numdevs, devlist, s).
     obind (case devlist of None \<Rightarrow> Ret [] | Some bs \<Rightarrow> devices 0 (nat numdevs) bs) (\<lambda>ls.
     Ret (0, s\<lparr>shown := shown s @ [''Device list.''] @ ls\<rparr>)))) s"

definition on_off :: "string \<Rightarrow> int \<Rightarrow> string" where
  "on_off what n = what @ (if n \<noteq> 0 then ''on'' else ''off'')"

definition cli_status :: "('fs, 'z) shell_scheme \<Rightarrow> int \<times> ('fs, 'z) shell_scheme" where
  "cli_status s = (0, s\<lparr>shown := shown s @
     ['' TCP srv fd = '' @ dec (pko_srv_fd s), '' UDP log fd = '' @ dec (log_fd s),
      '' PKSH cmd fd = '' @ dec (pksh_srv_fd s), '' PS2NetFS fd = '' @ dec (ps2_netfs_fd s),
      (if log_to_file s \<noteq> 0 then '' Logging to file'' else '' Logging to stdout''),
      on_off '' Verbose mode is '' (VERBOSE s), on_off '' Debug is '' (pko_debug s),
      (if DUMPSCREEN s \<noteq> 0 then '' Exception dumps to screen'' else '' Exception dumps to console'')]\<rparr>)"

section \<open>Copying\<close>

abbreviation (input) BUFFER :: nat where "BUFFER \<equiv> 65536"

text \<open>A local array of \<open>n\<close> characters that was not written.\<close>

definition local_array :: "'fs env \<Rightarrow> nat \<Rightarrow> byte list" where
  "local_array env n = take n (env_junk env @ replicate n 0)"

text \<open>
  From the console: the loop takes a full buffer off the size, and writes a full buffer, whatever the read
  returned; \<open>buffer\<close> is the array of the function.
\<close>

function get_loop ::
  "'fs env \<Rightarrow> int \<Rightarrow> int \<Rightarrow> int \<Rightarrow> byte list \<Rightarrow> ('fs, 'z) shell_scheme \<Rightarrow> ('fs, 'z) shell_scheme outcome" where
  "get_loop env fd0 fd1 n buffer s =
     (if n > 0 then
        obind (ps2netfs_req_read fd1 BUFFER (int BUFFER) s) (\<lambda>(r, bs, s).
        let buffer = poke 0 bs buffer;
            k = (if n < int BUFFER then nat n else BUFFER);
            (w, s) = on_host (\<lambda>fs. os_write (env_os env) fs fd0 (take k buffer)) s
        in get_loop env fd0 fd1 (n - int BUFFER) buffer s)
      else Ret s)"
  by pat_completeness auto
termination by (relation "measure (\<lambda>(env, fd0, fd1, n, buffer, s). nat n)") auto

declare get_loop.simps [simp del]

definition get_file ::
  "'fs env \<Rightarrow> string \<Rightarrow> string \<Rightarrow> ('fs, 'z) shell_scheme \<Rightarrow> (int \<times> ('fs, 'z) shell_scheme) outcome" where
  "get_file env src dst s =
     (let (fd0, s) = on_host (\<lambda>fs. os_open (env_os env) fs dst (O_RDWR OR O_CREAT) 0x1A4) s in
      if fd0 < 0 then Ret (-1, s)
      else
        obind (ps2netfs_req_open src PS2_O_RDONLY s) (\<lambda>(fd1, s).
        if fd1 < 0 then Ret (-1, s)
        else
          obind (ps2netfs_req_lseek fd1 0 2 s) (\<lambda>(n, s).
          obind (ps2netfs_req_lseek fd1 0 0 s) (\<lambda>(r, s).
          obind (get_loop env fd0 fd1 n (local_array env BUFFER) s) (\<lambda>s.
          obind (ps2netfs_req_close fd1 s) (\<lambda>(r, s).
          Ret (0, snd (on_host (\<lambda>fs. os_close (env_os env) fs fd0) s))))))))"

text \<open>
  To the console. The results of \<open>read\<close> and of the write request are used without a check: the loop is
  partial, since it goes on while the sum of the results is smaller than the size of the file. The sum is an \<open>int\<close>,
  and one that is out of its range is undefined; the size is what \<open>lseek\<close> returns, cut to an \<open>int\<close>.
\<close>

partial_function (option) put_loop ::
  "'fs env \<Rightarrow> int \<Rightarrow> int \<Rightarrow> int \<Rightarrow> int \<Rightarrow> byte list \<Rightarrow> ('fs, 'z) shell_scheme \<Rightarrow>
     ('fs, 'z) shell_scheme outcome option" where
  "put_loop env fd0 fd1 copied n buffer s =
     (if copied < n then
        let ((result, bs), s) = on_host (\<lambda>fs. os_read (env_os env) fs fd0 (of_nat BUFFER)) s;
            buffer = poke 0 bs buffer in
        (case ps2netfs_req_write fd1 buffer result s of
           Hang \<Rightarrow> Some Hang
         | Crash \<Rightarrow> Some Crash
         | Ret (result, s) \<Rightarrow>
             if is_cint (copied + result) then put_loop env fd0 fd1 (copied + result) n buffer s else Some Crash)
      else Some (Ret s))"

definition put_file ::
  "'fs env \<Rightarrow> string \<Rightarrow> string \<Rightarrow> ('fs, 'z) shell_scheme \<Rightarrow> (int \<times> ('fs, 'z) shell_scheme) outcome" where
  "put_file env src dst s =
     (let (fd0, s) = on_host (\<lambda>fs. os_open (env_os env) fs src O_RDONLY 0) s in
      if fd0 < 0 then Ret (-1, s)
      else
        obind (ps2netfs_req_open dst (PS2_O_WRONLY OR PS2_O_CREAT) s) (\<lambda>(fd1, s).
        if fd1 < 0 then Ret (-1, s)
        else
          let (n, s) = on_host (\<lambda>fs. os_lseek (env_os env) fs fd0 0 2) s;
              n = to_cint (of_cint n);
              (r, s) = on_host (\<lambda>fs. os_lseek (env_os env) fs fd0 0 0) s in
          obind (case put_loop env fd0 fd1 0 n (local_array env BUFFER) s of None \<Rightarrow> Hang | Some m \<Rightarrow> m) (\<lambda>s.
          obind (ps2netfs_req_close fd1 s) (\<lambda>(r, s).
          Ret (0, snd (on_host (\<lambda>fs. os_close (env_os env) fs fd0) s))))))"

text \<open>
  \<open>cli_copy\<close> with \<open>n\<close> characters in each of the three arrays that the second name is split into. The
  arguments are read after they were freed.
\<close>

definition copy_files ::
  "'fs env \<Rightarrow> nat \<Rightarrow> string \<Rightarrow> ('fs, 'z) shell_scheme \<Rightarrow> (int \<times> ('fs, 'z) shell_scheme) outcome" where
  "copy_files env n arg s =
     obind (build_argv (env_room env) (Some arg)) (\<lambda>(argc, argv).
     if argc < 2 then Ret (0, s)
     else
       obind (split_filename MAXPATHLEN MAXPATHLEN MAXPATHLEN (argv ! 0)) (\<lambda>(device, dir, filename).
       obind (split_filename n n n (argv ! 1)) (\<lambda>(device2, dir2, filename2).
       obind (free_argv argv argc) (\<lambda>u.
       let argv = env_freed env argv in
       if device \<noteq> '''' then on_netfs env (get_file env (argv ! 0) (argv ! 1)) s
       else if device2 \<noteq> '''' then on_netfs env (put_file env (argv ! 0) (argv ! 1)) s
       else clicom_system env (''cp '' @ arg) s))))"

definition cli_copy ::
  "'fs env \<Rightarrow> string \<Rightarrow> ('fs, 'z) shell_scheme \<Rightarrow> (int \<times> ('fs, 'z) shell_scheme) outcome" where
  "cli_copy env arg s = copy_files env MAX_PATH arg s"

section \<open>What the commands keep\<close>

lemma keeps_packet:
  "shell_keeps s s1 \<Longrightarrow> (wf_link s1 \<Longrightarrow> length b = PACKET_MAXSIZE) \<Longrightarrow> shell_keeps s (s1\<lparr>send_packet := b\<rparr>)"
  by (auto simp: shell_keeps_def wf_link_def)

lemma keeps_build:
  "shell_keeps s (build_open path mode s)" "shell_keeps s (build_close cmd fd s)"
  "shell_keeps s (build_lseek fd off wh s)" "shell_keeps s (build_path cmd path s)"
  "shell_keeps s (build_mount f d fl a al s)" "shell_keeps s (build_flags cmd path flags s)"
  "shell_keeps s (build_remove opath flags s)"
  by (subst build_only, rule keeps_packet [OF shell_keeps_refl], erule build_length)+

lemma keeps_sent: "shell_keeps s (send_netfs n s)"
  unfolding send_netfs_def by (rule keeps_snd) simp

lemma keeps_received:
  "shell_keeps s s1 \<Longrightarrow> recv_into_packet fd off n s1 = Ret (r, s2) \<Longrightarrow> off \<le> PACKET_MAXSIZE \<Longrightarrow> shell_keeps s s2"
  by (rule shell_keeps_trans [OF _ shell_keeps_recv])

lemma accept_pkt_keeps: "ps2netfs_accept_pkt sock len t s = Ret (r, s') \<Longrightarrow> shell_keeps s s'"
  by (auto simp: ps2netfs_accept_pkt_def obind_Ret_iff Let_def keeps_snd split: if_splits
      dest!: shell_keeps_recv intro: shell_keeps_trans)

lemma keeps_accepted:
  "shell_keeps s s1 \<Longrightarrow> ps2netfs_accept_pkt sock len t s1 = Ret (r, s2) \<Longrightarrow> shell_keeps s s2"
  by (rule shell_keeps_trans [OF _ accept_pkt_keeps])

lemma netfs_exchange_keeps: "netfs_exchange n len rly s = Ret (r, s') \<Longrightarrow> shell_keeps s s'"
  using keeps_sent [of s n] by (auto simp: netfs_exchange_def obind_Ret_iff Let_def split: if_splits
      dest: keeps_accepted)

lemma netfs_request_keeps:
  "ps2netfs_req_open path mode s = Ret (r, s') \<Longrightarrow> shell_keeps s s'"
  "ps2netfs_req_close fd s = Ret (r, s') \<Longrightarrow> shell_keeps s s'"
  "ps2netfs_req_dclose fd s = Ret (r, s') \<Longrightarrow> shell_keeps s s'"
  "ps2netfs_req_lseek fd off wh s = Ret (r, s') \<Longrightarrow> shell_keeps s s'"
  "ps2netfs_req_dopen path s = Ret (r, s') \<Longrightarrow> shell_keeps s s'"
  "ps2netfs_req_mkdir path s = Ret (r, s') \<Longrightarrow> shell_keeps s s'"
  "ps2netfs_req_mount f d fl a al s = Ret (r, s') \<Longrightarrow> shell_keeps s s'"
  "ps2netfs_req_rmdir path s = Ret (r, s') \<Longrightarrow> shell_keeps s s'"
  "ps2netfs_req_sync path fl s = Ret (r, s') \<Longrightarrow> shell_keeps s s'"
  "ps2netfs_req_delete opath fl s = Ret (r, s') \<Longrightarrow> shell_keeps s s'"
  "ps2netfs_req_format opath fl s = Ret (r, s') \<Longrightarrow> shell_keeps s s'"
  unfolding req_open.op_exchange req_close.op_exchange req_dclose.op_exchange req_lseek.op_exchange
    req_dopen.op_exchange req_mkdir.op_exchange req_mount.op_exchange req_rmdir.op_exchange
    req_sync.op_exchange req_delete.op_exchange req_format.op_exchange
  by (erule shell_keeps_trans [OF keeps_build(1) netfs_exchange_keeps] shell_keeps_trans [OF keeps_build(2) netfs_exchange_keeps]
      shell_keeps_trans [OF keeps_build(3) netfs_exchange_keeps] shell_keeps_trans [OF keeps_build(4) netfs_exchange_keeps]
      shell_keeps_trans [OF keeps_build(5) netfs_exchange_keeps] shell_keeps_trans [OF keeps_build(6) netfs_exchange_keeps]
      shell_keeps_trans [OF keeps_build(7) netfs_exchange_keeps])+

lemma netfs_recv_bytes_keeps: "pko_recv_bytes fd room n s = Ret (r, bs, s') \<Longrightarrow> shell_keeps s s'"
  by (auto simp: pko_recv_bytes_def omap_Ret_iff)

lemma store_lengths:
  assumes "wf_link s"
  shows "length (store enc_read_req \<lparr>p_cmd = a, p_len = b, rq_fd = c, rq_nbytes = d\<rparr> (send_packet s)) = PACKET_MAXSIZE"
    "length (store enc_write_req \<lparr>p_cmd = a, p_len = b, wq_fd = c, wq_nbytes = d\<rparr> (send_packet s)) = PACKET_MAXSIZE"
    "length (store enc_dread_req \<lparr>p_cmd = a, p_len = b, dq_fd = c\<rparr> (send_packet s)) = PACKET_MAXSIZE"
    "length (store enc_file_req \<lparr>p_cmd = a, p_len = b, fq_flags = c, fq_path = strncpy p MAX_PATH\<rparr> (send_packet s)) = PACKET_MAXSIZE"
  using assms by (simp_all add: wf_link_def read_req.length_store write_req.length_store dread_req.length_store
      file_req.length_store ok_read_req_def ok_write_req_def ok_dread_req_def ok_file_req_def)

lemma store_devlist_length:
  assumes "wf_link s"
  shows "length (store enc_devlist_req ((view_devlist_req (send_packet s))\<lparr>p_cmd := a, p_len := b,
     vq_path := poke 0 [0, 0] (vq_path (view_devlist_req (send_packet s)))\<rparr>) (send_packet s)) = PACKET_MAXSIZE"
  using assms devlist_req.ok_view [of "send_packet s"]
  by (simp add: wf_link_def devlist_req.length_store ok_devlist_req_def length_poke)

lemma netfs_fixed_request_keeps:
  "ps2netfs_req_umount stack path fl s = Ret (r, s') \<Longrightarrow> shell_keeps s s'"
  "ps2netfs_req_read fd room n s = Ret (r, bs, s') \<Longrightarrow> shell_keeps s s'"
  "ps2netfs_req_write fd ptr n s = Ret (r, s') \<Longrightarrow> shell_keeps s s'"
  "ps2netfs_req_dread fd s = Ret (r, e, s') \<Longrightarrow> shell_keeps s s'"
  "ps2netfs_req_devlist s = Ret (r, l, s') \<Longrightarrow> shell_keeps s s'"
proof -
  assume "ps2netfs_req_umount stack path fl s = Ret (r, s')"
  then show "shell_keeps s s'"
    by (auto simp: ps2netfs_req_umount_def outcome_dests Let_def split: if_splits dest!: accept_pkt_keeps
        elim!: shell_keeps_trans [rotated] intro!: keeps_snd keeps_packet store_lengths)
next
  assume "ps2netfs_req_read fd room n s = Ret (r, bs, s')"
  then show "shell_keeps s s'"
    by (auto simp: ps2netfs_req_read_def outcome_dests Let_def split: if_splits dest!: accept_pkt_keeps netfs_recv_bytes_keeps
        elim!: shell_keeps_trans [rotated] intro!: shell_keeps_trans [OF _ keeps_sent] keeps_packet store_lengths)
next
  assume "ps2netfs_req_write fd ptr n s = Ret (r, s')"
  then show "shell_keeps s s'"
    by (auto simp: ps2netfs_req_write_def outcome_dests Let_def case_prod_beta split: if_splits dest!: accept_pkt_keeps
        elim!: shell_keeps_trans [rotated] intro!: keeps_snd keeps_packet store_lengths)
next
  assume "ps2netfs_req_dread fd s = Ret (r, e, s')"
  then show "shell_keeps s s'"
    by (auto simp: ps2netfs_req_dread_def outcome_dests Let_def split: if_splits dest!: accept_pkt_keeps
        elim!: shell_keeps_trans [rotated] intro!: shell_keeps_trans [OF _ keeps_sent] keeps_packet store_lengths)
next
  assume "ps2netfs_req_devlist s = Ret (r, l, s')"
  then show "shell_keeps s s'"
    by (auto simp: ps2netfs_req_devlist_def outcome_dests Let_def split: if_splits dest!: accept_pkt_keeps
        elim!: shell_keeps_trans [rotated] intro!: shell_keeps_trans [OF _ keeps_sent] keeps_packet store_devlist_length)
qed

lemma keeps_shown: "shell_keeps s s1 \<Longrightarrow> shell_keeps s (s1\<lparr>shown := shown s1 @ ls\<rparr>)"
  by (auto simp: shell_keeps_def wf_link_def)

lemma clicom_system_keeps: "clicom_system env c s = Ret (r, s') \<Longrightarrow> shell_keeps s s'"
  by (auto simp: clicom_system_def outcome_dests dest: shell_keeps_on_host)

lemma cli_pwd_keeps: "cli_pwd env s = Ret (r, s') \<Longrightarrow> shell_keeps s s'"
  by (auto simp: cli_pwd_def outcome_dests keeps_shown split: option.splits)

lemma netfs_ready_keeps: "shell_keeps s (snd (netfs_ready env s))"
  by (simp add: netfs_ready_def ps2netfs_open_def Let_def case_prod_beta keeps_snd)

lemma on_netfs_keeps:
  assumes "on_netfs env f s = Ret (r, s')" and "\<And>s1 r s2. f s1 = Ret (r, s2) \<Longrightarrow> shell_keeps s1 s2"
  shows "shell_keeps s s'"
  using assms netfs_ready_keeps [of s env]
  by (auto simp: on_netfs_def case_prod_beta split: if_splits intro: shell_keeps_trans)

lemma on_device_keeps:
  assumes "on_device arg m1 m2 = Ret (r, s')" and "m1 = Ret (r, s') \<Longrightarrow> shell_keeps s s'" and "m2 = Ret (r, s') \<Longrightarrow> shell_keeps s s'"
  shows "shell_keeps s s'"
  using assms by (auto simp: on_device_def obind_Ret_iff split: if_splits)

lemma list_loop_keeps:
  assumes "list_loop fd s = Some m"
  shows "m = Ret s' \<longrightarrow> shell_keeps s s'"
  using assms
proof (induction rule: list_loop.raw_induct [rotated 1, consumes 1, case_names entry])
  case (entry rec fd s m)
  show ?case
  proof (cases "ps2netfs_req_dread fd s")
    case (Ret x)
    obtain r e s1 where x: "x = (r, e, s1)" by (cases x)
    have s1: "shell_keeps s s1" using Ret unfolding x by (rule netfs_fixed_request_keeps)
    show ?thesis
    proof (cases "0 < r")
      case True
      show ?thesis
      proof (cases "obind (of_option e) list_line")
        case line: (Ret l)
        then have "rec fd (s1\<lparr>shown := shown s1 @ [l]\<rparr>) = Some m" using entry(2) Ret True by (simp add: x)
        with entry(1) have "m = Ret s' \<longrightarrow> shell_keeps (s1\<lparr>shown := shown s1 @ [l]\<rparr>) s'" by blast
        then show ?thesis using keeps_shown [OF s1] by (auto intro: shell_keeps_trans)
      qed (use entry(2) Ret True in \<open>auto simp: x\<close>)
    qed (use entry(2) Ret s1 in \<open>auto simp: x\<close>)
  qed (use entry(2) in auto)
qed

lemma list_entries_keeps: "list_entries fd s = Ret s' \<Longrightarrow> shell_keeps s s'"
  using list_loop_keeps by (auto simp: list_entries_def split: option.splits)

lemma list_dir_keeps: "list_dir arg s = Ret (r, s') \<Longrightarrow> shell_keeps s s'"
  by (auto simp: list_dir_def outcome_dests Let_def keeps_snd split: if_splits
      dest!: netfs_request_keeps list_entries_keeps intro: shell_keeps_trans keeps_shown)

lemma get_loop_next:
  assumes "0 < n" and "ps2netfs_req_read fd1 65536 65536 s = Ret (r, bs, s1)"
  shows "get_loop env fd0 fd1 n buffer s = get_loop env fd0 fd1 (n - 65536) (poke 0 bs buffer)
     (snd (on_host (\<lambda>fs. os_write (env_os env) fs fd0 (take (nat (min n 65536)) (poke 0 bs buffer))) s1))"
proof -
  have "(if n < 65536 then nat n else 65536) = nat (min n 65536)" by (simp add: min_def)
  then show ?thesis
    using assms by (subst get_loop.simps) (simp add: Let_def case_prod_beta)
qed

lemma get_loop_keeps: "get_loop env fd0 fd1 n buffer s = Ret s' \<Longrightarrow> shell_keeps s s'"
proof (induction "nat n" arbitrary: n buffer s rule: less_induct)
  case less
  show ?case
  proof (cases "0 < n")
    case True
    then obtain r bs s1 where rd: "ps2netfs_req_read fd1 65536 65536 s = Ret (r, bs, s1)"
      using less.prems by (subst (asm) get_loop.simps) (auto simp: obind_Ret_iff)
    define s2 where "s2 = snd (on_host (\<lambda>fs. os_write (env_os env) fs fd0 (take (nat (min n 65536)) (poke 0 bs buffer))) s1)"
    have "get_loop env fd0 fd1 (n - 65536) (poke 0 bs buffer) s2 = Ret s'"
      using less.prems get_loop_next [OF True rd, of env fd0 buffer] by (simp add: s2_def)
    then have "shell_keeps s2 s'" using True by (intro less.hyps) simp_all
    moreover have "shell_keeps s s2"
      using netfs_fixed_request_keeps(2) [OF rd] by (simp add: s2_def keeps_snd)
    ultimately show ?thesis by (blast intro: shell_keeps_trans)
  qed (use less.prems in \<open>simp add: get_loop.simps\<close>)
qed

lemma put_loop_keeps:
  assumes "put_loop env fd0 fd1 copied n buffer s = Some m"
  shows "m = Ret s' \<longrightarrow> shell_keeps s s'"
  using assms
proof (induction rule: put_loop.raw_induct [rotated 1, consumes 1, case_names chunk])
  case (chunk rec env fd0 fd1 copied n buffer s m)
  obtain result bs s1 where rd: "on_host (\<lambda>fs. os_read (env_os env) fs fd0 (of_nat BUFFER)) s = ((result, bs), s1)"
    by (metis prod.collapse)
  have s1: "shell_keeps s s1" using rd by (rule shell_keeps_on_host)
  show ?case
  proof (cases "ps2netfs_req_write fd1 (poke 0 bs buffer) result s1")
    case (Ret x)
    obtain r s2 where x: "x = (r, s2)" by (cases x)
    have "shell_keeps s1 s2" using Ret unfolding x by (rule netfs_fixed_request_keeps)
    with s1 have s2: "shell_keeps s s2" by (rule shell_keeps_trans)
    have "if copied < n then if is_cint (copied + r) then rec env fd0 fd1 (copied + r) n (poke 0 bs buffer) s2 = Some m
        else m = Crash else m = Ret s"
      using chunk(2) Ret rd by (auto simp: x split: if_splits)
    then show ?thesis using chunk(1) s2 by (auto split: if_splits intro: shell_keeps_trans)
  qed (use chunk(2) rd in \<open>auto split: if_splits\<close>)
qed

lemma put_run_keeps:
  "(case put_loop env fd0 fd1 copied n buffer s of None \<Rightarrow> Hang | Some m \<Rightarrow> m) = Ret s' \<Longrightarrow> shell_keeps s s'"
  by (auto split: option.splits dest: put_loop_keeps [THEN mp, OF _ refl])

lemma keeps_from_host: "shell_keeps (snd (on_host f s)) s' \<Longrightarrow> shell_keeps s s'"
  using shell_keeps_trans [OF keeps_snd(2) [OF shell_keeps_refl]] .

lemma get_file_keeps: "get_file env src dst s = Ret (r, s') \<Longrightarrow> shell_keeps s s'"
  by (auto simp: get_file_def outcome_dests Let_def case_prod_beta keeps_snd split: if_splits
      dest!: netfs_request_keeps get_loop_keeps keeps_from_host intro!: keeps_snd)
     (blast intro: shell_keeps_trans)

lemma put_file_keeps: "put_file env src dst s = Ret (r, s') \<Longrightarrow> shell_keeps s s'"
  by (auto simp: put_file_def outcome_dests Let_def case_prod_beta keeps_snd split: if_splits
      dest!: netfs_request_keeps put_run_keeps keeps_from_host intro!: keeps_snd)
     (blast intro: shell_keeps_trans)

section \<open>The commands keep the contract\<close>

interpretation make_cmd: shell_command "cli_make env" for env
  by unfold_locales (auto simp: cli_make_def dest: clicom_system_keeps)

interpretation pwd_cmd: shell_command "\<lambda>arg. cli_pwd env" for env
  by unfold_locales (rule cli_pwd_keeps)

interpretation cd_cmd: shell_command "cli_cd env" for env
  by unfold_locales
     (auto simp: cli_cd_def outcome_dests Let_def case_prod_beta keeps_snd split: if_splits
       dest!: cli_pwd_keeps keeps_from_host)

lemmas netfs_cmd_keeps = on_device_keeps [OF _ on_netfs_keeps clicom_system_keeps]

interpretation rmdir_cmd: shell_command "cli_rmdir env" for env
  by unfold_locales (unfold cli_rmdir_def, erule netfs_cmd_keeps, auto simp: outcome_dests dest: netfs_request_keeps)

interpretation mkdir_cmd: shell_command "cli_mkdir env" for env
  by unfold_locales (unfold cli_mkdir_def, erule netfs_cmd_keeps, auto simp: outcome_dests dest: netfs_request_keeps)

interpretation rename_cmd: shell_command "cli_rename env" for env
  by unfold_locales (unfold cli_rename_def, erule netfs_cmd_keeps, auto simp: outcome_dests dest: netfs_request_keeps)

interpretation list_cmd: shell_command "cli_list env" for env
  by unfold_locales (unfold cli_list_def, erule netfs_cmd_keeps, auto dest: list_dir_keeps)

interpretation umount_cmd: shell_command "cli_ps2umount env" for env
  by unfold_locales (unfold cli_ps2umount_def, erule on_netfs_keeps, auto dest: netfs_fixed_request_keeps)

interpretation sync_cmd: shell_command "cli_ps2sync env" for env
  by unfold_locales (unfold cli_ps2sync_def, erule on_netfs_keeps, auto simp: outcome_dests dest: netfs_request_keeps)

interpretation format_cmd: shell_command "cli_ps2format env" for env
  by unfold_locales (unfold cli_ps2format_def, erule on_netfs_keeps, auto simp: outcome_dests dest: netfs_request_keeps)

interpretation mount_cmd: shell_command "cli_ps2mount env" for env
  by unfold_locales (unfold cli_ps2mount_def, erule on_netfs_keeps, auto simp: outcome_dests dest: netfs_request_keeps)

interpretation devlist_cmd: shell_command "\<lambda>arg. cli_devlist env" for env
  by unfold_locales
     (unfold cli_devlist_def, erule on_netfs_keeps,
      auto simp: outcome_dests dest!: netfs_fixed_request_keeps intro: keeps_shown)

interpretation status_cmd: shell_command "\<lambda>arg s. Ret (cli_status s)"
  by unfold_locales (auto simp: cli_status_def keeps_shown)

interpretation copy_cmd: shell_command "cli_copy env" for env
  by unfold_locales
     (auto simp: cli_copy_def copy_files_def outcome_dests Let_def split: if_splits
       dest: on_netfs_keeps [OF _ get_file_keeps] on_netfs_keeps [OF _ put_file_keeps] clicom_system_keeps)

section \<open>Listings of the console\<close>

text \<open>A reply of the service to a request for the next entry.\<close>

definition is_dread_rly :: "pkt_dread_rly \<Rightarrow> bool" where
  "is_dread_rly r \<longleftrightarrow> ok_dread_rly r \<and> p_cmd r = htonl PS2NETFS_DREAD_RLY \<and> p_len r = htons 306"

lemma list_loop_step:
  assumes "ps2netfs_req_dread fd s = Ret (ret, Some e, s1)" and "list_line e = Ret l"
  shows "list_loop fd s = (if 0 < ret then list_loop fd (s1\<lparr>shown := shown s1 @ [l]\<rparr>) else Some (Ret s1))"
  using assms by (subst list_loop.simps) simp

lemma list_loop_entries:
  assumes "wf_link s" and "tx_plan s (ps2_netfs_fd s) = []"
    and "\<forall>r \<in> set rs. is_dread_rly r \<and> 0 < to_cint (ntohl (dy_retval r))"
    and "map (\<lambda>r. list_line (read_dirent r)) rs = map Ret ls"
    and "stream (rx s (ps2_netfs_fd s)) = concat (map enc_dread_rly rs) @ rest"
  shows "\<exists>s'. list_loop fd s = list_loop fd s' \<and> shown s' = shown s @ ls \<and> wf_link s' \<and>
     tx_plan s' = tx_plan s \<and> ps2_netfs_fd s' = ps2_netfs_fd s \<and> closed s' = closed s \<and>
     stream (rx s' (ps2_netfs_fd s)) = rest"
  using assms
proof (induction rs arbitrary: s ls)
  case Nil
  then show ?case by (intro exI [of _ s]) simp
next
  case (Cons r rs)
  from Cons.prems(3) have r: "ok_dread_rly r" "p_cmd r = htonl PS2NETFS_DREAD_RLY" "p_len r = htons 306"
    "0 < to_cint (ntohl (dy_retval r))" by (simp_all add: is_dread_rly_def)
  obtain l ls' where ls: "ls = l # ls'" "list_line (read_dirent r) = Ret l"
    "map (\<lambda>r. list_line (read_dirent r)) rs = map Ret ls'" using Cons.prems(4) by (cases ls) auto
  obtain es buf log where rd: "ps2netfs_req_dread fd s = Ret (to_cint (ntohl (dy_retval r)), Some (read_dirent r),
      s\<lparr>rx := (rx s)(ps2_netfs_fd s := es), send_packet := buf, tx_log := log,
        recv_packet := poke 0 (enc_dread_rly r) (recv_packet s)\<rparr>)"
    and es: "stream es = concat (map enc_dread_rly rs) @ rest" and buf: "length buf = PACKET_MAXSIZE"
  proof -
    have "stream (rx s (ps2_netfs_fd s)) = enc_dread_rly r @ concat (map enc_dread_rly rs) @ rest"
      using Cons.prems(5) by simp
    from dread_step [OF Cons.prems(1,2) r(1-3) this] show thesis using that by metis
  qed
  define s1 where "s1 = s\<lparr>rx := (rx s)(ps2_netfs_fd s := es), send_packet := buf, tx_log := log,
      recv_packet := poke 0 (enc_dread_rly r) (recv_packet s), shown := shown s @ [l]\<rparr>"
  have "wf_link s1"
    using Cons.prems(1) buf dread_rly.length_enc [OF r(1)] by (simp add: s1_def wf_link_def length_poke)
  moreover have "list_loop fd s = list_loop fd s1"
    using list_loop_step [OF rd ls(2)] r(4) by (simp add: s1_def)
  moreover have "tx_plan s1 = tx_plan s" "ps2_netfs_fd s1 = ps2_netfs_fd s" "closed s1 = closed s"
    "shown s1 = shown s @ [l]" "stream (rx s1 (ps2_netfs_fd s)) = concat (map enc_dread_rly rs) @ rest"
    by (simp_all add: s1_def es)
  ultimately show ?case
    using Cons.IH [of s1 ls'] Cons.prems(2,3) ls by auto
qed

lemma list_loop_stuck:
  assumes "list_loop fd s = Some m" and "wf_link s" and "tx_plan s (ps2_netfs_fd s) = []"
    and "stream (rx s (ps2_netfs_fd s)) = []" "script_end (rx s (ps2_netfs_fd s)) = Closes"
    and "view_dread_rly (recv_packet s) = r" "0 < to_cint (ntohl (dy_retval r))" "list_line (read_dirent r) = Ret l"
  shows False
  using assms
proof (induction rule: list_loop.raw_induct [rotated 1, consumes 1, case_names entry])
  case (entry rec fd s m)
  obtain es buf log where rd: "ps2netfs_req_dread fd s = Ret (to_cint (ntohl (dy_retval r)), Some (read_dirent r),
      s\<lparr>rx := (rx s)(ps2_netfs_fd s := es), send_packet := buf, tx_log := log\<rparr>)"
    and es: "stream es = []" "script_end es = Closes" "length buf = PACKET_MAXSIZE"
    using dread_closed [OF entry(3-6)] entry(7) by metis
  have "rec fd (s\<lparr>rx := (rx s)(ps2_netfs_fd s := es), send_packet := buf, tx_log := log, shown := shown s @ [l]\<rparr>) = Some m"
    using entry(2) rd entry(8,9) by simp
  from entry(1) [OF this] show False
    using entry(3,4,7-9) es by (simp add: wf_link_def)
qed

text \<open>
  C32. The listing of a directory of the console. Entries that the service announces with a positive value
  are shown in the order they arrive, until a reply with a value that is not positive ends the list. If
  instead the connection is closed behind an entry, the list never ends: the entry that is still in
  the buffer is shown again and again.
\<close>

theorem list_entries_shows:
  assumes wf: "wf_link s" and plan: "tx_plan s (ps2_netfs_fd s) = []"
  shows "((\<forall>r \<in> set rs. is_dread_rly r \<and> 0 < to_cint (ntohl (dy_retval r))) \<and> is_dread_rly end_rly
       \<and> to_cint (ntohl (dy_retval end_rly)) \<le> 0 \<and> map (\<lambda>r. list_line (read_dirent r)) rs = map Ret ls
       \<and> stream (rx s (ps2_netfs_fd s)) = concat (map enc_dread_rly rs) @ enc_dread_rly end_rly @ rest \<longrightarrow>
     (\<exists>s'. list_entries fd s = Ret s' \<and> shown s' = shown s @ ls \<and> stream (rx s' (ps2_netfs_fd s)) = rest
       \<and> closed s' = closed s))
   \<and> (stream (rx s (ps2_netfs_fd s)) = [] \<and> script_end (rx s (ps2_netfs_fd s)) = Closes
       \<and> view_dread_rly (recv_packet s) = last_rly \<and> 0 < to_cint (ntohl (dy_retval last_rly))
       \<and> list_line (read_dirent last_rly) = Ret l \<longrightarrow> list_entries fd s = Hang)"
proof (intro conjI impI; elim conjE)
  assume rs: "\<forall>r \<in> set rs. is_dread_rly r \<and> 0 < to_cint (ntohl (dy_retval r))"
    and fin: "is_dread_rly end_rly" "to_cint (ntohl (dy_retval end_rly)) \<le> 0"
    and ls: "map (\<lambda>r. list_line (read_dirent r)) rs = map Ret ls"
    and strm: "stream (rx s (ps2_netfs_fd s)) = concat (map enc_dread_rly rs) @ enc_dread_rly end_rly @ rest"
  obtain s1 where s1: "list_loop fd s = list_loop fd s1" "shown s1 = shown s @ ls" "wf_link s1"
    "tx_plan s1 = tx_plan s" "ps2_netfs_fd s1 = ps2_netfs_fd s" "closed s1 = closed s"
    "stream (rx s1 (ps2_netfs_fd s)) = enc_dread_rly end_rly @ rest"
    using list_loop_entries [OF wf plan rs ls strm] by blast
  obtain es buf log where "ps2netfs_req_dread fd s1 = Ret (to_cint (ntohl (dy_retval end_rly)), Some (read_dirent end_rly),
      s1\<lparr>rx := (rx s1)(ps2_netfs_fd s1 := es), send_packet := buf, tx_log := log,
        recv_packet := poke 0 (enc_dread_rly end_rly) (recv_packet s1)\<rparr>)" "stream es = rest"
    using dread_step [of s1 end_rly rest] fin(1) s1 plan unfolding is_dread_rly_def by metis
  with fin(2) s1 show "\<exists>s'. list_entries fd s = Ret s' \<and> shown s' = shown s @ ls
      \<and> stream (rx s' (ps2_netfs_fd s)) = rest \<and> closed s' = closed s"
    unfolding list_entries_def s1(1) by (subst list_loop.simps) simp
next
  assume "stream (rx s (ps2_netfs_fd s)) = []" "script_end (rx s (ps2_netfs_fd s)) = Closes"
    "view_dread_rly (recv_packet s) = last_rly" "0 < to_cint (ntohl (dy_retval last_rly))"
    "list_line (read_dirent last_rly) = Ret l"
  then show "list_entries fd s = Hang"
    using list_loop_stuck [OF _ wf plan] by (auto simp: list_entries_def split: option.splits)
qed

text \<open>The entry of the example in Netfs as the list shows it, and the reply behind the last entry.\<close>

definition list_example :: "int shell" where
  "list_example = shell_example\<lparr>rx := (\<lambda>_. [Arrive (enc_dread_rly dread_example),
     Arrive (enc_dread_rly (dread_example\<lparr>dy_retval := 0\<rparr>))])\<rparr>"

lemma numeral_text_simps [simp]:
  "n < 10 \<Longrightarrow> numeral_text 10 n = [digit_char n]"
  "10 \<le> n \<Longrightarrow> numeral_text 10 n = numeral_text 10 (n div 10) @ [digit_char (n mod 10)]"
  "n < 16 \<Longrightarrow> numeral_text 16 n = [digit_char n]"
  "16 \<le> n \<Longrightarrow> numeral_text 16 n = numeral_text 16 (n div 16) @ [digit_char (n mod 16)]"
  by (subst numeral_text.simps, simp)+

lemma dread_example_name: "c_str (de_name (read_dirent dread_example)) = Some ''f''"
  by (rule read_dirent_name) (simp_all add: dread_example_def)

lemma showMode_example: "ps2netfs_showMode 0x11FF = ''drwxrwxrwx''"
  by (simp add: ps2netfs_showMode_def mode_char_def upt_rec)

lemma ntohl_0 [simp]: "ntohl 0 = 0"
  by (simp add: ntohl_def htonl_def le32_def)

lemma list_line_example:
  "list_line (read_dirent dread_example) = Ret ''drwxrwxrwx 0x0000        42 May  4  3:02 f                    ''"
proof -
  have "replicate 7 CHR '' '' = ''       ''" "replicate 19 CHR '' '' = ''                   ''"
    "replicate 3 CHR ''0'' = ''000''"
    by (simp_all add: numeral_eq_Suc)
  then show ?thesis
    using dread_example_name
    by (simp add: list_line_def ps2netfs_showStat_def strMonth_def read_dirent_def dread_example_def showMode_example
        pad_left_def pad_right_def dec_def to_cint_def digit_char_def char_of_def bit_Suc_0_iff)
qed

theorem list_entries_shows_witness:
  "(\<exists>s'. list_entries 3 list_example = Ret s' \<and>
     shown s' = [''drwxrwxrwx 0x0000        42 May  4  3:02 f                    ''])
   \<and> list_entries 3 (shell_example\<lparr>recv_packet := enc_dread_rly dread_example @ replicate 3790 0\<rparr>) = Hang"
proof -
  let ?s = "shell_example\<lparr>recv_packet := enc_dread_rly dread_example @ replicate 3790 0\<rparr>"
  let ?l = "''drwxrwxrwx 0x0000        42 May  4  3:02 f                    ''"
  have ok: "ok_dread_rly dread_example" "ok_dread_rly (dread_example\<lparr>dy_retval := 0\<rparr>)"
    by (simp_all add: ok_dread_rly_def dread_example_def)
  then have rly: "is_dread_rly dread_example" "is_dread_rly (dread_example\<lparr>dy_retval := 0\<rparr>)"
    by (simp_all add: is_dread_rly_def) (simp_all add: dread_example_def)
  have one: "to_cint (ntohl (dy_retval dread_example)) = 1"
    by (simp add: dread_example_def to_cint_def)
  have wf: "wf_link list_example" "tx_plan list_example (ps2_netfs_fd list_example) = []"
    "stream (rx list_example (ps2_netfs_fd list_example)) =
       enc_dread_rly dread_example @ enc_dread_rly (dread_example\<lparr>dy_retval := 0\<rparr>)" "shown list_example = []"
    by (simp_all add: list_example_def wf_link_def shell_example_def shell_init_def link_init_def link.defs)
  have wf': "wf_link ?s" "tx_plan ?s (ps2_netfs_fd ?s) = []" "rx ?s = (\<lambda>_. [PeerClosed])"
    "view_dread_rly (recv_packet ?s) = dread_example"
    using ok by (simp_all add: wf_link_def dread_rly.length_enc dread_rly.view_enc)
       (simp add: shell_example_def shell_init_def link_init_def link.defs)
  have "\<exists>s'. list_entries 3 list_example = Ret s' \<and> shown s' = [?l]"
    using list_entries_shows [OF wf(1,2), of "[dread_example]" "dread_example\<lparr>dy_retval := 0\<rparr>" "[?l]" "[]" 3]
      rly one list_line_example wf(3,4) by (auto simp: to_cint_def)
  moreover have "list_entries 3 ?s = Hang"
    using list_entries_shows [OF wf'(1,2), of "[]" dread_example "[]" "[]" 3 dread_example ?l]
      wf'(3,4) one list_line_example by simp
  ultimately show ?thesis by blast
qed

end
