(* ===== verification/Commands.thy ===== *)
theory Commands
  imports Netcmds
begin

text \<open>
  \<open>pksh.c\<close> and \<open>pksh.h\<close>, the command line: the table of the commands, \<open>find_command\<close>, \<open>execute_line\<close>,
  \<open>cli_help\<close>, the handler of readline, and the configuration file. A pointer to a function of the table
  is a value of the type \<open>cli\<close>.
\<close>

section \<open>The table\<close>

datatype cli =
  Cli_help | Cli_cd | Cli_debug | Cli_dumpmem | Cli_dumpregs | Cli_quit | Cli_execee
  | Cli_exception | Cli_execeiop | Cli_gsexec | Cli_list | Cli_log | Cli_make | Cli_poweroff
  | Cli_pwd | Cli_reset | Cli_setroot | Cli_status | Cli_verbose | Cli_vustart | Cli_vustop
  | Cli_writemem | Cli_copy | Cli_devlist | Cli_ps2format | Cli_mkdir | Cli_ps2mount | Cli_rmdir
  | Cli_rename | Cli_ps2sync | Cli_ps2umount

record COMMAND =
  c_name :: string
  c_func :: cli
  c_doc :: string

definition commands :: "COMMAND list" where
  "commands =
    [\<lparr>c_name = ''?'', c_func = Cli_help, c_doc = ''? :: Synonym for '' @ [CHR 0x60] @ ''help'' @ [CHR 0x27] @ ''.''\<rparr>,
     \<lparr>c_name = ''cd'', c_func = Cli_cd, c_doc = ''cd [dir] :: Change pksh directory to [dir].''\<rparr>,
     \<lparr>c_name = ''debug'', c_func = Cli_debug, c_doc = ''debug :: Show pksh debug messages. ( alt-d )''\<rparr>,
     \<lparr>c_name = ''dumpmem'', c_func = Cli_dumpmem, c_doc = ''dumpmem [file] [offset] [size] :: Dump [size] bytes of memory from [offset] to [file].''\<rparr>,
     \<lparr>c_name = ''dumpreg'', c_func = Cli_dumpregs, c_doc = ''dumpreg [file] [dma|intc|timer|gs|sif|fifo|gif|vif0|vif1|ipu|all] :: Dumps given registers to file.''\<rparr>,
     \<lparr>c_name = ''exit'', c_func = Cli_quit, c_doc = ''exit :: Exits pksh ( alt-q )''\<rparr>,
     \<lparr>c_name = ''eeexec'', c_func = Cli_execee, c_doc = ''eeexec [file] [argn] ... :: Execute file on EE.''\<rparr>,
     \<lparr>c_name = ''exception'', c_func = Cli_exception, c_doc = ''exception [screen|console] :: Exception dumps to [screen] or [console].''\<rparr>,
     \<lparr>c_name = ''execee'', c_func = Cli_execee, c_doc = ''execee [file] [argn] ... :: Execute file on EE.''\<rparr>,
     \<lparr>c_name = ''execiop'', c_func = Cli_execeiop, c_doc = ''execiop [file] :: Execute file on IOP.''\<rparr>,
     \<lparr>c_name = ''execgs'', c_func = Cli_gsexec, c_doc = ''execgs [file] :: Send display list to GS.''\<rparr>,
     \<lparr>c_name = ''gsexec'', c_func = Cli_gsexec, c_doc = ''gsexec [file] :: Send display list to GS.''\<rparr>,
     \<lparr>c_name = ''help'', c_func = Cli_help, c_doc = ''help :: Display this text.''\<rparr>,
     \<lparr>c_name = ''iopexec'', c_func = Cli_execeiop, c_doc = ''iopexec [file] :: Execute file on IOP.''\<rparr>,
     \<lparr>c_name = ''list'', c_func = Cli_list, c_doc = ''list [dir] :: List files in [dir].''\<rparr>,
     \<lparr>c_name = ''log'', c_func = Cli_log, c_doc = ''log [file] :: Log messages from PS2 to [file].''\<rparr>,
     \<lparr>c_name = ''ls'', c_func = Cli_list, c_doc = ''ls [dir] :: Synonym for list''\<rparr>,
     \<lparr>c_name = ''make'', c_func = Cli_make, c_doc = ''make [argn] ... :: Execute make [argn] ...''\<rparr>,
     \<lparr>c_name = ''poweroff'', c_func = Cli_poweroff, c_doc = ''poweroff :: Poweroff the PS2''\<rparr>,
     \<lparr>c_name = ''pwd'', c_func = Cli_pwd, c_doc = ''pwd :: Print the current working directory ( alt-p )''\<rparr>,
     \<lparr>c_name = ''quit'', c_func = Cli_quit, c_doc = ''quit :: Quit pksh ( alt-q )''\<rparr>,
     \<lparr>c_name = ''reset'', c_func = Cli_reset, c_doc = ''reset :: Resets ps2 side ( alt-r )''\<rparr>,
     \<lparr>c_name = ''setroot'', c_func = Cli_setroot, c_doc = ''setroot [dir] :: Sets [dir] to be root dir.''\<rparr>,
     \<lparr>c_name = ''status'', c_func = Cli_status, c_doc = ''status :: Display some pksh information. ( alt-s )''\<rparr>,
     \<lparr>c_name = ''verbose'', c_func = Cli_verbose, c_doc = ''verbose :: Show verbose pksh messages. ( alt-v )''\<rparr>,
     \<lparr>c_name = ''vustart'', c_func = Cli_vustart, c_doc = ''vustart [0|1] :: Start vu0+vif0 or vu1+vif1.''\<rparr>,
     \<lparr>c_name = ''vustop'', c_func = Cli_vustop, c_doc = ''vustop [0|1] :: Stop vu0+vif0 or vu1+vif1.''\<rparr>,
     \<lparr>c_name = ''writemem'', c_func = Cli_writemem, c_doc = ''writemem [file] [offset] :: Writes the contents of the file to offset''\<rparr>,
     \<lparr>c_name = ''cp'', c_func = Cli_copy, c_doc = ''copy :: cp [source] [destination]''\<rparr>,
     \<lparr>c_name = ''devlist'', c_func = Cli_devlist, c_doc = ''devlist ::''\<rparr>,
     \<lparr>c_name = ''format'', c_func = Cli_ps2format, c_doc = ''format ... ''\<rparr>,
     \<lparr>c_name = ''mkdir'', c_func = Cli_mkdir, c_doc = ''mkdir [device]:[dir] ... :: remove dir [dir] on device [device] (default is hdd:) ...''\<rparr>,
     \<lparr>c_name = ''ps2mount'', c_func = Cli_ps2mount, c_doc = ''mount [device]:[dir] ... :: remove dir [dir] on device [device] (default is hdd:) ...''\<rparr>,
     \<lparr>c_name = ''rmdir'', c_func = Cli_rmdir, c_doc = ''rmdir [device]:[dir] ... :: remove dir [dir] on device [device] (default is hdd:) ...''\<rparr>,
     \<lparr>c_name = ''rm'', c_func = Cli_rename, c_doc = ''rename [devive]:[dir] :: rename ...''\<rparr>,
     \<lparr>c_name = ''ps2sync'', c_func = Cli_ps2sync, c_doc = ''sync :: Sync IO operation with ps2netfs''\<rparr>,
     \<lparr>c_name = ''ps2umount'', c_func = Cli_ps2umount, c_doc = ''umount [devive]:[dir] :: ''\<rparr>]"

fun find_in :: "COMMAND list \<Rightarrow> string \<Rightarrow> COMMAND option" where
  "find_in [] name = None"
| "find_in (c # cs) name = (if name = c_name c then Some c else find_in cs name)"

definition find_command :: "string \<Rightarrow> COMMAND option" where
  "find_command name = find_in commands name"

section \<open>Help\<close>

text \<open>The names of all commands, six in a row; \<open>printed\<close> is how many are in the row.\<close>

fun help_rows :: "nat \<Rightarrow> string \<Rightarrow> COMMAND list \<Rightarrow> string list" where
  "help_rows printed row [] = (if printed \<noteq> 0 then [row] else [])"
| "help_rows printed row (c # cs) =
     (if printed = 6 then row # help_rows 1 ('' '' @ c_name c @ [CHR 0x09]) cs
      else help_rows (Suc printed) (row @ '' '' @ c_name c @ [CHR 0x09]) cs)"

definition help_line :: "COMMAND \<Rightarrow> string" where
  "help_line c = pad_right 10 (c_name c) @ ''  '' @ c_doc c @ ''.''"

definition cli_help :: "string \<Rightarrow> ('fs, 'z) shell_scheme \<Rightarrow> int \<times> ('fs, 'z) shell_scheme" where
  "cli_help arg s =
     (let lines = map help_line (filter (\<lambda>c. arg = '''' \<or> arg = c_name c) commands);
          lines = (if lines = []
            then ('' No commands match '' @ [CHR 0x27] @ arg @ [CHR 0x27] @ ''. Available commands are:'')
              # help_rows 0 '''' commands
            else lines)
      in (0, s\<lparr>shown := shown s @ lines\<rparr>))"

section \<open>Running a line\<close>

text \<open>The call \<open>(*(command->func))(word)\<close>; \<open>cap\<close> is the size of the array from \<open>word\<close> on.\<close>

fun run_func ::
  "'fs env \<Rightarrow> cli \<Rightarrow> nat \<Rightarrow> string \<Rightarrow> ('fs, 'z) shell_scheme \<Rightarrow> (int \<times> ('fs, 'z) shell_scheme) outcome" where
  "run_func env Cli_help cap arg s = Ret (cli_help arg s)"
| "run_func env Cli_cd cap arg s = cli_cd env arg s"
| "run_func env Cli_debug cap arg s = Ret (cli_debug s)"
| "run_func env Cli_dumpmem cap arg s = cli_dumpmem env cap arg s"
| "run_func env Cli_dumpregs cap arg s = cli_dumpregs env cap arg s"
| "run_func env Cli_quit cap arg s = Ret (cli_quit s)"
| "run_func env Cli_execee cap arg s = cli_execee env arg s"
| "run_func env Cli_exception cap arg s = cli_exception env cap arg s"
| "run_func env Cli_execeiop cap arg s = cli_execeiop env arg s"
| "run_func env Cli_gsexec cap arg s = cli_gsexec env cap arg s"
| "run_func env Cli_list cap arg s = cli_list env arg s"
| "run_func env Cli_log cap arg s = cli_log env cap arg s"
| "run_func env Cli_make cap arg s = cli_make env arg s"
| "run_func env Cli_poweroff cap arg s = Ret (cli_poweroff env s)"
| "run_func env Cli_pwd cap arg s = cli_pwd env s"
| "run_func env Cli_reset cap arg s = Ret (cli_reset env s)"
| "run_func env Cli_setroot cap arg s = Ret (cli_setroot arg s)"
| "run_func env Cli_status cap arg s = Ret (cli_status s)"
| "run_func env Cli_verbose cap arg s = Ret (cli_verbose s)"
| "run_func env Cli_vustart cap arg s = Ret (cli_vustart env arg s)"
| "run_func env Cli_vustop cap arg s = Ret (cli_vustop env arg s)"
| "run_func env Cli_writemem cap arg s = cli_writemem env cap arg s"
| "run_func env Cli_copy cap arg s = cli_copy env arg s"
| "run_func env Cli_devlist cap arg s = cli_devlist env s"
| "run_func env Cli_ps2format cap arg s = cli_ps2format env arg s"
| "run_func env Cli_mkdir cap arg s = cli_mkdir env arg s"
| "run_func env Cli_ps2mount cap arg s = cli_ps2mount env arg s"
| "run_func env Cli_rmdir cap arg s = cli_rmdir env arg s"
| "run_func env Cli_rename cap arg s = cli_rename env arg s"
| "run_func env Cli_ps2sync cap arg s = cli_ps2sync env arg s"
| "run_func env Cli_ps2umount cap arg s = cli_ps2umount env arg s"

text \<open>
  \<open>execute_line\<close> on the line that is edited, in an array of \<open>cap\<close> characters. The NUL behind the command is
  stored there, so a command that looks at the line being edited finds it cut.
\<close>

definition execute_line ::
  "'fs env \<Rightarrow> nat \<Rightarrow> string \<Rightarrow> ('fs, 'z) shell_scheme \<Rightarrow> (int \<times> ('fs, 'z) shell_scheme) outcome" where
  "execute_line env cap line s =
     (let ws = env_whitespace env;
          blanks = takeWhile ws line;
          word = takeWhile (\<lambda>c. \<not> ws c) (drop (length blanks) line);
          i = length blanks + length word;
          rest = (if i < length line then drop (Suc i) line else '''');
          arg = dropWhile ws rest
      in case find_command word of
           None \<Rightarrow> Ret (on_host (\<lambda>fs. env_system env fs line) s)
         | Some command \<Rightarrow>
             run_func (env\<lparr>env_line := take i line\<rparr>) (c_func command) (cap - (length line - length arg)) arg s)"

definition cli_handler :: "'fs env \<Rightarrow> nat \<Rightarrow> ('fs, 'z) shell_scheme \<Rightarrow> ('fs, 'z) shell_scheme outcome" where
  "cli_handler env cap s =
     (if env_line env \<noteq> '''' then omap snd (execute_line env cap (env_line env) s) else Ret s)"

section \<open>The configuration file\<close>

text \<open>
  One line of the file, up to its NUL: \<open>value\<close> lies in an array of \<open>MAXPATHLEN\<close> characters. \<open>cli_log(stdout)\<close>
  passes a \<open>FILE *\<close> where a string is expected, and \<open>trim\<close> writes to it.
\<close>

definition config_line :: "'fs env \<Rightarrow> string \<Rightarrow> ('fs, 'z) shell_scheme \<Rightarrow> ('fs, 'z) shell_scheme outcome" where
  "config_line env line s =
     (if line \<noteq> '''' \<and> hd line = CHR ''#'' then Ret s
      else
        let (key, value) = read_pair line in
        obind (trim_arg MAXPATHLEN key) (\<lambda>key.
        let ptr = stripwhite (env_whitespace env) value;
            cap = MAXPATHLEN - length (takeWhile (env_whitespace env) value) in
        if key = ''ip'' then oguard (length ptr < 16) (Ret (s\<lparr>dst_ip := ptr\<rparr>))
        else if key = ''log'' then (if ptr = '''' then Crash else omap snd (cli_log env cap ptr s))
        else if key = ''exception'' then Ret (s\<lparr>DUMPSCREEN := (if ptr = ''screen'' then 1 else 0)\<rparr>)
        else if key = ''verbose'' then Ret (if ptr = ''yes'' then s\<lparr>VERBOSE := 1\<rparr> else s)
        else if key = ''debug'' then Ret (if ptr = ''yes'' then pko_set_debug 1 s else s)
        else if key = ''histfile'' then
          (if ptr \<noteq> '''' then oguard (length ptr < MAXPATHLEN) (Ret (s\<lparr>pksh_history := ptr\<rparr>)) else Ret s)
        else if key = ''bind'' then
          (if ptr \<noteq> '''' then oguard (length ptr < 16) (Ret (s\<lparr>src_ip := ptr\<rparr>)) else Ret s)
        else if key = ''path'' then
          (if ptr \<noteq> '''' then omap (\<lambda>path. pko_set_path path s) (path_split (env_room env) ptr) else Ret s)
        else if key = ''suffix'' then
          (if ptr \<noteq> '''' then omap (\<lambda>ls. s\<lparr>rl_state := common_set_suffix ls (rl_state s)\<rparr>) (path_split (env_room env) ptr)
           else Ret s)
        else if key = ''setroot'' then Ret (if ptr \<noteq> '''' then pko_set_root ptr s else s)
        else if key = ''home'' then
          Ret (if ptr \<noteq> '''' then snd (on_host (\<lambda>fs. env_chdir env fs ptr) s) else s)
        else Ret s))"

text \<open>The loop over the lines. Characters behind a NUL in a line are not seen.\<close>

lemma read_line_shorter: "read_line file = Some (line, rest) \<Longrightarrow> length rest < length file"
proof -
  assume "read_line file = Some (line, rest)"
  then obtain l where l: "read_line_loop 0 NUL file = Some (l, rest)"
    by (auto simp: read_line_def)
  moreover have "read_line_loop 0 NUL file \<noteq> Some ([], rest)"
    by (subst read_line_loop.simps) (auto split: list.splits)
  ultimately show ?thesis
    using read_line_loop_bound [OF l] by (cases l) auto
qed

function config_lines :: "'fs env \<Rightarrow> string \<Rightarrow> ('fs, 'z) shell_scheme \<Rightarrow> ('fs, 'z) shell_scheme outcome" where
  "config_lines env file s =
     (case read_line file of
        None \<Rightarrow> Ret s
      | Some (line, rest) \<Rightarrow> obind (config_line env (takeWhile (\<lambda>c. c \<noteq> NUL) line) s) (config_lines env rest))"
  by pat_completeness auto
termination by (relation "measure (\<lambda>(env, file, s). length file)") (auto dest: read_line_shorter)

declare config_lines.simps [simp del]

definition read_config :: "'fs env \<Rightarrow> ('fs, 'z) shell_scheme \<Rightarrow> ('fs, 'z) shell_scheme outcome" where
  "read_config env s =
     (let home = get_home (env_environ env);
          value = (case home of Some line \<Rightarrow> snd (read_pair line) | None \<Rightarrow> ''./'');
          name = value @ ''/.pkshrc'' in
      oguard (length (case home of Some line \<Rightarrow> line | None \<Rightarrow> '''') < MAXPATHLEN \<and> length name < MAXPATHLEN)
        (case env_fopen env (host s) name of
           None \<Rightarrow> Ret s
         | Some file \<Rightarrow> config_lines env file s))"

section \<open>The table as a map\<close>

lemma find_in_Some: "find_in cs name = Some c \<Longrightarrow> c \<in> set cs \<and> c_name c = name"
  by (induction cs) (auto split: if_splits)

lemma find_in_None: "find_in cs name = None \<longleftrightarrow> name \<notin> c_name ` set cs"
  by (induction cs) auto

lemma find_in_distinct: "distinct (map c_name cs) \<Longrightarrow> c \<in> set cs \<Longrightarrow> find_in cs (c_name c) = Some c"
  by (induction cs) (auto, metis image_eqI)

lemma commands_distinct: "distinct (map c_name commands)"
  by (simp add: commands_def)

lemma find_command_own: "c \<in> set commands \<Longrightarrow> find_command (c_name c) = Some c"
  unfolding find_command_def by (rule find_in_distinct [OF commands_distinct])

lemma find_command_None: "find_command name = None \<longleftrightarrow> name \<notin> c_name ` set commands"
  unfolding find_command_def by (rule find_in_None)

section \<open>What the command line keeps\<close>

lemma cli_help_keeps: "shell_keeps s (snd (cli_help arg s))"
  by (simp add: cli_help_def Let_def keeps_shown)

interpretation help_cmd: shell_command "\<lambda>arg s. Ret (cli_help arg s)"
  by unfold_locales (metis cli_help_keeps outcome.inject snd_conv)

lemmas commands_keep =
  help_cmd.keeps cd_cmd.keeps debug.keeps dumpmem_cmd.keeps dumpregs_cmd.keeps quit.keeps execee.keeps exception.keeps
  execeiop.keeps gsexec.keeps list_cmd.keeps log_cmd.keeps make_cmd.keeps poweroff.keeps pwd_cmd.keeps reset.keeps
  setroot.keeps status_cmd.keeps verbose.keeps vustart.keeps vustop.keeps writemem.keeps copy_cmd.keeps
  devlist_cmd.keeps format_cmd.keeps mkdir_cmd.keeps mount_cmd.keeps rmdir_cmd.keeps rename_cmd.keeps sync_cmd.keeps
  umount_cmd.keeps

lemma run_func_keeps: "run_func env f cap arg s = Ret (r, s') \<Longrightarrow> shell_keeps s s'"
  by (cases f) (simp only: run_func.simps, erule commands_keep)+

interpretation line: shell_command "execute_line env cap" for env cap
  by unfold_locales
     (auto simp: execute_line_def Let_def split: option.splits dest: run_func_keeps shell_keeps_on_host)

lemma cli_handler_keeps: "cli_handler env cap s = Ret s' \<Longrightarrow> shell_keeps s s'"
  by (auto simp: cli_handler_def outcome_dests split: if_splits dest: line.keeps)

section \<open>A line and its command\<close>

lemma takeWhile_blanks: "\<forall>c \<in> set bs. p c \<Longrightarrow> w \<noteq> [] \<Longrightarrow> \<not> p (hd w) \<Longrightarrow> takeWhile p (bs @ w @ r) = bs"
  by (induction bs) (auto simp: neq_Nil_conv)

lemma takeWhile_name: "\<forall>c \<in> set w. \<not> p c \<Longrightarrow> r = [] \<or> p (hd r) \<Longrightarrow> takeWhile (\<lambda>c. \<not> p c) (w @ r) = w"
  by (induction w) (cases r; auto)+

lemma dropWhile_blanks: "\<forall>c \<in> set bs. p c \<Longrightarrow> arg = [] \<or> \<not> p (hd arg) \<Longrightarrow> dropWhile p (bs @ arg) = arg"
  by (induction bs) (cases arg; auto)+

lemma dropWhile_tl: "\<forall>c \<in> set bs. p c \<Longrightarrow> arg = [] \<or> \<not> p (hd arg) \<Longrightarrow> bs \<noteq> [] \<Longrightarrow> dropWhile p (drop 1 (bs @ arg)) = arg"
  using dropWhile_blanks [of "tl bs" p arg] by (cases bs) auto

lemma execute_line_run:
  assumes "\<forall>c \<in> set pre \<union> set gap. env_whitespace env c" and "\<forall>c \<in> set name. \<not> env_whitespace env c"
    and "name \<noteq> ''''" and "gap = '''' \<longrightarrow> arg = ''''" and "arg = '''' \<or> \<not> env_whitespace env (hd arg)"
  shows "execute_line env cap (pre @ name @ gap @ arg) s =
     (if name \<in> c_name ` set commands
      then run_func (env\<lparr>env_line := pre @ name\<rparr>) (c_func (the (find_command name)))
        (cap - length (pre @ name @ gap)) arg s
      else Ret (on_host (\<lambda>fs. env_system env fs (pre @ name @ gap @ arg)) s))"
proof -
  have pre: "takeWhile (env_whitespace env) (pre @ name @ gap @ arg) = pre"
    using assms(1-3) by (intro takeWhile_blanks) auto
  have name: "takeWhile (\<lambda>c. \<not> env_whitespace env c) (name @ gap @ arg) = name"
    using assms(1,2,4) by (intro takeWhile_name) (auto simp: neq_Nil_conv)
  have drop_pre: "drop (length pre) (pre @ name @ gap @ arg) = name @ gap @ arg" by simp
  have rest: "gap \<noteq> '''' \<Longrightarrow> dropWhile (env_whitespace env) (drop 1 (gap @ arg)) = arg"
    using assms(1,5) by (intro dropWhile_tl) auto
  show "execute_line env cap (pre @ name @ gap @ arg) s =
     (if name \<in> c_name ` set commands
      then run_func (env\<lparr>env_line := pre @ name\<rparr>) (c_func (the (find_command name)))
        (cap - length (pre @ name @ gap)) arg s
      else Ret (on_host (\<lambda>fs. env_system env fs (pre @ name @ gap @ arg)) s))"
  proof (cases "find_command name")
    case None
    then show ?thesis
      using pre name by (simp add: execute_line_def Let_def) (simp add: find_command_None)
  next
    case (Some c)
    then have "name \<in> c_name ` set commands" using find_command_None [of name] by auto
    then show ?thesis
      unfolding execute_line_def Let_def pre drop_pre name
      using Some rest assms(4) by (cases "gap = ''''") simp_all
  qed
qed

text \<open>
  C10. Which command a line runs. Blanks, the name of a command of the table, blanks and the rest: the
  function of that command is called, once, with the rest as its argument, in the part of the array that is
  left for it. A line that starts with any other word is given to the host's shell as it was typed. Every
  name of the table is found, as no two commands have the same name.
\<close>

theorem execute_line_dispatch:
  assumes "\<forall>c \<in> set pre \<union> set gap. env_whitespace env c" and "\<forall>c \<in> set name. \<not> env_whitespace env c"
    and "name \<noteq> ''''" and "gap = '''' \<longrightarrow> arg = ''''" and "arg = '''' \<or> \<not> env_whitespace env (hd arg)"
  shows "execute_line env cap (pre @ name @ gap @ arg) s =
     (if name \<in> c_name ` set commands
      then run_func (env\<lparr>env_line := pre @ name\<rparr>) (c_func (the (find_command name)))
        (cap - length (pre @ name @ gap)) arg s
      else Ret (on_host (\<lambda>fs. env_system env fs (pre @ name @ gap @ arg)) s))
   \<and> (\<forall>c \<in> set commands. find_command (c_name c) = Some c)"
  using execute_line_run [OF assms] find_command_own by blast

lemma find_command_quit: "find_command ''quit'' = Some \<lparr>c_name = ''quit'', c_func = Cli_quit, c_doc = ''quit :: Quit pksh ( alt-q )''\<rparr>"
  using find_command_own [of "\<lparr>c_name = ''quit'', c_func = Cli_quit, c_doc = ''quit :: Quit pksh ( alt-q )''\<rparr>"]
  by (simp add: commands_def)

theorem execute_line_dispatch_witness:
  "execute_line example_env 80 '' quit  now'' shell_example = Ret (0, shell_example\<lparr>doloop := 0\<rparr>)
   \<and> execute_line example_env 80 ''uname'' shell_example = Ret (0, shell_example)"
proof -
  have names: "''quit'' \<in> c_name ` set commands" "''uname'' \<notin> c_name ` set commands"
    by (simp_all add: commands_def)
  have sys: "env_system example_env = (\<lambda>n c. (0, n))" by (simp add: example_env_def)
  show ?thesis
    using execute_line_dispatch [of "'' ''" "''  ''" example_env "''quit''" "''now''" 80 shell_example]
      execute_line_dispatch [of "''''" "''''" example_env "''uname''" "''''" 80 shell_example] names
    by (auto simp: find_command_quit cli_quit_def on_host_def sys shell_example_def)
qed

section \<open>Settings\<close>

lemma stripwhite_value:
  assumes "\<forall>c \<in> set p \<union> set q. ws c" and "v = [] \<or> \<not> ws (hd v) \<and> \<not> ws (last v)"
  shows "stripwhite ws (p @ v @ q) = v"
proof -
  have "dropWhile ws (rev v) = rev v" if "v \<noteq> []"
    using that assms(2) by (cases "rev v") (auto simp: hd_rev)
  moreover have "dropWhile ws v = v" if "v \<noteq> []" using that assms(2) by (cases v) auto
  moreover have "dropWhile ws (p @ v @ q) = (if v = [] then [] else dropWhile ws v @ q)"
    using assms by (cases v) (auto simp: dropWhile_append3)
  moreover have "dropWhile ws (rev q @ rev v) = dropWhile ws (rev v)"
    by (rule dropWhile_append2) (use assms(1) in auto)
  ultimately show ?thesis
    using stripwhite_both_sides [of ws "p @ v @ q"] by auto
qed

lemma trim_arg_key:
  assumes "key \<noteq> ''''" "hd key \<noteq> CHR '' ''" "last key \<noteq> CHR '' ''" "length key < cap"
  shows "trim_arg cap (key @ replicate t CHR '' '') = Ret key"
proof -
  have "leading_blanks (key @ replicate t CHR '' '') = 0" using assms(1,2) by (cases key) auto
  then show ?thesis
    using last_nonblank_append [OF assms(1,3), of t] assms(4) by (simp add: trim_arg_def trim_def)
qed

text \<open>A line of the file that sets something.\<close>

definition setting_line :: "string \<Rightarrow> nat \<Rightarrow> string \<Rightarrow> string" where
  "setting_line key t value = key @ replicate t CHR '' '' @ ''='' @ value"

definition is_key :: "string \<Rightarrow> bool" where
  "is_key key \<longleftrightarrow> key \<noteq> '''' \<and> hd key \<noteq> CHR '' '' \<and> last key \<noteq> CHR '' '' \<and> hd key \<noteq> CHR ''#'' \<and>
     CHR ''='' \<notin> set key \<and> length key < MAXPATHLEN"

lemma setting_line_parts:
  assumes "is_key key"
  shows "read_pair (setting_line key t value) = (key @ replicate t CHR '' '', value)"
    "setting_line key t value \<noteq> ''''" "hd (setting_line key t value) \<noteq> CHR ''#''"
    "trim_arg MAXPATHLEN (key @ replicate t CHR '' '') = Ret key"
proof -
  have "strchr (setting_line key t value) CHR ''='' = Some (length key + t)"
    using assms by (auto simp: strchr_Some_iff setting_line_def is_key_def nth_append)
  then show "read_pair (setting_line key t value) = (key @ replicate t CHR '' '', value)"
    by (simp add: read_pair_def setting_line_def)
  show "trim_arg MAXPATHLEN (key @ replicate t CHR '' '') = Ret key"
    using assms by (intro trim_arg_key) (simp_all add: is_key_def)
qed (use assms in \<open>auto simp: setting_line_def is_key_def\<close>)

lemma config_lines_Cons:
  assumes "NEWLINE \<notin> set l" "NUL \<notin> set l" "length l < MAXPATHLEN"
  shows "config_lines env (l @ NEWLINE # rest) s = obind (config_line env l s) (config_lines env rest)"
proof -
  have "read_line (l @ NEWLINE # rest) = Some (l, rest)"
    using read_line_loop_line [of l 0 NUL rest] assms by (simp add: read_line_def)
  moreover have "takeWhile (\<lambda>c. c \<noteq> NUL) l = l" using assms(2) by (auto simp: takeWhile_eq_all_conv)
  ultimately show ?thesis by (subst config_lines.simps) (simp del: takeWhile_eq_all_conv)
qed

lemma foldl_bind_Crash [simp]: "foldl (\<lambda>m l. obind m (f l)) Crash ls = Crash"
  "foldl (\<lambda>m l. obind m (f l)) Hang ls = Hang"
  by (induction ls) simp_all

lemma config_lines_all:
  fixes s :: "('fs, 'z) shell_scheme"
  assumes "\<forall>l \<in> set ls. NEWLINE \<notin> set l \<and> NUL \<notin> set l \<and> length l < MAXPATHLEN"
    and "NEWLINE \<notin> set tail" and "length tail < MAXPATHLEN"
  shows "config_lines env (concat (map (\<lambda>l. l @ [NEWLINE]) ls) @ tail) s =
       foldl (\<lambda>m l. obind m (config_line env l)) (Ret s) ls"
  using assms
proof (induction ls arbitrary: s)
  case Nil
  then have "read_line tail = None" using read_line_loop_eof [of tail 0 NUL] by (simp add: read_line_def)
  then show ?case by (subst config_lines.simps) simp
next
  case (Cons l ls)
  then have "config_lines env (concat (map (\<lambda>l. l @ [NEWLINE]) ls) @ tail) =
      (\<lambda>s :: ('fs, 'z) shell_scheme. foldl (\<lambda>m l. obind m (config_line env l)) (Ret s) ls)"
    by (intro ext) simp
  with Cons.prems have "config_lines env (concat (map (\<lambda>l. l @ [NEWLINE]) (l # ls)) @ tail) s =
      obind (config_line env l s) (\<lambda>s. foldl (\<lambda>m l. obind m (config_line env l)) (Ret s) ls)"
    using config_lines_Cons [of l env "concat (map (\<lambda>l. l @ [NEWLINE]) ls) @ tail" s] by simp
  then show ?case by (cases "config_line env l s") simp_all
qed

text \<open>
  C36. The configuration file. Its lines are obeyed in order; text behind the last newline is ignored, so a
  last line without one has no effect. A line with the key \<open>ip\<close> sets the address of the console to its
  value without the white space around it, and overflows the array of 16 characters if it is longer than
  an address in dotted form can be; \<open>log\<close> without a value, meant to log to the terminal, passes \<open>stdout\<close>
  where a string is expected.
\<close>

theorem config_file_settings:
  assumes "\<forall>l \<in> set ls. NEWLINE \<notin> set l \<and> NUL \<notin> set l \<and> length l < MAXPATHLEN"
    and "NEWLINE \<notin> set tail" and "length tail < MAXPATHLEN"
    and "\<forall>c \<in> set p \<union> set q. env_whitespace env c"
    and "v \<noteq> ''''" and "\<not> env_whitespace env (hd v)" and "\<not> env_whitespace env (last v)"
  shows "config_lines env (concat (map (\<lambda>l. l @ [NEWLINE]) ls) @ tail) s =
       foldl (\<lambda>m l. obind m (config_line env l)) (Ret s) ls
   \<and> config_line env (setting_line ''ip'' t (p @ v @ q)) s =
       (if length v < 16 then Ret (s\<lparr>dst_ip := v\<rparr>) else Crash)
   \<and> config_line env (setting_line ''bind'' t (p @ v @ q)) s =
       (if length v < 16 then Ret (s\<lparr>src_ip := v\<rparr>) else Crash)
   \<and> config_line env (setting_line ''log'' t (p @ q)) s = Crash"
proof (intro conjI)
  have key: "is_key ''ip''" "is_key ''bind''" "is_key ''log''" by (simp_all add: is_key_def)
  have v: "stripwhite (env_whitespace env) (p @ v @ q) = v" "stripwhite (env_whitespace env) (p @ q) = ''''"
    using stripwhite_value [OF assms(4), of v] stripwhite_value [OF assms(4), of "''''"] assms(5-7) by simp_all
  show "config_lines env (concat (map (\<lambda>l. l @ [NEWLINE]) ls) @ tail) s =
       foldl (\<lambda>m l. obind m (config_line env l)) (Ret s) ls"
    using assms(1-3) by (rule config_lines_all)
  show "config_line env (setting_line ''ip'' t (p @ v @ q)) s =
       (if length v < 16 then Ret (s\<lparr>dst_ip := v\<rparr>) else Crash)"
    using setting_line_parts [OF key(1)] v by (simp add: config_line_def oguard_def)
  show "config_line env (setting_line ''bind'' t (p @ v @ q)) s =
       (if length v < 16 then Ret (s\<lparr>src_ip := v\<rparr>) else Crash)"
    using setting_line_parts [OF key(2)] v assms(5) by (simp add: config_line_def oguard_def)
  show "config_line env (setting_line ''log'' t (p @ q)) s = Crash"
    using setting_line_parts [OF key(3)] v by (simp add: config_line_def)
qed

theorem config_file_settings_witness:
  "config_line example_env ''ip = 10.0.0.7'' shell_example = Ret (shell_example\<lparr>dst_ip := ''10.0.0.7''\<rparr>)
   \<and> config_line example_env ''log ='' shell_example = Crash
   \<and> config_lines example_env (''#'' @ [NEWLINE] @ ''ip = 10.0.0.7'') shell_example = Ret shell_example"
  using config_file_settings [of "[''#'']" "''ip = 10.0.0.7''" "'' ''" "''''" example_env "''10.0.0.7''" shell_example 1]
    config_file_settings [of "[]" "''''" "''''" "''''" example_env "''10.0.0.7''" shell_example 1]
  by (simp add: setting_line_def config_line_def)

text \<open>\<open>help\<close> with the name of a command shows its line, and without an argument the whole table.\<close>

lemma cli_help_shows:
  "c \<in> set commands \<Longrightarrow> c_name c \<noteq> '''' \<Longrightarrow> shown (snd (cli_help (c_name c) s)) = shown s @ [help_line c]"
  "shown (snd (cli_help '''' s)) = shown s @ map help_line commands"
proof -
  assume c: "c \<in> set commands" "c_name c \<noteq> ''''"
  have none: "filter (\<lambda>d. c_name c = c_name d) cs = []" if "c_name c \<notin> c_name ` set cs" for cs
    using that by (auto simp: filter_empty_conv image_iff)
  have "filter (\<lambda>d. c_name c = c_name d) cs = [c]" if "distinct (map c_name cs)" "c \<in> set cs" for cs
    using that
  proof (induction cs)
    case (Cons d cs)
    then show ?case using none [of cs] by (cases "c = d") (auto, metis image_eqI)
  qed simp
  from this [OF commands_distinct c(1)] c(2) show "shown (snd (cli_help (c_name c) s)) = shown s @ [help_line c]"
    by (simp add: cli_help_def)
next
  have "commands \<noteq> []" by (simp add: commands_def)
  then show "shown (snd (cli_help '''' s)) = shown s @ map help_line commands" by (simp add: cli_help_def)
qed

end
