(* ===== verification/Mainloop.thy ===== *)
theory Mainloop
  imports Commands
begin

text \<open>
  \<open>main\<close> of \<open>pksh.c\<close>: the start, the loop over \<open>select\<close> with the table of clients, and the end. The locals
  of the loop are the record \<open>poller\<close>. What \<open>select\<close>, \<open>accept\<close> and the terminal do in a round of the loop is
  an event; a run of the loop is over a list of them, and waits for ever when there are no more.
\<close>

section \<open>The loop\<close>

abbreviation (input) MAX_CLIENTS :: nat where "MAX_CLIENTS \<equiv> 10"
abbreviation (input) FD_SETSIZE :: int where "FD_SETSIZE \<equiv> 1024"

record poller =
  client :: "int list"
  maxi :: int
  maxfd :: int
  master_set :: "int set"

text \<open>
  \<open>rl_callback_read_char\<close> takes a character of the line, runs the function bound to a key, or hands a
  line to \<open>cli_handler\<close>, in a buffer of the given size.
\<close>

datatype keyboard = Typed | Meta char | Entered nat

text \<open>
  A round in which \<open>select\<close> found descriptors: these, what happens if the terminal is read, the descriptor
  \<open>accept\<close> returns, and the line being edited.
\<close>

record ready =
  rd_set :: "int list"
  rd_key :: keyboard
  rd_accept :: int
  rd_line :: string

text \<open>A failing \<open>select\<close> leaves in \<open>readset\<close> what it leaves there: the argument is whether 0 is in it.\<close>

datatype event = Select_failed bool | Select_none | Select_ready ready

text \<open>The keys of \<open>initialize_readline\<close>.\<close>

definition bound_key :: "char \<Rightarrow> cli option" where
  "bound_key c =
     (if c = CHR ''p'' then Some Cli_pwd else if c = CHR ''q'' then Some Cli_quit
      else if c = CHR ''r'' then Some Cli_reset else if c = CHR ''s'' then Some Cli_status
      else if c = CHR ''v'' then Some Cli_verbose else None)"

definition read_char :: "'fs env \<Rightarrow> keyboard \<Rightarrow> 'fs shell \<Rightarrow> 'fs shell outcome" where
  "read_char env key s =
     (case key of
        Typed \<Rightarrow> Ret s
      | Meta c \<Rightarrow> (case bound_key c of None \<Rightarrow> Ret s | Some f \<Rightarrow> omap snd (run_func env f 0 '''' s))
      | Entered cap \<Rightarrow> cli_handler env cap s)"

text \<open>The place for a new client: \<open>for (j = 0; i < FD_SETSIZE; j++)\<close> tests the wrong variable.\<close>

fun free_slot :: "int list \<Rightarrow> nat option" where
  "free_slot [] = None"
| "free_slot (c # cs) = (if c < 0 then Some 0 else map_option Suc (free_slot cs))"

definition accept_client :: "int \<Rightarrow> poller \<Rightarrow> poller outcome" where
  "accept_client connfd p =
     obind (of_option (free_slot (client p))) (\<lambda>j.
     oguard (0 \<le> connfd \<and> connfd < FD_SETSIZE)
       (Ret (p\<lparr>client := (client p)[j := connfd], master_set := insert connfd (master_set p),
          maxfd := max (maxfd p) connfd, maxi := max (maxi p) (int j)\<rparr>)))"

definition drop_client :: "nat \<Rightarrow> poller \<Rightarrow> poller" where
  "drop_client i p = p\<lparr>client := (client p)[i := -1], master_set := master_set p - {client p ! i}, maxi := maxi p - 1\<rparr>"

text \<open>The body of the loop over the table. \<open>nready\<close> is never set, and what it decides makes no difference.\<close>

definition serve_client ::
  "'fs env \<Rightarrow> ready \<Rightarrow> nat \<Rightarrow> poller \<times> 'fs shell \<Rightarrow> (poller \<times> 'fs shell) outcome" where
  "serve_client env rd i ps =
     (let (p, s) = ps; sockfd = client p ! i in
      if sockfd < 0 then Ret (p, s)
      else if sockfd \<notin> set (rd_set rd) then Ret (p, s)
      else if sockfd = log_fd s then omap (\<lambda>(r, s). (p, s)) (pko_log_read env sockfd s)
      else if sockfd = 0 then omap (Pair p) (read_char env (rd_key rd) s)
      else if sockfd = pko_srv_fd s then omap (\<lambda>(r, s). (p, s)) (pko_srv_read env sockfd s)
      else if sockfd = pksh_srv_fd s then omap (\<lambda>p. (p, s)) (accept_client (rd_accept rd) p)
      else
        obind (pko_srv_read env sockfd s) (\<lambda>(r, s).
        if r < 0 then Ret (drop_client i p, close_fd sockfd s) else Ret (p, s)))"

text \<open>\<open>for (i = 0; i <= maxi; i++)\<close>, where \<open>maxi\<close> may change in the loop; \<open>client\<close> has ten elements.\<close>

function serve_clients ::
  "'fs env \<Rightarrow> ready \<Rightarrow> nat \<Rightarrow> poller \<times> 'fs shell \<Rightarrow> (poller \<times> 'fs shell) outcome" where
  "serve_clients env rd i ps =
     (if int i \<le> maxi (fst ps) then
        if i < MAX_CLIENTS then obind (serve_client env rd i ps) (serve_clients env rd (Suc i)) else Crash
      else Ret ps)"
  by pat_completeness auto
termination by (relation "measure (\<lambda>(env, rd, i, ps). MAX_CLIENTS - i)") auto

declare serve_clients.simps [simp del]

definition turn :: "'fs env \<Rightarrow> ready \<Rightarrow> poller \<times> 'fs shell \<Rightarrow> (poller \<times> 'fs shell) outcome" where
  "turn env rd ps = serve_clients (env\<lparr>env_line := rd_line rd\<rparr>) rd 0 ps"

fun main_loop :: "'fs env \<Rightarrow> event list \<Rightarrow> poller \<times> 'fs shell \<Rightarrow> (poller \<times> 'fs shell) outcome" where
  "main_loop env [] ps = (if doloop (snd ps) = 0 then Ret ps else Hang)"
| "main_loop env (e # evs) ps =
     (if doloop (snd ps) = 0 then Ret ps
      else case e of
        Select_failed isset \<Rightarrow> if isset then main_loop env evs ps else Ret ps
      | Select_none \<Rightarrow> main_loop env evs ps
      | Select_ready rd \<Rightarrow> obind (turn env rd ps) (main_loop env evs))"

section \<open>Start and end\<close>

text \<open>Where the console is told to dump exceptions to.\<close>

definition exception_request :: "'fs shell \<Rightarrow> int \<times> 'fs shell" where
  "exception_request s =
     (if DUMPSCREEN s \<noteq> 0 then pko_dump2screen_req (cmd_fd s) s else pko_dump2pc_req (cmd_fd s) s)"

text \<open>The part of \<open>main\<close> in front of the loop; without a table when it returns 1.\<close>

definition pksh_start :: "'fs env \<Rightarrow> string list \<Rightarrow> 'fs shell \<Rightarrow> (poller option \<times> 'fs shell) outcome" where
  "pksh_start env argv s =
     obind (read_config env (s\<lparr>VERBOSE := 0\<rparr>)) (\<lambda>s.
     obind (if length argv = 2 then oguard (length (argv ! 1) < 16) (Ret (s\<lparr>dst_ip := argv ! 1\<rparr>)) else Ret s) (\<lambda>s.
     let (fd, s) = cmd_listener (env_net env) (dst_ip s) SRV_PORT 60 s; s = s\<lparr>pko_srv_fd := fd\<rparr> in
     if fd < 0 then Ret (None, s)
     else
       let (fd, s) = ps2netfs_open (env_net env) (dst_ip s) PS2NETFS_LISTEN_PORT 2 s;
           s = cmd_con env (s\<lparr>ps2_netfs_fd := fd\<rparr>);
           (r, s) = exception_request s;
           (fd, s) = log_listener (env_net env) (src_ip s) LOG_PORT s; s = s\<lparr>log_fd := fd\<rparr> in
       if fd < 0 then Ret (None, s)
       else
         let (fd, s) = pko_srv_setup (env_net env) (src_ip s) SRV_PORT s; s = s\<lparr>pksh_srv_fd := fd\<rparr> in
         if fd < 0 then Ret (None, s)
         else
           oguard (pko_srv_fd s < FD_SETSIZE \<and> log_fd s < FD_SETSIZE \<and> pksh_srv_fd s < FD_SETSIZE)
             (Ret (Some \<lparr>client = [0, pko_srv_fd s, log_fd s, pksh_srv_fd s] @ replicate 6 (-1), maxi = 3,
                maxfd = pksh_srv_fd s, master_set = {0, pko_srv_fd s, log_fd s, pksh_srv_fd s}\<rparr>, s))))"

text \<open>The part behind the loop. The connections of clients and the command server stay open.\<close>

definition pksh_end :: "'fs env \<Rightarrow> 'fs shell \<Rightarrow> 'fs shell" where
  "pksh_end env s =
     (let s = close_fd (log_fd s) (close_fd (pko_srv_fd s) s);
          s = (if log_to_file s \<noteq> 0 then snd (on_host (\<lambda>fs. os_close (env_os env) fs (log_f_fd s)) s) else s)
      in if ps2_netfs_fd s > 0 then close_fd (ps2_netfs_fd s) s else s)"

definition pksh_main :: "'fs env \<Rightarrow> string list \<Rightarrow> event list \<Rightarrow> 'fs shell \<Rightarrow> (int \<times> 'fs shell) outcome" where
  "pksh_main env argv evs s =
     obind (pksh_start env argv s) (\<lambda>(p, s).
     case p of
       None \<Rightarrow> Ret (1, s)
     | Some p \<Rightarrow> omap (\<lambda>(p, s). (0, pksh_end env s)) (main_loop env evs (p, s)))"

section \<open>The table of clients\<close>

text \<open>A shell whose arrays have their sizes and whose strings fit their arrays.\<close>

definition wf_shell :: "('fs, 'z) shell_scheme \<Rightarrow> bool" where
  "wf_shell s \<longleftrightarrow> wf_link s \<and> length (log_buf s) = 1024 \<and> length (dst_ip s) < 16 \<and> length (src_ip s) < 16 \<and>
     length (pksh_history s) < MAXPATHLEN"

lemma wf_shell_keeps: "shell_keeps s s' \<Longrightarrow> wf_shell s \<Longrightarrow> wf_shell s'"
  by (auto simp: shell_keeps_def wf_shell_def)

text \<open>
  The table: its size, the range of \<open>maxi\<close>, no descriptor twice, and every descriptor in it is one that
  \<open>select\<close> looks at.
\<close>

definition wf_table :: "poller \<Rightarrow> bool" where
  "wf_table p \<longleftrightarrow> length (client p) = MAX_CLIENTS \<and> -1 \<le> maxi p \<and> maxi p < int MAX_CLIENTS
     \<and> (\<forall>i < MAX_CLIENTS. \<forall>j < MAX_CLIENTS. 0 \<le> client p ! i \<longrightarrow> client p ! i = client p ! j \<longrightarrow> i = j)
     \<and> (\<forall>c \<in> set (client p). 0 \<le> c \<longrightarrow> c \<in> master_set p \<and> c \<le> maxfd p)"

lemma free_slot_Some: "free_slot cs = Some j \<Longrightarrow> j < length cs \<and> cs ! j < 0 \<and> (\<forall>k < j. 0 \<le> cs ! k)"
  by (induction cs arbitrary: j) (auto simp: nth_Cons' less_Suc_eq_0_disj split: if_splits)

lemma free_slot_None: "free_slot cs = None \<longleftrightarrow> (\<forall>c \<in> set cs. 0 \<le> c)"
  by (induction cs) auto

lemma wf_table_accept:
  assumes "accept_client connfd p = Ret p'" and "wf_table p" and "connfd \<notin> set (client p)"
  shows "wf_table p'"
proof -
  obtain j where j: "free_slot (client p) = Some j" and fd: "0 \<le> connfd"
    and p': "p' = p\<lparr>client := (client p)[j := connfd], master_set := insert connfd (master_set p),
      maxfd := max (maxfd p) connfd, maxi := max (maxi p) (int j)\<rparr>"
    using assms(1) by (auto simp: accept_client_def outcome_dests)
  have len: "length (client p) = MAX_CLIENTS" using assms(2) by (simp add: wf_table_def)
  have slot: "j < MAX_CLIENTS" "client p ! j < 0" using free_slot_Some [OF j] len by auto
  have fresh: "client p ! k \<noteq> connfd" if "k < MAX_CLIENTS" for k using assms(3) that len by (metis nth_mem)
  have "c \<in> master_set p' \<and> c \<le> maxfd p'" if "c \<in> set (client p')" "0 \<le> c" for c
    using that assms(2) set_update_subset_insert [of "client p" j connfd]
    by (fastforce simp: p' wf_table_def le_max_iff_disj)
  then show ?thesis
    using assms(2) slot fresh len by (auto simp: wf_table_def p' nth_list_update split: if_splits)
qed

lemma wf_table_drop:
  assumes "wf_table p" and "i < MAX_CLIENTS" and "0 \<le> client p ! i" and "int i \<le> maxi p"
  shows "wf_table (drop_client i p)"
proof -
  let ?cs = "(client p)[i := -1]"
  have len: "length (client p) = MAX_CLIENTS" using assms(1) by (simp add: wf_table_def)
  have "c \<in> master_set p - {client p ! i} \<and> c \<le> maxfd p" if c: "c \<in> set ?cs" "0 \<le> c" for c
  proof -
    obtain k where k: "k < MAX_CLIENTS" "?cs ! k = c" using c(1) len by (auto simp: in_set_conv_nth)
    then have "k \<noteq> i" using c(2) len assms(2) by auto
    then have "client p ! k = c" using k by simp
    then have "c \<in> set (client p)" "c \<noteq> client p ! i"
      using k(1) len \<open>k \<noteq> i\<close> assms(1-3) by (auto simp: wf_table_def)
    then show ?thesis using assms(1) c(2) by (auto simp: wf_table_def)
  qed
  moreover have "\<forall>k < MAX_CLIENTS. \<forall>j < MAX_CLIENTS. 0 \<le> ?cs ! k \<longrightarrow> ?cs ! k = ?cs ! j \<longrightarrow> k = j"
    using assms(1,2) len by (auto simp: wf_table_def nth_list_update split: if_splits)
  ultimately show ?thesis using assms(1,4) by (simp add: wf_table_def drop_client_def)
qed

lemma wf_table_distinct:
  "wf_table p \<Longrightarrow> i < MAX_CLIENTS \<Longrightarrow> j < MAX_CLIENTS \<Longrightarrow> 0 \<le> client p ! i \<Longrightarrow> client p ! i = client p ! j \<Longrightarrow> i = j"
  unfolding wf_table_def by blast

section \<open>A turn of the loop\<close>

lemma read_char_keeps: "read_char env key s = Ret s' \<Longrightarrow> shell_keeps s s'"
  by (auto simp: read_char_def outcome_dests split: keyboard.splits option.splits
      dest: run_func_keeps cli_handler_keeps)

text \<open>
  What one call of a handler does to the table: nothing, or it adds the accepted connection, or it drops a
  client whose connection ended.
\<close>

lemma serve_client_cases:
  assumes "serve_client env rd i (p, s) = Ret (p', s')" and "wf_link s"
  obtains (same) "p' = p" "shell_keeps s s'"
  | (accepted) "accept_client (rd_accept rd) p = Ret p'" "s' = s" "0 \<le> client p ! i" "client p ! i = pksh_srv_fd s"
  | (dropped) "p' = drop_client i p" "shell_keeps s s'" "0 \<le> client p ! i" "client p ! i \<noteq> pksh_srv_fd s"
      "client p ! i \<noteq> log_fd s" "client p ! i \<noteq> 0" "client p ! i \<noteq> pko_srv_fd s" "client p ! i \<in> set (rd_set rd)"
proof -
  define fd where "fd = client p ! i"
  note run = assms(1) [unfolded serve_client_def Let_def split fd_def [symmetric]]
  consider (idle) "fd < 0 \<or> fd \<notin> set (rd_set rd)"
    | (log) "0 \<le> fd" "fd \<in> set (rd_set rd)" "fd = log_fd s"
    | (terminal) "0 \<le> fd" "fd \<in> set (rd_set rd)" "fd \<noteq> log_fd s" "fd = 0"
    | (console) "0 \<le> fd" "fd \<in> set (rd_set rd)" "fd \<noteq> log_fd s" "fd \<noteq> 0" "fd = pko_srv_fd s"
    | (accept) "0 \<le> fd" "fd \<in> set (rd_set rd)" "fd \<noteq> log_fd s" "fd \<noteq> 0" "fd \<noteq> pko_srv_fd s" "fd = pksh_srv_fd s"
    | (client) "0 \<le> fd" "fd \<in> set (rd_set rd)" "fd \<noteq> log_fd s" "fd \<noteq> 0" "fd \<noteq> pko_srv_fd s" "fd \<noteq> pksh_srv_fd s"
    by linarith
  then show thesis
  proof cases
    case idle
    with run same show thesis by (auto split: if_splits)
  next
    case log
    with run same show thesis by (auto simp: outcome_dests dest: pko_log_read_keeps)
  next
    case terminal
    with run same show thesis by (auto simp: outcome_dests dest: read_char_keeps)
  next
    case console
    with run same show thesis by (auto simp: outcome_dests dest: pko_srv_read_keeps [OF _ assms(2)])
  next
    case accept
    with run accepted show thesis by (auto simp: outcome_dests fd_def)
  next
    case client
    with run obtain r s1 where r: "pko_srv_read env fd s = Ret (r, s1)"
      "(if r < 0 then Ret (drop_client i p, close_fd fd s1) else Ret (p, s1)) = Ret (p', s')"
      by (auto simp: outcome_dests)
    have "shell_keeps s s1" by (rule pko_srv_read_keeps [OF r(1) assms(2)])
    with r(2) client same dropped show thesis by (auto simp: fd_def keeps_close split: if_splits)
  qed
qed

text \<open>
  \<open>accept\<close> returns a descriptor that is not in use; it is called at most once in a turn, because the command
  server has one place in the table.
\<close>

definition turn_inv :: "ready \<Rightarrow> nat \<Rightarrow> poller \<times> 'fs shell \<Rightarrow> bool" where
  "turn_inv rd i ps \<longleftrightarrow> wf_table (fst ps) \<and> wf_shell (snd ps) \<and>
     (rd_accept rd < 0 \<or> rd_accept rd \<notin> set (client (fst ps)) \<or>
      (\<exists>j < i. j < MAX_CLIENTS \<and> client (fst ps) ! j = pksh_srv_fd (snd ps)))"

lemma serve_client_inv:
  assumes "serve_client env rd i (p, s) = Ret (p', s')" and "turn_inv rd i (p, s)"
    and "i < MAX_CLIENTS" and "int i \<le> maxi p"
  shows "turn_inv rd (Suc i) (p', s')"
proof -
  have wf: "wf_table p" "wf_shell s" "wf_link s" using assms(2) by (simp_all add: turn_inv_def wf_shell_def)
  have len: "length (client p) = MAX_CLIENTS" using wf(1) by (simp add: wf_table_def)
  have srv: "pksh_srv_fd s' = pksh_srv_fd s" if "shell_keeps s s'" using that by (simp add: shell_keeps_def)
  show ?thesis
    using assms(1) wf(3)
  proof (cases rule: serve_client_cases)
    case same
    then show ?thesis using assms(2) wf_shell_keeps srv by (auto simp: turn_inv_def less_Suc_eq)
  next
    case accepted
    have fresh: "rd_accept rd < 0 \<or> rd_accept rd \<notin> set (client p)"
    proof -
      have "client p ! j \<noteq> pksh_srv_fd s" if "j < i" for j
        using wf_table_distinct [OF wf(1), of i j] accepted(3,4) assms(3) that by auto
      then show ?thesis using assms(2) by (auto simp: turn_inv_def)
    qed
    moreover have "0 \<le> rd_accept rd" using accepted(1) by (auto simp: accept_client_def outcome_dests)
    ultimately have "wf_table p'" using wf_table_accept [OF accepted(1) wf(1)] by simp
    moreover obtain j where "free_slot (client p) = Some j" "client p' = (client p)[j := rd_accept rd]"
      using accepted(1) by (auto simp: accept_client_def outcome_dests)
    then have "client p' ! i = pksh_srv_fd s"
      using free_slot_Some [of "client p" j] accepted(3,4) by (metis nth_list_update_neq not_less)
    ultimately show ?thesis using accepted(2) wf(2) assms(3) by (auto simp: turn_inv_def)
  next
    case dropped
    have "wf_table p'" using wf_table_drop [OF wf(1) assms(3) dropped(3) assms(4)] dropped(1) by simp
    moreover have "rd_accept rd < 0 \<or> rd_accept rd \<notin> set (client p') \<or>
        (\<exists>j < Suc i. j < MAX_CLIENTS \<and> client p' ! j = pksh_srv_fd s')"
    proof -
      have "set (client p') \<subseteq> insert (-1) (set (client p))"
        using set_update_subset_insert by (simp add: dropped(1) drop_client_def)
      moreover have "client p' ! j = client p ! j" if "j < i" for j
        using that by (simp add: dropped(1) drop_client_def)
      ultimately show ?thesis
        using assms(2) srv [OF dropped(2)] by (fastforce simp: turn_inv_def)
    qed
    ultimately show ?thesis using wf_shell_keeps [OF dropped(2) wf(2)] by (simp add: turn_inv_def)
  qed
qed

lemma serve_clients_inv:
  "serve_clients env rd i ps = Ret ps' \<Longrightarrow> turn_inv rd i ps \<Longrightarrow> wf_table (fst ps') \<and> wf_shell (snd ps')"
proof (induction env rd i ps rule: serve_clients.induct)
  case (1 env rd i ps)
  show ?case
  proof (cases "int i \<le> maxi (fst ps)")
    case True
    with "1.prems" obtain ps1 where i: "i < MAX_CLIENTS" and ps1: "serve_client env rd i ps = Ret ps1"
      "serve_clients env rd (Suc i) ps1 = Ret ps'"
      by (subst (asm) serve_clients.simps) (auto simp: obind_Ret_iff split: if_splits)
    have "turn_inv rd (Suc i) ps1"
      using serve_client_inv [of env rd i "fst ps" "snd ps" "fst ps1" "snd ps1"] ps1 "1.prems"(2) True i by simp
    then show ?thesis using "1.IH" [OF True i ps1] by blast
  next
    case False
    with "1.prems" show ?thesis by (subst (asm) serve_clients.simps) (simp add: turn_inv_def)
  qed
qed

text \<open>With such an \<open>accept\<close> a turn keeps the table free of doubles.\<close>

lemma turn_keeps_table:
  "turn env rd (p, s) = Ret ps' \<Longrightarrow> wf_table p \<Longrightarrow> wf_shell s \<Longrightarrow> rd_accept rd < 0 \<or> rd_accept rd \<notin> set (client p) \<Longrightarrow>
     wf_table (fst ps') \<and> wf_shell (snd ps')"
  by (auto simp: turn_def turn_inv_def dest!: serve_clients_inv)

section \<open>The runs of the shell\<close>

text \<open>
  A turn of the loop as a step, whatever \<open>accept\<close> returns. That may be a descriptor the table has: after a
  reconnection the closed one of the console is still in its place, and is free for the next connection.
\<close>

inductive server_step :: "'fs env \<Rightarrow> poller \<times> 'fs shell \<Rightarrow> poller \<times> 'fs shell \<Rightarrow> bool" for env where
  turn: "doloop s \<noteq> 0 \<Longrightarrow> turn env rd (p, s) = Ret ps' \<Longrightarrow> server_step env (p, s) ps'"

inductive_cases server_stepE [elim]: "server_step env (p, s) ps'"

abbreviation server_runs :: "'fs env \<Rightarrow> poller \<times> 'fs shell \<Rightarrow> poller \<times> 'fs shell \<Rightarrow> bool" where
  "server_runs env \<equiv> (server_step env)\<^sup>*\<^sup>*"

text \<open>
  What holds of the table in every run: its size, the range of \<open>maxi\<close>, all descriptors in the range of the
  sets of \<open>select\<close>, and none in \<open>master_set\<close> that is not in the table.
\<close>

definition wf_poller :: "poller \<Rightarrow> bool" where
  "wf_poller p \<longleftrightarrow> length (client p) = MAX_CLIENTS \<and> -1 \<le> maxi p \<and> maxi p < int MAX_CLIENTS
     \<and> (\<forall>c \<in> set (client p). c < FD_SETSIZE) \<and> (\<forall>c \<in> master_set p. 0 \<le> c \<and> c \<in> set (client p))"

text \<open>Every descriptor of the table is one that \<open>select\<close> can see.\<close>

definition below_maxfd :: "poller \<Rightarrow> bool" where
  "below_maxfd p \<longleftrightarrow> (\<forall>c \<in> set (client p). 0 \<le> c \<longrightarrow> c \<le> maxfd p)"

lemma accept_client_wf:
  assumes "accept_client connfd p = Ret p'" and "wf_poller p"
  shows "wf_poller p'" and "below_maxfd p \<Longrightarrow> below_maxfd p'"
proof -
  obtain j where j: "free_slot (client p) = Some j" and fd: "0 \<le> connfd" "connfd < FD_SETSIZE"
    and p': "p' = p\<lparr>client := (client p)[j := connfd], master_set := insert connfd (master_set p),
      maxfd := max (maxfd p) connfd, maxi := max (maxi p) (int j)\<rparr>"
    using assms(1) by (auto simp: accept_client_def outcome_dests)
  have slot: "j < MAX_CLIENTS" "client p ! j < 0" "j < length (client p)"
    using free_slot_Some [OF j] assms(2) by (auto simp: wf_poller_def)
  have cs: "set ((client p)[j := connfd]) \<subseteq> insert connfd (set (client p))" by (rule set_update_subset_insert)
  have kept: "c \<in> set ((client p)[j := connfd])" if "c \<in> set (client p)" "0 \<le> c" for c
    using that slot(2,3) by (metis in_set_conv_nth length_list_update not_le nth_list_update_neq)
  have "connfd \<in> set ((client p)[j := connfd])" using slot(3) by (rule set_update_memI)
  then show "wf_poller p'"
    using assms(2) slot(1) cs fd kept by (auto simp: wf_poller_def p')
  show "below_maxfd p \<Longrightarrow> below_maxfd p'"
    using cs by (fastforce simp: below_maxfd_def p' le_max_iff_disj)
qed

lemma drop_client_wf:
  assumes "wf_poller p" and "i < MAX_CLIENTS" and "int i \<le> maxi p"
  shows "wf_poller (drop_client i p)" and "below_maxfd p \<Longrightarrow> below_maxfd (drop_client i p)"
proof -
  have len: "length (client p) = MAX_CLIENTS" using assms(1) by (simp add: wf_poller_def)
  have cs: "set ((client p)[i := -1]) \<subseteq> insert (-1) (set (client p))" by (rule set_update_subset_insert)
  have kept: "c \<in> set ((client p)[i := -1])" if "c \<in> set (client p)" "c \<noteq> client p ! i" for c
    using that by (metis in_set_conv_nth length_list_update nth_list_update_neq)
  show "wf_poller (drop_client i p)"
    using assms len cs kept by (fastforce simp: wf_poller_def drop_client_def)
  show "below_maxfd p \<Longrightarrow> below_maxfd (drop_client i p)"
    using cs by (fastforce simp: below_maxfd_def drop_client_def)
qed

lemma serve_client_wf:
  assumes "serve_client env rd i (p, s) = Ret (p', s')" and "wf_poller p" "wf_shell s" and "i < MAX_CLIENTS" "int i \<le> maxi p"
  shows "wf_poller p' \<and> wf_shell s' \<and> (below_maxfd p \<longrightarrow> below_maxfd p')"
proof -
  have "wf_link s" using assms(3) by (simp add: wf_shell_def)
  with assms(1) show ?thesis
  proof (cases rule: serve_client_cases)
    case same
    then show ?thesis using assms(2,3) wf_shell_keeps by blast
  next
    case accepted
    then show ?thesis using accept_client_wf [OF accepted(1) assms(2)] assms(3) by simp
  next
    case dropped
    then show ?thesis using drop_client_wf [OF assms(2,4,5)] wf_shell_keeps [OF dropped(2) assms(3)] by simp
  qed
qed

lemma serve_clients_wf:
  "serve_clients env rd i ps = Ret ps' \<Longrightarrow> wf_poller (fst ps) \<Longrightarrow> wf_shell (snd ps) \<Longrightarrow>
     wf_poller (fst ps') \<and> wf_shell (snd ps') \<and> (below_maxfd (fst ps) \<longrightarrow> below_maxfd (fst ps'))"
proof (induction env rd i ps rule: serve_clients.induct)
  case (1 env rd i ps)
  show ?case
  proof (cases "int i \<le> maxi (fst ps)")
    case True
    with "1.prems" obtain ps1 where i: "i < MAX_CLIENTS" and ps1: "serve_client env rd i ps = Ret ps1"
      "serve_clients env rd (Suc i) ps1 = Ret ps'"
      by (subst (asm) serve_clients.simps) (auto simp: obind_Ret_iff split: if_splits)
    have "wf_poller (fst ps1) \<and> wf_shell (snd ps1) \<and> (below_maxfd (fst ps) \<longrightarrow> below_maxfd (fst ps1))"
      using serve_client_wf [of env rd i "fst ps" "snd ps" "fst ps1" "snd ps1"] ps1 "1.prems"(2,3) True i by simp
    then show ?thesis using "1.IH" [OF True i ps1] by blast
  next
    case False
    with "1.prems" show ?thesis by (subst (asm) serve_clients.simps) simp
  qed
qed

lemma server_runs_keep:
  "server_runs env ps ps' \<Longrightarrow> wf_poller (fst ps) \<Longrightarrow> wf_shell (snd ps) \<Longrightarrow>
     wf_poller (fst ps') \<and> wf_shell (snd ps') \<and> (below_maxfd (fst ps) \<longrightarrow> below_maxfd (fst ps'))"
proof (induction rule: rtranclp_induct)
  case (step ps1 ps2)
  from step(2) obtain rd where "turn env rd ps1 = Ret ps2" by (cases rule: server_step.cases) auto
  then show ?case using step(3-5) serve_clients_wf by (fastforce simp: turn_def)
qed simp


section \<open>The start gives such a state\<close>

lemma wf_shell_updates [simp]:
  "wf_shell (s\<lparr>VERBOSE := n\<rparr>) = wf_shell s" "wf_shell (s\<lparr>DUMPSCREEN := n\<rparr>) = wf_shell s"
  "wf_shell (s\<lparr>DEBUG := n\<rparr>) = wf_shell s" "wf_shell (s\<lparr>path_list := ps\<rparr>) = wf_shell s"
  "wf_shell (s\<lparr>rl_state := r\<rparr>) = wf_shell s" "wf_shell (s\<lparr>host := h\<rparr>) = wf_shell s"
  "wf_shell (s\<lparr>pko_srv_fd := fd\<rparr>) = wf_shell s" "wf_shell (s\<lparr>ps2_netfs_fd := fd\<rparr>) = wf_shell s"
  "wf_shell (s\<lparr>log_fd := fd\<rparr>) = wf_shell s" "wf_shell (s\<lparr>pksh_srv_fd := fd\<rparr>) = wf_shell s"
  "length ip < 16 \<Longrightarrow> wf_shell s \<Longrightarrow> wf_shell (s\<lparr>dst_ip := ip\<rparr>)"
  "length ip < 16 \<Longrightarrow> wf_shell s \<Longrightarrow> wf_shell (s\<lparr>src_ip := ip\<rparr>)"
  "length f < MAXPATHLEN \<Longrightarrow> wf_shell s \<Longrightarrow> wf_shell (s\<lparr>pksh_history := f\<rparr>)"
  by (simp_all add: wf_shell_def wf_link_def)

text \<open>An outcome that is well-formed if it returns, built along the branches of the code.\<close>

definition wf_result :: "('fs, 'z) shell_scheme outcome \<Rightarrow> bool" where
  "wf_result m \<longleftrightarrow> (\<forall>s. m = Ret s \<longrightarrow> wf_shell s)"

lemma wf_result_intros [intro]:
  "wf_shell s \<Longrightarrow> wf_result (Ret s)" "wf_result Crash"
  "(b \<Longrightarrow> wf_result m1) \<Longrightarrow> (\<not> b \<Longrightarrow> wf_result m2) \<Longrightarrow> wf_result (if b then m1 else m2)"
  "(b \<Longrightarrow> wf_result m1) \<Longrightarrow> wf_result (oguard b m1)"
  "(\<And>x. m = Ret x \<Longrightarrow> wf_result (f x)) \<Longrightarrow> wf_result (obind m f)"
  "(\<And>x. m' = Ret x \<Longrightarrow> wf_shell (g x)) \<Longrightarrow> wf_result (omap g m')"
  by (auto simp: wf_result_def outcome_dests)

lemma config_line_wf: "config_line env line s = Ret s' \<Longrightarrow> wf_shell s \<Longrightarrow> wf_shell s'"
proof -
  assume wf: "wf_shell s" and run: "config_line env line s = Ret s'"
  have "wf_result (config_line env line s)"
    unfolding config_line_def Let_def case_prod_beta
    by (intro wf_result_intros; insert wf)
       (auto simp: pko_set_debug_def pko_set_path_def pko_set_root_def on_host_def case_prod_beta
         dest!: log_cmd.keeps intro: wf_shell_keeps)
  with run show ?thesis by (simp add: wf_result_def)
qed

lemma config_lines_wf: "config_lines env chars s = Ret s' \<Longrightarrow> wf_shell s \<Longrightarrow> wf_shell s'"
proof (induction env chars s rule: config_lines.induct)
  case (1 env chars s)
  show ?case
  proof (cases "read_line chars")
    case None
    then show ?thesis using "1.prems" by (subst (asm) config_lines.simps) simp
  next
    case (Some lr)
    obtain line rest where lr: "lr = (line, rest)" by (cases lr)
    then obtain s1 where "config_line env (takeWhile (\<lambda>c. c \<noteq> NUL) line) s = Ret s1" "config_lines env rest s1 = Ret s'"
      using Some "1.prems"(1) by (subst (asm) config_lines.simps) (auto simp: obind_Ret_iff)
    then show ?thesis using "1.IH" [OF Some [unfolded lr] refl] config_line_wf "1.prems"(2) by blast
  qed
qed

lemma read_config_wf: "read_config env s = Ret s' \<Longrightarrow> wf_shell s \<Longrightarrow> wf_shell s'"
  by (auto simp: read_config_def outcome_dests Let_def split: option.splits dest: config_lines_wf)

lemma opens_setup: "pko_srv_setup net ip port s = (r, s') \<Longrightarrow> opens s s'"
  by (auto simp: pko_srv_setup_def split: prod.splits if_splits dest!: opens_on_host) (blast intro: opens_trans)+

lemma opens_log: "log_listener net ip port s = (r, s') \<Longrightarrow> opens s s'"
  by (auto simp: log_listener_def split: prod.splits dest!: opens_on_host intro: opens_trans)

lemma wf_shell_opens: "opens s s' \<Longrightarrow> wf_shell s \<Longrightarrow> wf_shell s'"
  by (rule wf_shell_keeps [OF shell_keeps_opens])

lemma exception_request_keeps: "exception_request s = (r, s') \<Longrightarrow> shell_keeps s s'"
  by (auto simp: exception_request_def stub_defs split: if_splits dest: keeps_send [OF shell_keeps_refl])

lemma pksh_start_wf:
  assumes "pksh_start env argv s = Ret (Some p, s1)" and "wf_shell s"
  shows "wf_shell s1" and "0 \<le> pko_srv_fd s1" "pko_srv_fd s1 < FD_SETSIZE" and "0 \<le> log_fd s1" "log_fd s1 < FD_SETSIZE"
    and "0 \<le> pksh_srv_fd s1" "pksh_srv_fd s1 < FD_SETSIZE"
    and "p = \<lparr>client = [0, pko_srv_fd s1, log_fd s1, pksh_srv_fd s1] @ replicate 6 (-1), maxi = 3,
      maxfd = pksh_srv_fd s1, master_set = {0, pko_srv_fd s1, log_fd s1, pksh_srv_fd s1}\<rparr>"
proof -
  obtain c1 where c1: "read_config env (s\<lparr>VERBOSE := 0\<rparr>) = Ret c1"
    using assms(1) by (auto simp: pksh_start_def obind_Ret_iff)
  obtain c2 where c2: "(if length argv = 2 then oguard (length (argv ! 1) < 16) (Ret (c1\<lparr>dst_ip := argv ! 1\<rparr>)) else Ret c1) = Ret c2"
    using assms(1) c1 by (auto simp: pksh_start_def obind_Ret_iff)
  obtain f3 c3 where c3: "cmd_listener (env_net env) (dst_ip c2) SRV_PORT 60 c2 = (f3, c3)" by fastforce
  define d3 where "d3 = c3\<lparr>pko_srv_fd := f3\<rparr>"
  obtain f4 c4 where c4: "ps2netfs_open (env_net env) (dst_ip d3) PS2NETFS_LISTEN_PORT 2 d3 = (f4, c4)" by fastforce
  define d4 where "d4 = cmd_con env (c4\<lparr>ps2_netfs_fd := f4\<rparr>)"
  obtain r5 c5 where c5: "exception_request d4 = (r5, c5)"
    by fastforce
  obtain f6 c6 where c6: "log_listener (env_net env) (src_ip c5) LOG_PORT c5 = (f6, c6)" by fastforce
  define d6 where "d6 = c6\<lparr>log_fd := f6\<rparr>"
  obtain f7 c7 where c7: "pko_srv_setup (env_net env) (src_ip d6) SRV_PORT d6 = (f7, c7)" by fastforce
  define d7 where "d7 = c7\<lparr>pksh_srv_fd := f7\<rparr>"
  note defs = d3_def [symmetric] d4_def [symmetric] d6_def [symmetric] d7_def [symmetric]
  have s1: "s1 = d7" and p: "p = \<lparr>client = [0, pko_srv_fd d7, log_fd d7, pksh_srv_fd d7] @ replicate 6 (-1), maxi = 3,
      maxfd = pksh_srv_fd d7, master_set = {0, pko_srv_fd d7, log_fd d7, pksh_srv_fd d7}\<rparr>"
    using assms(1) unfolding pksh_start_def Let_def
    by (auto simp: c1 c2 c3 c4 c5 c6 c7 defs oguard_Ret_iff simp del: replicate.simps split: if_splits)
  have "wf_shell c1" using read_config_wf [OF c1] assms(2) by simp
  then have "wf_shell c2" using c2 by (auto simp: oguard_Ret_iff split: if_splits)
  then have "wf_shell d3" using wf_shell_keeps [OF shell_keeps_listener [OF c3]] by (simp add: d3_def)
  then have "wf_shell (c4\<lparr>ps2_netfs_fd := f4\<rparr>)"
    using wf_shell_keeps [OF shell_keeps_listener [OF c4 [unfolded ps2netfs_open_def]]] by simp
  then have "wf_shell d4" unfolding d4_def by (rule wf_shell_keeps [OF shell_keeps_cmd_con])
  then have "wf_shell c5" by (rule wf_shell_keeps [OF exception_request_keeps [OF c5]])
  then have "wf_shell d6" using wf_shell_opens [OF opens_log [OF c6]] by (simp add: d6_def)
  then have "wf_shell d7" using wf_shell_opens [OF opens_setup [OF c7]] by (simp add: d7_def)
  then show "wf_shell s1" using s1 by simp
  show "p = \<lparr>client = [0, pko_srv_fd s1, log_fd s1, pksh_srv_fd s1] @ replicate 6 (-1), maxi = 3,
      maxfd = pksh_srv_fd s1, master_set = {0, pko_srv_fd s1, log_fd s1, pksh_srv_fd s1}\<rparr>" using p s1 by simp
  have "0 \<le> f3" "0 \<le> f6" "0 \<le> f7" "pko_srv_fd d7 < FD_SETSIZE" "log_fd d7 < FD_SETSIZE" "pksh_srv_fd d7 < FD_SETSIZE"
    using assms(1) unfolding pksh_start_def Let_def
    by (auto simp: c1 c2 c3 c4 c5 c6 c7 defs oguard_Ret_iff simp del: replicate.simps split: if_splits)
  moreover have "pko_srv_fd d7 = f3"
  proof -
    have "pko_srv_fd c4 = f3" using cmd_listener_cases [THEN conjunct1, OF c4 [unfolded ps2netfs_open_def]] by (simp add: opens_def d3_def)
    then have "pko_srv_fd d4 = f3" by (simp add: d4_def)
    then have "pko_srv_fd c5 = f3" using c5 by (auto simp: exception_request_def stub_defs send_fd_def split: if_splits prod.splits sum.splits)
    then have "pko_srv_fd c6 = f3" using opens_log [OF c6] by (simp add: opens_def)
    then show ?thesis using opens_setup [OF c7] by (simp add: opens_def d7_def d6_def)
  qed
  moreover have "log_fd d7 = f6" "pksh_srv_fd d7 = f7" using opens_setup [OF c7] by (simp_all add: opens_def d7_def d6_def)
  ultimately show "0 \<le> pko_srv_fd s1" "pko_srv_fd s1 < FD_SETSIZE" "0 \<le> log_fd s1" "log_fd s1 < FD_SETSIZE"
    "0 \<le> pksh_srv_fd s1" "pksh_srv_fd s1 < FD_SETSIZE" using s1 by simp_all
qed

lemma start_table:
  "0 < a \<Longrightarrow> a < b \<Longrightarrow> b < c \<Longrightarrow> wf_table \<lparr>client = [0, a, b, c] @ replicate 6 (-1), maxi = 3, maxfd = c, master_set = {0, a, b, c}\<rparr>"
  by (auto simp: wf_table_def numeral_eq_Suc All_less_Suc nth_Cons' simp del: replicate.simps)

text \<open>
  C9. From its start on the shell keeps its types, whatever \<open>select\<close>, \<open>accept\<close>, the connections and the host do: in
  every state that turns of the loop reach, the packet buffers and the buffer of the log have their sizes,
  the addresses and the name of the history file fit their arrays, the table of clients has ten places,
  with \<open>maxi\<close> inside it, every descriptor in it is in the range of the sets of \<open>select\<close>, and \<open>select\<close> is called
  with no descriptor that is not in the table. If the command server had the highest descriptor at the
  start, none in the table is ever above \<open>maxfd\<close>.
\<close>

theorem server_runs_wf:
  assumes "pksh_start env argv s = Ret (Some p, s1)" and "wf_shell s" and "server_runs env (p, s1) (p', s')"
  shows "wf_poller p' \<and> wf_shell s'
     \<and> (pko_srv_fd s1 \<le> pksh_srv_fd s1 \<and> log_fd s1 \<le> pksh_srv_fd s1 \<longrightarrow> below_maxfd p')"
proof -
  note start = pksh_start_wf [OF assms(1,2)]
  have "wf_poller p" using start by (simp add: wf_poller_def)
  moreover have "pko_srv_fd s1 \<le> pksh_srv_fd s1 \<and> log_fd s1 \<le> pksh_srv_fd s1 \<longrightarrow> below_maxfd p"
    using start by (auto simp: below_maxfd_def)
  ultimately show ?thesis using server_runs_keep [OF assms(3)] start(1) by auto
qed

lemma example_start:
  "\<exists>s1. pksh_start example_env [''pksh''] shell_example = Ret (Some \<lparr>client = [0, 7, 10, 11] @ replicate 6 (-1), maxi = 3,
     maxfd = 11, master_set = {0, 7, 10, 11}\<rparr>, s1) \<and> pko_srv_fd s1 = 7 \<and> log_fd s1 = 10 \<and> pksh_srv_fd s1 = 11 \<and>
     doloop s1 = 1"
proof -
  have "read_config example_env (shell_example\<lparr>VERBOSE := 0\<rparr>) = Ret shell_example"
    by (simp add: read_config_def example_env_def) (simp add: shell_example_def shell_init_def link.defs link_init_def)
  then show ?thesis
    by (simp add: pksh_start_def ps2netfs_open_def example_listener cmd_con_def pko_cmd_con_def on_host_def
        example_net_def cmd_listener_def cmd_done_def exception_request_def stub_defs send_fd_open
        log_listener_def pko_srv_setup_def, simp add: shell_example_def shell_init_def link.defs)
qed

lemma wf_shell_example: "wf_shell shell_example"
  using shell_example_simps(1) by (simp add: wf_shell_def, simp add: shell_example_def shell_init_def link.defs)

theorem server_runs_wf_witness:
  "\<exists>p s1. pksh_start example_env [''pksh''] shell_example = Ret (Some p, s1) \<and> wf_poller p \<and> wf_shell s1 \<and> below_maxfd p"
proof -
  obtain s1 where s1: "pksh_start example_env [''pksh''] shell_example = Ret (Some \<lparr>client = [0, 7, 10, 11] @ replicate 6 (-1),
      maxi = 3, maxfd = 11, master_set = {0, 7, 10, 11}\<rparr>, s1)" "pko_srv_fd s1 = 7" "log_fd s1 = 10" "pksh_srv_fd s1 = 11"
    using example_start by blast
  then show ?thesis
    using server_runs_wf [OF s1(1) wf_shell_example] by (intro exI conjI) auto
qed

section \<open>Clients that are not served\<close>

definition idle :: "ready \<Rightarrow> poller \<Rightarrow> nat \<Rightarrow> bool" where
  "idle rd p i \<longleftrightarrow> client p ! i < 0 \<or> client p ! i \<notin> set (rd_set rd)"

lemma serve_client_idle: "idle rd p i \<Longrightarrow> serve_client env rd i (p, s) = Ret (p, s)"
  by (auto simp: idle_def serve_client_def Let_def)

lemma serve_clients_idle:
  "maxi p < int MAX_CLIENTS \<Longrightarrow> \<forall>k \<ge> i. int k \<le> maxi p \<longrightarrow> idle rd p k \<Longrightarrow> serve_clients env rd i (p, s) = Ret (p, s)"
proof (induction "MAX_CLIENTS - i" arbitrary: i)
  case 0
  then show ?case by (subst serve_clients.simps) simp
next
  case (Suc n)
  then have "serve_clients env rd (Suc i) (p, s) = Ret (p, s)" by (intro Suc.hyps) auto
  with Suc.prems show ?case
    by (subst serve_clients.simps) (auto simp: serve_client_idle)
qed

lemma serve_clients_from:
  "maxi p < int MAX_CLIENTS \<Longrightarrow> int i \<le> maxi p \<Longrightarrow> \<forall>k < i. idle rd p k \<Longrightarrow> j \<le> i \<Longrightarrow>
     serve_clients env rd j (p, s) = serve_clients env rd i (p, s)"
proof (induction "i - j" arbitrary: j)
  case (Suc n)
  then have "serve_clients env rd (Suc j) (p, s) = serve_clients env rd i (p, s)" by (intro Suc.hyps) auto
  moreover have "idle rd p j" "int j \<le> maxi p" "j < MAX_CLIENTS" using Suc.hyps(2) Suc.prems by auto
  ultimately show ?case by (subst serve_clients.simps) (simp add: serve_client_idle)
qed simp

text \<open>A turn in which one place of the table is ready.\<close>

lemma serve_only:
  assumes wf: "wf_table p" and i: "int i \<le> maxi p" "client p ! i = fd" "0 \<le> fd" and rd: "rd_set rd = [fd]"
    and run: "serve_client (env\<lparr>env_line := rd_line rd\<rparr>) rd i (p, s) = Ret (p, s')"
  shows "turn env rd (p, s) = Ret (p, s')"
proof -
  let ?env = "env\<lparr>env_line := rd_line rd\<rparr>"
  have max: "maxi p < int MAX_CLIENTS" using wf by (simp add: wf_table_def)
  have only: "idle rd p k" if "int k \<le> maxi p" "k \<noteq> i" for k
    using wf_table_distinct [OF wf, of i k] that i rd max by (auto simp: idle_def)
  have "turn env rd (p, s) = serve_clients ?env rd i (p, s)"
    unfolding turn_def by (rule serve_clients_from) (use max i only in auto)
  also have "\<dots> = serve_clients ?env rd (Suc i) (p, s')"
    using i(1) max run by (subst serve_clients.simps) simp
  also have "\<dots> = Ret (p, s')"
    by (rule serve_clients_idle) (use max only in auto)
  finally show ?thesis .
qed

lemma serve_only_fails:
  assumes m: "m = Crash \<or> m = Hang" and wf: "wf_table p" and i: "int i \<le> maxi p" "client p ! i = fd" "0 \<le> fd" and rd: "rd_set rd = [fd]"
    and run: "serve_client (env\<lparr>env_line := rd_line rd\<rparr>) rd i (p, s) = m"
  shows "turn env rd (p, s) = m"
proof -
  let ?env = "env\<lparr>env_line := rd_line rd\<rparr>"
  have max: "maxi p < int MAX_CLIENTS" using wf by (simp add: wf_table_def)
  have only: "idle rd p k" if "int k \<le> maxi p" "k \<noteq> i" for k
    using wf_table_distinct [OF wf, of i k] that i rd max by (auto simp: idle_def)
  have "turn env rd (p, s) = serve_clients ?env rd i (p, s)"
    unfolding turn_def by (rule serve_clients_from) (use max i only in auto)
  also have "\<dots> = m"
    using i(1) max run m by (subst serve_clients.simps) auto
  finally show ?thesis .
qed

lemma serve_only_console:
  assumes wf: "wf_table p" and i: "int i \<le> maxi p" "client p ! i = fd" "0 \<le> fd" and rd: "rd_set rd = [fd]"
    and run: "serve_client (env\<lparr>env_line := rd_line rd\<rparr>) rd i (p, s) = omap (\<lambda>(v, s). (p, s)) m"
  shows "turn env rd (p, s) = omap (\<lambda>(v, s). (p, s)) m"
proof (cases m)
  case (Ret vs)
  then show ?thesis using serve_only [OF wf i rd] run by (cases vs) simp
qed (use serve_only_fails [OF _ wf i rd run] in simp_all)

text \<open>A client that is in the table behind \<open>maxi\<close> is not looked at.\<close>

lemma lost_client_idle:
  assumes wf: "wf_table p" and conn: "i < j" "int j = maxi p" and "set (rd_set rd) = {client p ! j}"
  shows "turn env rd (drop_client i p, s) = Ret (drop_client i p, s)"
proof -
  have len: "length (client p) = MAX_CLIENTS" and max: "maxi p < int MAX_CLIENTS" using wf by (simp_all add: wf_table_def)
  then have ij: "i < MAX_CLIENTS" "j < MAX_CLIENTS" using conn by simp_all
  have "idle rd (drop_client i p) k" if k: "int k \<le> maxi p - 1" for k
  proof -
    have kj: "k < MAX_CLIENTS" "k \<noteq> j" using k conn(2) max by auto
    have "client p ! k \<noteq> client p ! j" if "0 \<le> client p ! k"
      using wf_table_distinct [OF wf kj(1) ij(2) that] kj(2) by blast
    then show ?thesis using kj ij len assms(4) by (cases "k = i") (auto simp: idle_def drop_client_def)
  qed
  then show ?thesis
    unfolding turn_def by (intro serve_clients_idle) (use max in \<open>auto simp: drop_client_def\<close>)
qed

text \<open>
  C38. When the connection of a client ends, \<open>maxi\<close> is decreased whichever place the client had: if it was
  not the last one, the last client is not looked at any more, although it is still in the table. A turn in
  which only that client is ready changes nothing, so \<open>select\<close> reports it again at once, for ever.
\<close>

theorem clients_lost:
  assumes wf: "wf_table p" and conn: "i < j" "int j = maxi p" "client p ! i = fd" "0 < fd" "rd_set rd = [fd]"
    and other: "fd \<noteq> log_fd s" "fd \<noteq> pko_srv_fd s" "fd \<noteq> pksh_srv_fd s"
    and eof: "stream (rx s fd) = []" "script_end (rx s fd) = Closes"
  shows "\<exists>s'. turn env rd (p, s) = Ret (drop_client i p, s') \<and> closed s' = closed s @ [fd]
     \<and> client (drop_client i p) ! j = client p ! j
     \<and> (\<forall>rd'. set (rd_set rd') = {client p ! j} \<longrightarrow> turn env rd' (drop_client i p, s') = Ret (drop_client i p, s'))"
    (is "\<exists>s'. ?lost s'")
proof -
  have len: "length (client p) = MAX_CLIENTS" and max: "maxi p < int MAX_CLIENTS" using wf by (simp_all add: wf_table_def)
  then have ij: "i < MAX_CLIENTS" "j < MAX_CLIENTS" using conn(1,2) by simp_all
  have only: "idle rd p k" if "k < MAX_CLIENTS" "k \<noteq> i" for k
    using wf_table_distinct [OF wf ij(1) that(1)] that(2) conn(3-5) by (auto simp: idle_def)
  obtain es where "recv_into_packet fd 0 6 s = Ret (0, s\<lparr>rx := (rx s)(fd := es)\<rparr>)"
    using recv_into_packet_eof [of 6 s fd 0] eof by auto
  then have eof_run: "pko_srv_read e fd s = Ret (-1, s\<lparr>rx := (rx s)(fd := es)\<rparr>)" for e
    using other(2) by (simp add: pko_srv_read_def)
  define s' where "s' = close_fd fd (s\<lparr>rx := (rx s)(fd := es)\<rparr>)"
  have drop: "serve_client e rd i (p, s) = Ret (drop_client i p, s')" for e
    using conn other eof_run by (simp add: serve_client_def s'_def)
  have idle': "idle rd (drop_client i p) k" if "Suc i \<le> k" "k < MAX_CLIENTS" for k
    using only [of k] that by (simp add: idle_def drop_client_def)
  have "turn env rd (p, s) = Ret (drop_client i p, s')"
  proof -
    let ?env = "env\<lparr>env_line := rd_line rd\<rparr>"
    have "turn env rd (p, s) = serve_clients ?env rd i (p, s)"
      unfolding turn_def by (rule serve_clients_from) (use max conn ij only in auto)
    also have "\<dots> = serve_clients ?env rd (Suc i) (drop_client i p, s')"
      using conn(1,2) ij drop by (subst serve_clients.simps) simp
    also have "\<dots> = Ret (drop_client i p, s')"
      by (rule serve_clients_idle) (use max idle' in \<open>auto simp: drop_client_def\<close>)
    finally show ?thesis .
  qed
  moreover have "turn env rd' (drop_client i p, s') = Ret (drop_client i p, s')" if "set (rd_set rd') = {client p ! j}" for rd'
    using wf conn(1,2) that by (rule lost_client_idle)
  moreover have "client (drop_client i p) ! j = client p ! j" using conn(1) by (simp add: drop_client_def)
  moreover have "closed s' = closed s @ [fd]" by (simp add: s'_def close_fd_def)
  ultimately have "?lost s'" by blast
  then show ?thesis ..
qed

text \<open>A table with two clients, on the descriptors 12 and 13.\<close>

definition two_clients :: poller where
  "two_clients = \<lparr>client = [0, 4, 8, 9, 12, 13, -1, -1, -1, -1], maxi = 5, maxfd = 13, master_set = {0, 4, 8, 9, 12, 13}\<rparr>"

lemma wf_two_clients: "wf_table two_clients" "wf_poller two_clients"
  by (auto simp: wf_table_def wf_poller_def two_clients_def numeral_eq_Suc All_less_Suc nth_Cons')

theorem clients_lost_witness:
  "\<exists>s'. turn example_env \<lparr>rd_set = [12], rd_key = Typed, rd_accept = -1, rd_line = ''''\<rparr>
      (two_clients, shell_example\<lparr>log_fd := 8, pksh_srv_fd := 9\<rparr>) = Ret (drop_client 4 two_clients, s')
    \<and> closed s' = [12]"
proof -
  let ?s = "shell_example\<lparr>log_fd := 8, pksh_srv_fd := 9\<rparr>"
  have "stream (rx ?s 12) = []" "script_end (rx ?s 12) = Closes" "closed ?s = []" by simp_all
  then show ?thesis
    using clients_lost [OF wf_two_clients(1), of 4 5 12 "\<lparr>rd_set = [12], rd_key = Typed, rd_accept = -1, rd_line = ''''\<rparr>"
        ?s example_env]
    by (auto simp: two_clients_def)
qed

text \<open>
  C14. When the console has closed its connection, the turn that notices it waits until \<open>reconnect\<close> has a new
  one, and ends with the table and the set of \<open>select\<close> as they were, so with the closed descriptor in both. The
  requests of the new connection are read only if its descriptor has the number of the old one: then a turn in
  which it is ready is \<open>pko_srv_read\<close> on it. A descriptor that was not in the table is not in the set
  \<open>select\<close> is called with, and a turn in which only it is ready does nothing.
\<close>

theorem reconnected_unwatched:
  assumes wf: "wf_table p" "wf_poller p" "wf_shell s" and conn: "int i \<le> maxi p" "client p ! i = pko_srv_fd s" "0 < pko_srv_fd s"
    and rd: "rd_set rd = [pko_srv_fd s]" "length (rd_line rd) < 256" and log: "log_fd s \<noteq> pko_srv_fd s"
    and eof: "stream (rx s (pko_srv_fd s)) = []" "script_end (rx s (pko_srv_fd s)) = Closes"
  shows "\<exists>es. case reconnect (env_net env) (dst_ip s) (away (close_fd (pko_srv_fd s) (s\<lparr>rx := (rx s)(pko_srv_fd s := es)\<rparr>))) of
       None \<Rightarrow> turn env rd (p, s) = Hang
     | Some s1 \<Rightarrow> (\<exists>s'. turn env rd (p, s) = Ret (p, s') \<and> pko_srv_fd s' = pko_srv_fd s1 \<and> 0 < pko_srv_fd s'
         \<and> pko_srv_fd s \<in> set (closed s') \<and> pko_srv_fd s \<in> master_set p \<and> ps2_netfs_fd s' = -1
         \<and> (\<forall>rd'. rd_set rd' = [pko_srv_fd s'] \<longrightarrow>
             (pko_srv_fd s' = pko_srv_fd s \<longrightarrow> turn env rd' (p, s') =
                omap (\<lambda>(v, s2). (p, s2)) (pko_srv_read (env\<lparr>env_line := rd_line rd'\<rparr>) (pko_srv_fd s') s')) \<and>
             (pko_srv_fd s' \<notin> set (client p) \<longrightarrow> pko_srv_fd s' \<notin> master_set p \<and> turn env rd' (p, s') = Ret (p, s'))))"
    (is "\<exists>es. case ?reconnect es of None \<Rightarrow> _ | Some s1 \<Rightarrow> ?again s1")
proof -
  let ?env = "env\<lparr>env_line := rd_line rd\<rparr>" and ?fd = "pko_srv_fd s"
  have max: "maxi p < int MAX_CLIENTS" and len: "length (client p) = MAX_CLIENTS" using wf(1) by (simp_all add: wf_table_def)
  have "length (env_line ?env) < 256" using rd(2) by simp
  then obtain es where read: "pko_srv_read ?env ?fd s =
      (case reconnect (env_net ?env) (dst_ip s) (away (close_fd ?fd (s\<lparr>rx := (rx s)(?fd := es)\<rparr>))) of
        None \<Rightarrow> Hang
      | Some s1 \<Rightarrow> Ret (0, (close_fd (ps2_netfs_fd s1) s1)\<lparr>ps2_netfs_fd := -1, rl_state := rl_state s\<rparr>))"
    using console_closed [OF eof refl] by blast
  let ?s0 = "away (close_fd ?fd (s\<lparr>rx := (rx s)(?fd := es)\<rparr>))"
  show ?thesis
  proof (intro exI [of _ es], cases "reconnect (env_net env) (dst_ip s) ?s0")
    case None
    then have "serve_client ?env rd i (p, s) = Hang"
      using read conn rd(1) log by (simp add: serve_client_def)
    then have "turn env rd (p, s) = Hang" using serve_only_fails [OF _ wf(1) conn(1,2) _ rd(1), of Hang] conn(3) by simp
    with None show "case reconnect (env_net env) (dst_ip s) ?s0 of None \<Rightarrow> turn env rd (p, s) = Hang | Some s1 \<Rightarrow> ?again s1"
      by simp
  next
    case (Some s1)
    define s' where "s' = (close_fd (ps2_netfs_fd s1) s1)\<lparr>ps2_netfs_fd := -1, rl_state := rl_state s\<rparr>"
    have keeps: "shell_keeps ?s0 s1" by (rule reconnect_keeps [OF Some])
    have "serve_client ?env rd i (p, s) = Ret (p, s')"
      using read Some conn rd(1) log by (simp add: serve_client_def s'_def)
    then have "turn env rd (p, s) = Ret (p, s')" using serve_only [OF wf(1) conn(1,2) _ rd(1)] conn(3) by simp
    moreover have fd': "pko_srv_fd s' = pko_srv_fd s1" "0 < pko_srv_fd s'" "ps2_netfs_fd s' = -1"
      using reconnect_attempts [OF Some] by (auto simp: s'_def close_fd_def)
    moreover have "?fd \<in> set (closed s')"
      using keeps by (auto simp: s'_def close_fd_def away_def shell_keeps_def prefix_def)
    moreover have "?fd \<in> master_set p"
      using wf(1) conn max len nth_mem [of i "client p"] by (auto simp: wf_table_def)
    moreover have "turn env rd' (p, s') =
        omap (\<lambda>(v, s2). (p, s2)) (pko_srv_read (env\<lparr>env_line := rd_line rd'\<rparr>) (pko_srv_fd s') s')"
      if rd': "rd_set rd' = [pko_srv_fd s']" and same: "pko_srv_fd s' = ?fd" for rd'
    proof -
      have "log_fd s' \<noteq> ?fd" using keeps log by (simp add: s'_def close_fd_def away_def shell_keeps_def)
      then have run: "serve_client (env\<lparr>env_line := rd_line rd'\<rparr>) rd' i (p, s') =
          omap (\<lambda>(v, s2). (p, s2)) (pko_srv_read (env\<lparr>env_line := rd_line rd'\<rparr>) (pko_srv_fd s') s')"
        using conn rd' same by (simp add: serve_client_def)
      show ?thesis
        by (rule serve_only_console [OF wf(1) conn(1,2) _ rd' [unfolded same] run]) (use conn(3) in simp)
    qed
    moreover have "turn env rd' (p, s') = Ret (p, s')"
      if "pko_srv_fd s' \<notin> set (client p)" "rd_set rd' = [pko_srv_fd s']" for rd'
      unfolding turn_def by (rule serve_clients_idle) (use that max len in \<open>auto simp: idle_def in_set_conv_nth\<close>)
    moreover have "pko_srv_fd s' \<notin> set (client p) \<Longrightarrow> pko_srv_fd s' \<notin> master_set p"
      using wf(2) by (auto simp: wf_poller_def)
    ultimately have "?again s1" by blast
    with Some show "case reconnect (env_net env) (dst_ip s) ?s0 of None \<Rightarrow> turn env rd (p, s) = Hang | Some s1 \<Rightarrow> ?again s1"
      by simp
  qed
qed

theorem reconnected_unwatched_witness:
  "\<exists>s'. turn example_env \<lparr>rd_set = [4], rd_key = Typed, rd_accept = -1, rd_line = ''''\<rparr>
      (two_clients, shell_example\<lparr>log_fd := 8\<rparr>) = Ret (two_clients, s') \<and> pko_srv_fd s' = 7
    \<and> turn example_env \<lparr>rd_set = [7], rd_key = Typed, rd_accept = -1, rd_line = ''''\<rparr> (two_clients, s') = Ret (two_clients, s')"
proof -
  let ?s = "shell_example\<lparr>log_fd := 8\<rparr>" and ?rd = "\<lparr>rd_set = [4], rd_key = Typed, rd_accept = -1, rd_line = ''''\<rparr>"
  have s: "wf_shell ?s" "pko_srv_fd ?s = 4" "log_fd ?s = 8" "stream (rx ?s 4) = []" "script_end (rx ?s 4) = Closes"
    using wf_shell_example by (simp_all add: wf_shell_def wf_link_def)
  have conn: "int 1 \<le> maxi two_clients" "client two_clients ! 1 = pko_srv_fd ?s" "0 < pko_srv_fd ?s" "rd_set ?rd = [pko_srv_fd ?s]"
    "length (rd_line ?rd) < 256" "log_fd ?s \<noteq> pko_srv_fd ?s" "stream (rx ?s (pko_srv_fd ?s)) = []"
    "script_end (rx ?s (pko_srv_fd ?s)) = Closes"
    unfolding s(2,3) using s(4,5) by (simp_all add: two_clients_def)
  obtain es where es: "case reconnect (env_net example_env) (dst_ip ?s) (away (close_fd 4 (?s\<lparr>rx := (rx ?s)(4 := es)\<rparr>))) of
       None \<Rightarrow> turn example_env ?rd (two_clients, ?s) = Hang
     | Some s1 \<Rightarrow> (\<exists>s'. turn example_env ?rd (two_clients, ?s) = Ret (two_clients, s') \<and> pko_srv_fd s' = pko_srv_fd s1
         \<and> 0 < pko_srv_fd s' \<and> 4 \<in> set (closed s') \<and> 4 \<in> master_set two_clients \<and> ps2_netfs_fd s' = -1
         \<and> (\<forall>rd'. rd_set rd' = [pko_srv_fd s'] \<longrightarrow>
             (pko_srv_fd s' = 4 \<longrightarrow> turn example_env rd' (two_clients, s') =
                omap (\<lambda>(v, s2). (two_clients, s2)) (pko_srv_read (example_env\<lparr>env_line := rd_line rd'\<rparr>) (pko_srv_fd s') s')) \<and>
             (pko_srv_fd s' \<notin> set (client two_clients) \<longrightarrow>
                pko_srv_fd s' \<notin> master_set two_clients \<and> turn example_env rd' (two_clients, s') = Ret (two_clients, s'))))"
    using reconnected_unwatched [OF wf_two_clients s(1) conn, of example_env] unfolding s(2) by (elim exE)
  have "reconnect (env_net example_env) (dst_ip ?s) (away (close_fd 4 (?s\<lparr>rx := (rx ?s)(4 := es)\<rparr>))) =
      Some ((away (close_fd 4 (?s\<lparr>rx := (rx ?s)(4 := es)\<rparr>)))\<lparr>host := 8, pko_srv_fd := 7\<rparr>)"
    by (simp add: example_reconnect away_def close_fd_def)
  then show ?thesis using es by (auto simp: two_clients_def)
qed

lemma accept_client_full:
  assumes "\<forall>c \<in> set (client p). 0 \<le> c"
  shows "accept_client connfd p = Crash"
  using assms by (simp add: accept_client_def free_slot_None [THEN iffD2])

text \<open>
  C39. A new client gets the first free place of the table, and the descriptors of \<open>select\<close> and the bounds
  are extended for it. When all ten places are taken the loop, whose condition tests the wrong variable,
  runs past the table; a failed \<open>accept\<close> is not noticed, and its result -1 is given to \<open>FD_SET\<close>.
\<close>

theorem accept_client_table:
  assumes "length (client p) = MAX_CLIENTS"
  shows "(\<forall>j < MAX_CLIENTS. client p ! j < 0 \<longrightarrow> (\<forall>k < j. 0 \<le> client p ! k) \<longrightarrow> 0 \<le> connfd \<longrightarrow> connfd < FD_SETSIZE \<longrightarrow>
      accept_client connfd p = Ret (p\<lparr>client := (client p)[j := connfd], master_set := insert connfd (master_set p),
        maxfd := max (maxfd p) connfd, maxi := max (maxi p) (int j)\<rparr>))
    \<and> ((\<forall>c \<in> set (client p). 0 \<le> c) \<or> connfd < 0 \<longrightarrow> accept_client connfd p = Crash)"
proof (intro conjI allI impI)
  fix j assume j: "j < MAX_CLIENTS" "client p ! j < 0" "\<forall>k < j. 0 \<le> client p ! k" and fd: "0 \<le> connfd" "connfd < FD_SETSIZE"
  have "free_slot (client p) \<noteq> None" using j(1,2) assms by (metis free_slot_None nth_mem not_less)
  then obtain i where i: "free_slot (client p) = Some i" by auto
  then have "i = j" using free_slot_Some [OF i] j by (metis linorder_neqE_nat not_less)
  with i fd show "accept_client connfd p = Ret (p\<lparr>client := (client p)[j := connfd], master_set := insert connfd (master_set p),
        maxfd := max (maxfd p) connfd, maxi := max (maxi p) (int j)\<rparr>)"
    by (simp add: accept_client_def)
next
  assume "(\<forall>c \<in> set (client p). 0 \<le> c) \<or> connfd < 0"
  then show "accept_client connfd p = Crash"
  proof
    assume "connfd < 0"
    then show ?thesis by (cases "free_slot (client p)") (auto simp: accept_client_def oguard_def)
  qed (rule accept_client_full)
qed

theorem accept_client_table_witness:
  "accept_client 14 two_clients = Ret (two_clients\<lparr>client := [0, 4, 8, 9, 12, 13, 14, -1, -1, -1],
      master_set := {14, 0, 4, 8, 9, 12, 13}, maxfd := 14, maxi := 6\<rparr>)
   \<and> accept_client (-1) two_clients = Crash"
proof -
  have "length (client two_clients) = MAX_CLIENTS" by (simp add: two_clients_def)
  from accept_client_table [OF this, of 14] accept_client_table [OF this, of "-1"] show ?thesis
    by (auto simp: two_clients_def numeral_eq_Suc All_less_Suc)
qed

section \<open>Answers to clients\<close>

text \<open>
  C37. A request of a client for a file is served, but the answer does not go to the client: the handlers
  answer on the connection to the console. The request is consumed and nothing is sent to the client.
\<close>

theorem client_answers_go_to_console:
  fixes s :: "('fs, 'z) shell_scheme"
  assumes "wf_link s" and "stream (rx s fd) = packet cmd body @ rest" and "6 + length body \<le> PACKET_MAXSIZE"
    and "cmd \<in> {OPEN_CMD, CLOSE_CMD, READ_CMD, WRITE_CMD, LSEEK_CMD, DOPEN_CMD, DREAD_CMD, DCLOSE_CMD}"
    and "fd \<noteq> pko_srv_fd s" and "pko_srv_read env fd s = Ret (r, s')"
  shows "r = 0 \<and> stream (rx s' fd) = rest \<and> (\<exists>ms. tx_log s' = tx_log s @ map (Pair (pko_srv_fd s)) ms)"
proof -
  obtain h :: "('fs, 'z) shell_scheme \<Rightarrow> (int \<times> ('fs, 'z) shell_scheme) outcome"
    where h: "file_command (env_os env) cmd = Some h"
    using assms(4) by (auto simp: file_command_def)
  obtain es where run: "pko_srv_read env fd s = obind (srv_switch env cmd (s\<lparr>rx := (rx s)(fd := es),
      recv_packet := poke 0 (packet cmd body) (recv_packet s)\<rparr>)) (\<lambda>s. Ret (0, s))" and es: "stream es = rest"
    using shell.serve_packet [OF assms(1-3), of env] by metis
  let ?s = "s\<lparr>rx := (rx s)(fd := es), recv_packet := poke 0 (packet cmd body) (recv_packet s)\<rparr>"
  have wf: "wf_link ?s" using assms(1,3) by (simp add: wf_link_def length_poke packet_def)
  obtain q where q: "h ?s = Ret (q, s')" "r = 0"
    using run h assms(6) by (cases "h ?s") (auto simp: srv_switch_def)
  have "serves ?s s'" by (rule file_command_handler [OF h wf q(1)])
  then show ?thesis using es assms(5) q(2) by (auto simp: serves_def)
qed

theorem client_answers_go_to_console_witness:
  "\<exists>s' ms. pko_srv_read example_env 12 (shell_example\<lparr>rx := \<lambda>_. [Arrive (packet CLOSE_CMD [0, 0, 0, 3])]\<rparr>) = Ret (0, s')
     \<and> tx_log s' = map (Pair 4) ms"
proof -
  let ?s = "shell_example\<lparr>rx := \<lambda>_. [Arrive (packet CLOSE_CMD [0, 0, 0, 3])]\<rparr>"
  have wf: "wf_link ?s" and fd: "12 \<noteq> pko_srv_fd ?s" and log: "tx_log ?s = []"
    using shell_example_simps(1) by (simp_all add: wf_link_def)
  have strm: "stream (rx ?s 12) = packet CLOSE_CMD [0, 0, 0, 3] @ []" by simp
  obtain es where run: "pko_srv_read example_env 12 ?s = obind (srv_switch example_env CLOSE_CMD (?s\<lparr>rx := (rx ?s)(12 := es),
      recv_packet := poke 0 (packet CLOSE_CMD [0, 0, 0, 3]) (recv_packet ?s)\<rparr>)) (\<lambda>s. Ret (0, s))"
    using shell.serve_packet [OF wf strm, of example_env] by auto
  obtain q s' where "pko_close_file (env_os example_env) (?s\<lparr>rx := (rx ?s)(12 := es),
      recv_packet := poke 0 (packet CLOSE_CMD [0, 0, 0, 3]) (recv_packet ?s)\<rparr>) = Ret (q, s')"
    by (simp only: pko_close_file_def Let_def case_prod_beta)
  then have ret: "pko_srv_read example_env 12 ?s = Ret (0, s')"
    using run by (simp add: srv_switch_def file_command_def)
  show ?thesis
    using client_answers_go_to_console [OF wf strm _ _ fd ret] log ret by auto
qed

section \<open>Quitting\<close>

lemma main_loop_done: "doloop s = 0 \<Longrightarrow> main_loop env evs (p, s) = Ret (p, s)"
  by (cases evs) simp_all

lemma pksh_end_closes:
  "closed (pksh_end env s) = closed s @ [pko_srv_fd s, log_fd s] @ (if 0 < ps2_netfs_fd s then [ps2_netfs_fd s] else [])"
  by (simp add: pksh_end_def close_fd_def on_host_def Let_def case_prod_beta)

lemma find_command_exit: "find_command ''exit'' = Some \<lparr>c_name = ''exit'', c_func = Cli_quit, c_doc = ''exit :: Exits pksh ( alt-q )''\<rparr>"
  using find_command_own [of "\<lparr>c_name = ''exit'', c_func = Cli_quit, c_doc = ''exit :: Exits pksh ( alt-q )''\<rparr>"]
  by (simp add: commands_def)

lemma handler_quits:
  assumes "env_line env \<in> {''quit'', ''exit''}" and "\<forall>c \<in> set (env_line env). \<not> env_whitespace env c"
  shows "cli_handler env cap s = Ret (s\<lparr>doloop := 0\<rparr>)"
proof -
  have "execute_line env cap (env_line env) s = Ret (0, s\<lparr>doloop := 0\<rparr>)"
  proof -
    have names: "''quit'' \<in> c_name ` set commands" "''exit'' \<in> c_name ` set commands"
      by (simp_all add: commands_def)
    show ?thesis
      using execute_line_run [of "''''" "''''" env "''quit''" "''''" cap s]
        execute_line_run [of "''''" "''''" env "''exit''" "''''" cap s] assms names
      by (elim insertE) (simp_all add: find_command_quit find_command_exit cli_quit_def)
  qed
  then show ?thesis using assms(1) by (auto simp: cli_handler_def)
qed

text \<open>
  C31. The key for \<open>quit\<close>, and the commands \<open>quit\<close> and \<open>exit\<close>, end the loop with the turn in which they are
  given: nothing that would happen later is looked at, and \<open>main\<close> closes the connections to the console, the
  log and the console's files. The command server and the connections of its clients are not closed.
\<close>

theorem quit_ends_loop:
  assumes wf: "wf_table p" "client p ! 0 = 0" "0 \<le> maxi p" and sock: "log_fd s \<noteq> 0" "doloop s \<noteq> 0"
    and rd: "rd_set rd = [0]" "rd_key rd = Meta CHR ''q'' \<or>
      rd_key rd = Entered cap \<and> rd_line rd \<in> {''quit'', ''exit''} \<and> (\<forall>c \<in> set (rd_line rd). \<not> env_whitespace env c)"
  shows "main_loop env (Select_ready rd # evs) (p, s) = Ret (p, s\<lparr>doloop := 0\<rparr>)
   \<and> closed (pksh_end env (s\<lparr>doloop := 0\<rparr>)) =
       closed s @ [pko_srv_fd s, log_fd s] @ (if 0 < ps2_netfs_fd s then [ps2_netfs_fd s] else [])"
proof -
  let ?env = "env\<lparr>env_line := rd_line rd\<rparr>"
  have "read_char ?env (rd_key rd) s = Ret (s\<lparr>doloop := 0\<rparr>)"
    using rd(2) handler_quits [of ?env cap s] by (auto simp: read_char_def bound_key_def cli_quit_def)
  then have key: "serve_client ?env rd 0 (p, s) = Ret (p, s\<lparr>doloop := 0\<rparr>)"
    using wf(2) sock(1) rd(1) by (simp add: serve_client_def Let_def)
  have "turn env rd (p, s) = Ret (p, s\<lparr>doloop := 0\<rparr>)"
    by (rule serve_only [OF wf(1) _ wf(2) _ rd(1) key]) (use wf(3) in auto)
  then show ?thesis using sock(2) by (simp add: main_loop_done pksh_end_closes)
qed

theorem quit_ends_loop_witness:
  "main_loop example_env [Select_ready \<lparr>rd_set = [0], rd_key = Entered 80, rd_accept = -1, rd_line = ''exit''\<rparr>]
     (two_clients, shell_example\<lparr>log_fd := 8\<rparr>) = Ret (two_clients, shell_example\<lparr>log_fd := 8, doloop := 0\<rparr>)"
  using quit_ends_loop [OF wf_two_clients(1), of "shell_example\<lparr>log_fd := 8\<rparr>"
      "\<lparr>rd_set = [0], rd_key = Entered 80, rd_accept = -1, rd_line = ''exit''\<rparr>" 80 example_env "[]"]
  by (simp add: two_clients_def shell_example_def shell_init_def link.defs example_env_def)

end
