(* ===== verification/Usb.thy ===== *)
theory Usb
  imports Linkcore
begin

text \<open>
  \<open>pl2301.c\<close>, \<open>pl2301.h\<close>, \<open>packet.c\<close> and \<open>packet.h\<close>: packets over a USB cable between two hosts. A
  register of features (the quicklink features) tells each side what the other one does; \<open>CHECK_QLF\<close> reads
  it, \<open>SET_QLF\<close> and \<open>CLEAR_QLF\<close> change it, and a packet is two bulk transfers in between.

  What the device answers is a script: the results of the reads of the register, of the control messages
  and of the bulk reads. A call finds the script at its end waits for ever. What was done is in a log.
\<close>

section \<open>The device\<close>

abbreviation (input) PEER_E :: byte where "PEER_E \<equiv> 0x01"
abbreviation (input) TX_REQ :: byte where "TX_REQ \<equiv> 0x02"
abbreviation (input) TX_C :: byte where "TX_C \<equiv> 0x04"
abbreviation (input) TX_RDY :: byte where "TX_RDY \<equiv> 0x20"

record usb_device =
  idVendor :: u16
  idProduct :: u16

text \<open>
  What was done with the device: a value of the register that was read, a feature cleared or set, a bulk
  transfer written, and the calls that open, prepare and close it.
\<close>

datatype bus_op =
  Saw byte | Cleared byte | Made byte | Wrote "byte list"
  | Opened usb_device | Was_reset | Configured int | Claimed int | Released int | Closed

text \<open>
  \<open>polls\<close>: the value \<open>usb_bulk_read\<close> returns for the register, and the byte it stores if that is positive.
  \<open>bulk_in\<close>: the bytes a bulk read of a packet stores, none if it fails.
\<close>

record 'fs usb =
  pc :: 'fs
  polls :: "(int \<times> byte) list"
  controls :: "int list"
  bulk_in :: "byte list list"
  bus_log :: "bus_op list"

definition did :: "bus_op \<Rightarrow> ('fs, 'z) usb_scheme \<Rightarrow> ('fs, 'z) usb_scheme" where
  "did e s = s\<lparr>bus_log := bus_log s @ [e]\<rparr>"

text \<open>What the functions run on: the calls of the host, and what memory holds that was not written.\<close>

record 'fs uenv =
  uenv_os :: "'fs os"
  uenv_junk :: "byte list"
  uenv_mode :: u32
  uenv_devices :: "usb_device list list"
  uenv_room :: "nat \<Rightarrow> nat"

definition fresh :: "('fs, 'e) uenv_scheme \<Rightarrow> nat \<Rightarrow> byte list" where
  "fresh env n = take n (uenv_junk env @ replicate n 0)"

lemma length_fresh [simp]: "length (fresh env n) = n"
  by (simp add: fresh_def)

section \<open>The quicklink features\<close>

text \<open>
  The loop of \<open>CHECK_QLF\<close>: only the value -1 is tried again. Any other failure leaves \<open>blah\<close> as it was, 0.
\<close>

fun read_status :: "(int \<times> byte) list \<Rightarrow> (byte \<times> (int \<times> byte) list) option" where
  "read_status [] = None"
| "read_status ((foo, b) # ps) =
     (if foo = -1 then read_status ps else Some (if foo < 1 then 0 else b, ps))"

definition CHECK_QLF :: "byte \<Rightarrow> ('fs, 'z) usb_scheme \<Rightarrow> (byte \<times> ('fs, 'z) usb_scheme) outcome" where
  "CHECK_QLF feature s =
     (case read_status (polls s) of
        None \<Rightarrow> Hang
      | Some (blah, ps) \<Rightarrow> Ret (blah AND feature, did (Saw blah) (s\<lparr>polls := ps\<rparr>)))"

text \<open>The loops of \<open>CLEAR_QLF\<close> and \<open>SET_QLF\<close>.\<close>

fun retry :: "int list \<Rightarrow> int list option" where
  "retry [] = None"
| "retry (r # rs) = (if r < 0 then retry rs else Some rs)"

definition CLEAR_QLF :: "byte \<Rightarrow> ('fs, 'z) usb_scheme \<Rightarrow> ('fs, 'z) usb_scheme outcome" where
  "CLEAR_QLF feature s =
     (case retry (controls s) of None \<Rightarrow> Hang | Some cs \<Rightarrow> Ret (did (Cleared feature) (s\<lparr>controls := cs\<rparr>)))"

definition SET_QLF :: "byte \<Rightarrow> ('fs, 'z) usb_scheme \<Rightarrow> ('fs, 'z) usb_scheme outcome" where
  "SET_QLF feature s =
     (case retry (controls s) of None \<Rightarrow> Hang | Some cs \<Rightarrow> Ret (did (Made feature) (s\<lparr>controls := cs\<rparr>)))"

section \<open>Waiting\<close>

lemma read_status_shorter: "read_status ps = Some (b, ps') \<Longrightarrow> length ps' < length ps"
  by (induction ps rule: read_status.induct) (auto split: if_splits)

lemma check_shorter: "CHECK_QLF f s = Ret (v, s') \<Longrightarrow> length (polls s') < length (polls s)"
  by (auto simp: CHECK_QLF_def did_def split: option.splits dest: read_status_shorter)

text \<open>\<open>while(CHECK_QLF(hnd, feature) == 0);\<close> and \<open>while(CHECK_QLF(hnd, feature));\<close>\<close>

function wait_set :: "byte \<Rightarrow> ('fs, 'z) usb_scheme \<Rightarrow> ('fs, 'z) usb_scheme outcome" where
  "wait_set feature s =
     obind (CHECK_QLF feature s) (\<lambda>(v, s). if v = 0 then wait_set feature s else Ret s)"
  by pat_completeness auto
termination by (relation "measure (\<lambda>(f, s). length (polls s))") (auto dest: check_shorter)

function wait_clear :: "byte \<Rightarrow> ('fs, 'z) usb_scheme \<Rightarrow> ('fs, 'z) usb_scheme outcome" where
  "wait_clear feature s =
     obind (CHECK_QLF feature s) (\<lambda>(v, s). if v = 0 then Ret s else wait_clear feature s)"
  by pat_completeness auto
termination by (relation "measure (\<lambda>(f, s). length (polls s))") (auto dest: check_shorter)

declare wait_set.simps [simp del] wait_clear.simps [simp del]

section \<open>Packets\<close>

record packet_header =
  ph_size :: u32
  ph_type :: u32

definition enc_header :: "packet_header \<Rightarrow> byte list" where
  "enc_header ph = le32 (ph_size ph) @ le32 (ph_type ph)"

definition dec_header :: "byte list \<Rightarrow> packet_header" where
  "dec_header bs = \<lparr>ph_size = un_le32 bs, ph_type = un_le32 (drop 4 bs)\<rparr>"

definition usb_bulk_read :: "nat \<Rightarrow> ('fs, 'z) usb_scheme \<Rightarrow> (byte list \<times> ('fs, 'z) usb_scheme) outcome" where
  "usb_bulk_read n s =
     (case bulk_in s of [] \<Rightarrow> Hang | bs # rest \<Rightarrow> Ret (take n bs, s\<lparr>bulk_in := rest\<rparr>))"

text \<open>
  The body of a packet, in a block from \<open>malloc\<close> that is as large as the header says; \<open>None\<close> is the pointer
  \<open>NULL\<close>, into which nothing can be stored.
\<close>

definition recv_data ::
  "('fs, 'e) uenv_scheme \<Rightarrow> u32 \<Rightarrow> ('fs, 'z) usb_scheme \<Rightarrow> (byte list option \<times> ('fs, 'z) usb_scheme) outcome" where
  "recv_data env n s =
     (if n \<noteq> 0 then
        omap (\<lambda>(bs, s). (if os_malloc (uenv_os env) (pc s) n then Some (poke 0 bs (fresh env (unat n))) else None, s))
          (usb_bulk_read (unat n) s)
      else Ret (None, s))"

definition usb_recv_packet ::
  "('fs, 'e) uenv_scheme \<Rightarrow> ('fs, 'z) usb_scheme \<Rightarrow>
     (packet_header \<times> byte list option \<times> ('fs, 'z) usb_scheme) outcome" where
  "usb_recv_packet env s =
     obind (wait_set TX_REQ s) (\<lambda>s.
     obind (CLEAR_QLF TX_REQ s) (\<lambda>s.
     obind (usb_bulk_read 8 s) (\<lambda>(bs, s).
     let ph = dec_header (poke 0 bs (fresh env 8)) in
     obind (recv_data env (ph_size ph) s) (\<lambda>(pb, s).
     obind (wait_set TX_C s) (\<lambda>s.
     omap (\<lambda>s. (ph, pb, s)) (CLEAR_QLF TX_C s))))))"

definition send_data :: "packet_header \<Rightarrow> byte list \<Rightarrow> ('fs, 'z) usb_scheme \<Rightarrow> ('fs, 'z) usb_scheme outcome" where
  "send_data ph pb s =
     (let s = did (Wrote (enc_header ph)) s in
      if ph_size ph \<noteq> 0 then
        oguard (unat (ph_size ph) \<le> length pb) (Ret (did (Wrote (take (unat (ph_size ph)) pb)) s))
      else Ret s)"

definition usb_send_packet ::
  "packet_header \<Rightarrow> byte list \<Rightarrow> ('fs, 'z) usb_scheme \<Rightarrow> ('fs, 'z) usb_scheme outcome" where
  "usb_send_packet ph pb s =
     obind (wait_set TX_RDY s) (\<lambda>s.
     obind (SET_QLF TX_REQ s) (\<lambda>s.
     obind (wait_clear TX_REQ s) (\<lambda>s.
     obind (send_data ph pb s) (SET_QLF TX_C))))"


section \<open>The loops and a reference\<close>

text \<open>The values that reads of the register give, without those that are tried again.\<close>

definition statuses :: "(int \<times> byte) list \<Rightarrow> byte list" where
  "statuses ps = map (\<lambda>(r, b). if r < 1 then 0 else b) (filter (\<lambda>(r, b). r \<noteq> -1) ps)"

lemma statuses_simps [simp]:
  "statuses [] = []" "statuses ((r, b) # ps) = (if r = -1 then statuses ps else (if r < 1 then 0 else b) # statuses ps)"
  by (auto simp: statuses_def)

lemma read_status_None: "read_status ps = None \<longleftrightarrow> statuses ps = []"
  by (induction ps rule: read_status.induct) auto

lemma read_status_Some: "read_status ps = Some (b, ps') \<Longrightarrow> statuses ps = b # statuses ps'"
  by (induction ps rule: read_status.induct) (auto split: if_splits)

text \<open>The values up to the first one with a property, and those behind it.\<close>

definition await :: "(byte \<Rightarrow> bool) \<Rightarrow> byte list \<Rightarrow> (byte list \<times> byte list) option" where
  "await p bs =
     (case dropWhile (\<lambda>b. \<not> p b) bs of
        [] \<Rightarrow> None
      | b # rest \<Rightarrow> Some (takeWhile (\<lambda>b. \<not> p b) bs @ [b], rest))"

lemma await_simps [simp]:
  "await p [] = None"
  "await p (b # bs) = (if p b then Some ([b], bs) else map_option (\<lambda>(seen, rest). (b # seen, rest)) (await p bs))"
  by (simp_all add: await_def split: list.splits del: dropWhile_eq_Nil_conv)

lemma await_Some:
  "await p bs = Some (seen, rest) \<Longrightarrow>
     bs = seen @ rest \<and> seen \<noteq> [] \<and> p (last seen) \<and> (\<forall>b \<in> set (butlast seen). \<not> p b)"
  by (induction bs arbitrary: seen) (auto split: if_splits)

text \<open>What is left to read of the register, and what was done, if a loop ends.\<close>

definition view :: "('fs, 'z) usb_scheme outcome \<Rightarrow> (byte list \<times> bus_op list) option" where
  "view m = (case m of Ret s \<Rightarrow> Some (statuses (polls s), bus_log s) | _ \<Rightarrow> None)"

definition waited :: "(byte \<Rightarrow> bool) \<Rightarrow> ('fs, 'z) usb_scheme \<Rightarrow> (byte list \<times> bus_op list) option" where
  "waited p s =
     map_option (\<lambda>(seen, rest). (rest, bus_log s @ map Saw seen)) (await p (statuses (polls s)))"

lemma check_cases:
  obtains (hangs) "CHECK_QLF f s = Hang" "statuses (polls s) = []"
  | (read) b ps where "CHECK_QLF f s = Ret (b AND f, s\<lparr>polls := ps, bus_log := bus_log s @ [Saw b]\<rparr>)"
      "statuses (polls s) = b # statuses ps"
proof (cases "read_status (polls s)")
  case None
  with hangs show thesis by (simp add: CHECK_QLF_def read_status_None)
next
  case (Some x)
  then obtain b ps where x: "read_status (polls s) = Some (b, ps)" by (cases x) auto
  with read show thesis using read_status_Some [OF x] by (simp add: CHECK_QLF_def did_def)
qed

lemma view_wait_set: "view (wait_set f s) = waited (\<lambda>b. b AND f \<noteq> 0) s"
proof (induction f s rule: wait_set.induct)
  case (1 f s)
  show ?case
  proof (cases rule: check_cases [of f s])
    case hangs
    then show ?thesis by (subst wait_set.simps) (simp add: view_def waited_def)
  next
    case (read b ps)
    show ?thesis
    proof (cases "b AND f = 0")
      case True
      with "1.IH" [OF read(1)] read show ?thesis
        by (subst wait_set.simps) (simp add: waited_def option.map_comp o_def split_def)
    next
      case False
      with read show ?thesis by (subst wait_set.simps) (simp add: view_def waited_def)
    qed
  qed
qed

lemma view_wait_clear: "view (wait_clear f s) = waited (\<lambda>b. b AND f = 0) s"
proof (induction f s rule: wait_clear.induct)
  case (1 f s)
  show ?case
  proof (cases rule: check_cases [of f s])
    case hangs
    then show ?thesis by (subst wait_clear.simps) (simp add: view_def waited_def)
  next
    case (read b ps)
    show ?thesis
    proof (cases "b AND f = 0")
      case False
      with "1.IH" [OF read(1)] read show ?thesis
        by (subst wait_clear.simps) (simp add: waited_def option.map_comp o_def split_def)
    next
      case True
      with read show ?thesis by (subst wait_clear.simps) (simp add: view_def waited_def)
    qed
  qed
qed

lemma check_only: "CHECK_QLF f s = Ret (v, s') \<Longrightarrow> s' = s\<lparr>polls := polls s', bus_log := bus_log s'\<rparr>"
  by (auto simp: CHECK_QLF_def did_def split: option.splits)

lemma wait_set_only: "wait_set f s = Ret s' \<Longrightarrow> s' = s\<lparr>polls := polls s', bus_log := bus_log s'\<rparr>"
proof (induction f s rule: wait_set.induct)
  case (1 f s)
  show ?case
  proof (cases rule: check_cases [of f s])
    case hangs
    with "1.prems" show ?thesis by (subst (asm) wait_set.simps) simp
  next
    case (read b ps)
    let ?t = "s\<lparr>polls := ps, bus_log := bus_log s @ [Saw b]\<rparr>"
    from "1.prems" read(1) have "(if b AND f = 0 then wait_set f ?t else Ret ?t) = Ret s'"
      by (subst (asm) wait_set.simps) simp
    then consider "s' = ?t" | "b AND f = 0" "wait_set f ?t = Ret s'" by (auto split: if_splits)
    then show ?thesis
    proof cases
      case 2
      with "1.IH" [OF read(1) refl] have "s' = ?t\<lparr>polls := polls s', bus_log := bus_log s'\<rparr>" by simp
      then show ?thesis by simp
    qed simp
  qed
qed

lemma wait_clear_only: "wait_clear f s = Ret s' \<Longrightarrow> s' = s\<lparr>polls := polls s', bus_log := bus_log s'\<rparr>"
proof (induction f s rule: wait_clear.induct)
  case (1 f s)
  show ?case
  proof (cases rule: check_cases [of f s])
    case hangs
    with "1.prems" show ?thesis by (subst (asm) wait_clear.simps) simp
  next
    case (read b ps)
    let ?t = "s\<lparr>polls := ps, bus_log := bus_log s @ [Saw b]\<rparr>"
    from "1.prems" read(1) have "(if b AND f = 0 then Ret ?t else wait_clear f ?t) = Ret s'"
      by (subst (asm) wait_clear.simps) simp
    then consider "s' = ?t" | "b AND f \<noteq> 0" "wait_clear f ?t = Ret s'" by (auto split: if_splits)
    then show ?thesis
    proof cases
      case 2
      with "1.IH" [OF read(1) refl] have "s' = ?t\<lparr>polls := polls s', bus_log := bus_log s'\<rparr>" by simp
      then show ?thesis by simp
    qed simp
  qed
qed

text \<open>
  C11. The two loops in which a side waits for the other are the reference \<open>await\<close> on the values read: they
  take the values up to the first one with the feature set, or cleared, look at each once and in order, and
  end with it; they wait for ever if there is none.
\<close>

theorem waits_as_reference:
  "view (wait_set f s) = waited (\<lambda>b. b AND f \<noteq> 0) s \<and> view (wait_clear f s) = waited (\<lambda>b. b AND f = 0) s"
  by (simp add: view_wait_set view_wait_clear)

section \<open>A packet is sent\<close>

text \<open>Values read until one with the property came.\<close>

definition settles :: "(byte \<Rightarrow> bool) \<Rightarrow> byte list \<Rightarrow> bool" where
  "settles p seen \<longleftrightarrow> seen \<noteq> [] \<and> p (last seen) \<and> (\<forall>b \<in> set (butlast seen). \<not> p b)"

lemma settles_await: "settles p seen \<Longrightarrow> await p (seen @ rest) = Some (seen, rest)"
  unfolding settles_def by (induction seen) (auto split: if_splits)

lemma view_Some: "view m = Some (bs, log) \<Longrightarrow> \<exists>s. m = Ret s \<and> statuses (polls s) = bs \<and> bus_log s = log"
  by (auto simp: view_def split: outcome.splits)

lemma wait_set_Ret:
  assumes "wait_set f s = Ret s'"
  obtains seen where "settles (\<lambda>b. b AND f \<noteq> 0) seen" "statuses (polls s) = seen @ statuses (polls s')"
    "bus_log s' = bus_log s @ map Saw seen" "controls s' = controls s" "bulk_in s' = bulk_in s" "pc s' = pc s"
proof -
  have "waited (\<lambda>b. b AND f \<noteq> 0) s = Some (statuses (polls s'), bus_log s')"
    using view_wait_set [of f s] assms by (simp add: view_def)
  then obtain seen where seen: "await (\<lambda>b. b AND f \<noteq> 0) (statuses (polls s)) = Some (seen, statuses (polls s'))"
    "bus_log s' = bus_log s @ map Saw seen" by (auto simp: waited_def)
  have "controls s' = controls s" "bulk_in s' = bulk_in s" "pc s' = pc s"
    by (subst wait_set_only [OF assms], simp)+
  with seen await_Some [OF seen(1)] show thesis by (intro that) (simp_all add: settles_def)
qed

lemma wait_clear_Ret:
  assumes "wait_clear f s = Ret s'"
  obtains seen where "settles (\<lambda>b. b AND f = 0) seen" "statuses (polls s) = seen @ statuses (polls s')"
    "bus_log s' = bus_log s @ map Saw seen" "controls s' = controls s" "bulk_in s' = bulk_in s" "pc s' = pc s"
proof -
  have "waited (\<lambda>b. b AND f = 0) s = Some (statuses (polls s'), bus_log s')"
    using view_wait_clear [of f s] assms by (simp add: view_def)
  then obtain seen where seen: "await (\<lambda>b. b AND f = 0) (statuses (polls s)) = Some (seen, statuses (polls s'))"
    "bus_log s' = bus_log s @ map Saw seen" by (auto simp: waited_def)
  have "controls s' = controls s" "bulk_in s' = bulk_in s" "pc s' = pc s"
    by (subst wait_clear_only [OF assms], simp)+
  with seen await_Some [OF seen(1)] show thesis by (intro that) (simp_all add: settles_def)
qed

lemma control_Ret:
  "CLEAR_QLF f s = Ret s' \<Longrightarrow> \<exists>cs. s' = did (Cleared f) (s\<lparr>controls := cs\<rparr>)"
  "SET_QLF f s = Ret s' \<Longrightarrow> \<exists>cs. s' = did (Made f) (s\<lparr>controls := cs\<rparr>)"
  by (auto simp: CLEAR_QLF_def SET_QLF_def split: option.splits)

text \<open>The bulk transfers of a packet.\<close>

definition transfers :: "packet_header \<Rightarrow> byte list \<Rightarrow> byte list list" where
  "transfers ph pb = enc_header ph # (if ph_size ph = 0 then [] else [take (unat (ph_size ph)) pb])"

lemma send_data_run:
  "unat (ph_size ph) \<le> length pb \<Longrightarrow>
     send_data ph pb s = Ret (s\<lparr>bus_log := bus_log s @ map Wrote (transfers ph pb)\<rparr>)"
  by (simp add: send_data_def transfers_def did_def Let_def)

lemma send_data_Ret:
  "send_data ph pb s = Ret s' \<longleftrightarrow>
     unat (ph_size ph) \<le> length pb \<and> s' = s\<lparr>bus_log := bus_log s @ map Wrote (transfers ph pb)\<rparr>"
  by (auto simp: send_data_def transfers_def did_def Let_def oguard_def)

lemma send_packet_trace:
  assumes "usb_send_packet ph pb s = Ret s'"
  shows "\<exists>ready ack. bus_log s' = bus_log s @ map Saw ready @ [Made TX_REQ] @ map Saw ack
       @ map Wrote (transfers ph pb) @ [Made TX_C]
     \<and> statuses (polls s) = ready @ ack @ statuses (polls s')
     \<and> settles (\<lambda>b. b AND TX_RDY \<noteq> 0) ready \<and> settles (\<lambda>b. b AND TX_REQ = 0) ack
     \<and> bulk_in s' = bulk_in s \<and> pc s' = pc s"
proof -
  obtain s1 s2 s3 s4 where run: "wait_set TX_RDY s = Ret s1" "SET_QLF TX_REQ s1 = Ret s2"
    "wait_clear TX_REQ s2 = Ret s3" "send_data ph pb s3 = Ret s4" "SET_QLF TX_C s4 = Ret s'"
    using assms by (auto simp: usb_send_packet_def obind_Ret_iff)
  from wait_set_Ret [OF run(1)] obtain ready where 1: "settles (\<lambda>b. b AND TX_RDY \<noteq> 0) ready"
    "statuses (polls s) = ready @ statuses (polls s1)" "bus_log s1 = bus_log s @ map Saw ready"
    "bulk_in s1 = bulk_in s" "pc s1 = pc s" .
  obtain cs where 2: "s2 = did (Made TX_REQ) (s1\<lparr>controls := cs\<rparr>)" using control_Ret(2) [OF run(2)] by blast
  from wait_clear_Ret [OF run(3)] obtain ack where 3: "settles (\<lambda>b. b AND TX_REQ = 0) ack"
    "statuses (polls s2) = ack @ statuses (polls s3)" "bus_log s3 = bus_log s2 @ map Saw ack"
    "bulk_in s3 = bulk_in s2" "pc s3 = pc s2" .
  have 4: "s4 = s3\<lparr>bus_log := bus_log s3 @ map Wrote (transfers ph pb)\<rparr>" using run(4) by (simp add: send_data_Ret)
  obtain cs' where 5: "s' = did (Made TX_C) (s4\<lparr>controls := cs'\<rparr>)" using control_Ret(2) [OF run(5)] by blast
  show ?thesis
    by (intro exI [of _ ready] exI [of _ ack]) (use 1 2 3 4 5 in \<open>simp add: did_def\<close>)
qed

text \<open>
  C19. The order of a packet that is sent: the register is read until the other side is ready, the request is
  made, the register is read until the other side took it back, and only then are header and body written,
  once each, and the packet is reported complete. Nothing else is done.
\<close>

theorem send_packet_handshake:
  assumes "usb_send_packet ph pb s = Ret s'"
  shows "\<exists>ready ack. bus_log s' = bus_log s @ map Saw ready @ [Made TX_REQ] @ map Saw ack
       @ map Wrote (transfers ph pb) @ [Made TX_C]
     \<and> statuses (polls s) = ready @ ack @ statuses (polls s')
     \<and> settles (\<lambda>b. b AND TX_RDY \<noteq> 0) ready \<and> settles (\<lambda>b. b AND TX_REQ = 0) ack
     \<and> bulk_in s' = bulk_in s \<and> pc s' = pc s"
  using assms by (rule send_packet_trace)

section \<open>It returns, and the other side receives it\<close>

text \<open>At least so many control messages are accepted.\<close>

definition accepts :: "nat \<Rightarrow> ('fs, 'z) usb_scheme \<Rightarrow> bool" where
  "accepts n s \<longleftrightarrow> n \<le> length (filter (\<lambda>r. 0 \<le> r) (controls s))"

lemma retry_Some:
  "Suc n \<le> length (filter (\<lambda>r. 0 \<le> r) rs) \<Longrightarrow> \<exists>rs'. retry rs = Some rs' \<and> n \<le> length (filter (\<lambda>r. 0 \<le> r) rs')"
  by (induction rs) (auto split: if_splits)

lemma control_accepted:
  assumes "accepts (Suc n) s"
  obtains cs where "CLEAR_QLF f s = Ret (did (Cleared f) (s\<lparr>controls := cs\<rparr>))"
    "SET_QLF f s = Ret (did (Made f) (s\<lparr>controls := cs\<rparr>))" "accepts n (s\<lparr>controls := cs\<rparr>)"
  using retry_Some [of n "controls s"] assms that by (auto simp: accepts_def CLEAR_QLF_def SET_QLF_def)

lemma wait_set_settles:
  assumes "statuses (polls s) = seen @ rest" and "settles (\<lambda>b. b AND f \<noteq> 0) seen"
  obtains ps where "wait_set f s = Ret (s\<lparr>polls := ps, bus_log := bus_log s @ map Saw seen\<rparr>)" "statuses ps = rest"
proof -
  have "view (wait_set f s) = Some (rest, bus_log s @ map Saw seen)"
    using settles_await [OF assms(2)] by (simp add: view_wait_set waited_def assms(1))
  then obtain s' where s': "wait_set f s = Ret s'" "statuses (polls s') = rest" "bus_log s' = bus_log s @ map Saw seen"
    using view_Some by blast
  with that [of "polls s'"] wait_set_only [OF s'(1)] show thesis by metis
qed

lemma wait_clear_settles:
  assumes "statuses (polls s) = seen @ rest" and "settles (\<lambda>b. b AND f = 0) seen"
  obtains ps where "wait_clear f s = Ret (s\<lparr>polls := ps, bus_log := bus_log s @ map Saw seen\<rparr>)" "statuses ps = rest"
proof -
  have "view (wait_clear f s) = Some (rest, bus_log s @ map Saw seen)"
    using settles_await [OF assms(2)] by (simp add: view_wait_clear waited_def assms(1))
  then obtain s' where s': "wait_clear f s = Ret s'" "statuses (polls s') = rest" "bus_log s' = bus_log s @ map Saw seen"
    using view_Some by blast
  with that [of "polls s'"] wait_clear_only [OF s'(1)] show thesis by metis
qed

lemma dec_enc_header [simp]: "dec_header (enc_header ph @ bs) = ph"
  by (simp add: dec_header_def enc_header_def)

lemma length_enc_header [simp]: "length (enc_header ph) = 8"
  by (simp add: enc_header_def)

lemma poke_fresh: "length bs = n \<Longrightarrow> poke 0 bs (fresh env n) = bs"
  by (simp add: poke_def)

lemma recv_transfers:
  assumes "statuses (polls t) = req @ fin @ rest"
    and "settles (\<lambda>b. b AND TX_REQ \<noteq> 0) req" and "settles (\<lambda>b. b AND TX_C \<noteq> 0) fin"
    and "accepts (Suc (Suc n)) t" and "length pb = unat (ph_size ph)" and "bulk_in t = transfers ph pb @ later"
  obtains ps cs where "usb_recv_packet env t =
      Ret (ph, if ph_size ph \<noteq> 0 \<and> os_malloc (uenv_os env) (pc t) (ph_size ph) then Some pb else None,
        t\<lparr>polls := ps, controls := cs, bulk_in := later,
          bus_log := bus_log t @ map Saw req @ [Cleared TX_REQ] @ map Saw fin @ [Cleared TX_C]\<rparr>)"
    and "statuses ps = rest" and "accepts n (t\<lparr>controls := cs\<rparr>)"
proof -
  obtain ps1 where 1: "wait_set TX_REQ t = Ret (t\<lparr>polls := ps1, bus_log := bus_log t @ map Saw req\<rparr>)"
    "statuses ps1 = fin @ rest"
    using wait_set_settles [OF assms(1,2)] .
  let ?t1 = "t\<lparr>polls := ps1, bus_log := bus_log t @ map Saw req\<rparr>"
  have acc: "accepts (Suc (Suc n)) ?t1" using assms(4) by (simp add: accepts_def)
  obtain cs1 where 2: "CLEAR_QLF TX_REQ ?t1 = Ret (did (Cleared TX_REQ) (?t1\<lparr>controls := cs1\<rparr>))"
    "accepts (Suc n) (?t1\<lparr>controls := cs1\<rparr>)"
    using control_accepted [OF acc] by metis
  let ?t3 = "(did (Cleared TX_REQ) (?t1\<lparr>controls := cs1\<rparr>))\<lparr>bulk_in := later\<rparr>"
  have data: "obind (usb_bulk_read 8 (did (Cleared TX_REQ) (?t1\<lparr>controls := cs1\<rparr>))) (\<lambda>(bs, s).
      let ph = dec_header (poke 0 bs (fresh env 8)) in obind (recv_data env (ph_size ph) s) (\<lambda>(pb, s). k ph pb s))
    = k ph (if ph_size ph \<noteq> 0 \<and> os_malloc (uenv_os env) (pc t) (ph_size ph) then Some pb else None) ?t3" for k
    using assms(5,6) dec_enc_header [of ph "[]"]
    by (simp add: usb_bulk_read_def did_def transfers_def recv_data_def poke_fresh Let_def)
  have "statuses (polls ?t3) = fin @ rest" using 1(2) by (simp add: did_def)
  then obtain ps2 where 3: "wait_set TX_C ?t3 = Ret (?t3\<lparr>polls := ps2, bus_log := bus_log ?t3 @ map Saw fin\<rparr>)" "statuses ps2 = rest"
    using wait_set_settles [OF _ assms(3)] by blast
  have "accepts (Suc n) (?t3\<lparr>polls := ps2, bus_log := bus_log ?t3 @ map Saw fin\<rparr>)"
    using 2(2) by (simp add: accepts_def did_def)
  then obtain cs2 where 4: "CLEAR_QLF TX_C (?t3\<lparr>polls := ps2, bus_log := bus_log ?t3 @ map Saw fin\<rparr>) =
      Ret (did (Cleared TX_C) (?t3\<lparr>polls := ps2, bus_log := bus_log ?t3 @ map Saw fin, controls := cs2\<rparr>))"
    "accepts n (?t3\<lparr>polls := ps2, bus_log := bus_log ?t3 @ map Saw fin, controls := cs2\<rparr>)"
    using control_accepted by metis
  show thesis
    by (rule that [where ps = ps2 and cs = cs2]) (use 1 2 3 4 data [of "\<lambda>ph pb s. obind (wait_set TX_C s) (\<lambda>s. omap (\<lambda>s. (ph, pb, s)) (CLEAR_QLF TX_C s))"]
        in \<open>simp_all add: usb_recv_packet_def did_def accepts_def\<close>)
qed

lemma send_runs:
  assumes "statuses (polls s) = ready @ ack @ rest"
    and "settles (\<lambda>b. b AND TX_RDY \<noteq> 0) ready" and "settles (\<lambda>b. b AND TX_REQ = 0) ack"
    and "accepts (Suc (Suc n)) s" and "unat (ph_size ph) \<le> length pb"
  obtains s' where "usb_send_packet ph pb s = Ret s'" and "statuses (polls s') = rest" and "accepts n s'"
    and "bulk_in s' = bulk_in s"
proof -
  obtain ps1 where 1: "wait_set TX_RDY s = Ret (s\<lparr>polls := ps1, bus_log := bus_log s @ map Saw ready\<rparr>)"
    "statuses ps1 = ack @ rest"
    using wait_set_settles [OF assms(1,2)] .
  let ?s1 = "s\<lparr>polls := ps1, bus_log := bus_log s @ map Saw ready\<rparr>"
  have acc: "accepts (Suc (Suc n)) ?s1" using assms(4) by (simp add: accepts_def)
  obtain cs1 where 2: "SET_QLF TX_REQ ?s1 = Ret (did (Made TX_REQ) (?s1\<lparr>controls := cs1\<rparr>))"
    "accepts (Suc n) (?s1\<lparr>controls := cs1\<rparr>)"
    using control_accepted [OF acc] by metis
  let ?s2 = "did (Made TX_REQ) (?s1\<lparr>controls := cs1\<rparr>)"
  have "statuses (polls ?s2) = ack @ rest" using 1(2) by (simp add: did_def)
  then obtain ps2 where 3: "wait_clear TX_REQ ?s2 = Ret (?s2\<lparr>polls := ps2, bus_log := bus_log ?s2 @ map Saw ack\<rparr>)" "statuses ps2 = rest"
    using wait_clear_settles [OF _ assms(3)] by blast
  let ?s3 = "?s2\<lparr>polls := ps2, bus_log := bus_log ?s2 @ map Saw ack\<rparr>"
  let ?s4 = "?s3\<lparr>bus_log := bus_log ?s3 @ map Wrote (transfers ph pb)\<rparr>"
  have "accepts (Suc n) ?s4" using 2(2) by (simp add: accepts_def did_def)
  then obtain cs2 where 4: "SET_QLF TX_C ?s4 = Ret (did (Made TX_C) (?s4\<lparr>controls := cs2\<rparr>))"
    "accepts n (?s4\<lparr>controls := cs2\<rparr>)"
    using control_accepted by metis
  show thesis
    by (rule that [where s' = "did (Made TX_C) (?s4\<lparr>controls := cs2\<rparr>)"])
      (use 1 2 3 4 send_data_run [OF assms(5), of ?s3] in \<open>simp_all add: usb_send_packet_def did_def accepts_def\<close>)
qed

text \<open>The bulk transfers in a log.\<close>

fun written :: "bus_op list \<Rightarrow> byte list list" where
  "written [] = []"
| "written (Wrote bs # log) = bs # written log"
| "written (_ # log) = written log"

lemma written_append [simp]: "written (log @ log') = written log @ written log'"
  by (induction log rule: written.induct) simp_all

lemma written_map [simp]: "written (map Saw bs) = []" "written (map Wrote bss) = bss"
  by (induction bs, simp_all) (induction bss, simp_all)

text \<open>
  C13. The round trip of a packet: if one side sends a packet, and what it wrote reaches the other side, which
  sees the request and later the end of the transfer, then the other side receives the same header and the
  same body, and leaves what comes behind it.
\<close>

theorem packet_roundtrip:
  assumes "usb_send_packet ph pb s = Ret s'" and "length pb = unat (ph_size ph)"
    and "bulk_in t = written (drop (length (bus_log s)) (bus_log s')) @ later"
    and "statuses (polls t) = req @ fin @ rest"
    and "settles (\<lambda>b. b AND TX_REQ \<noteq> 0) req" and "settles (\<lambda>b. b AND TX_C \<noteq> 0) fin"
    and "accepts 2 t" and "os_malloc (uenv_os env) (pc t) (ph_size ph)"
  shows "\<exists>t'. usb_recv_packet env t = Ret (ph, if pb = [] then None else Some pb, t')
     \<and> bulk_in t' = later \<and> statuses (polls t') = rest
     \<and> bus_log t' = bus_log t @ map Saw req @ [Cleared TX_REQ] @ map Saw fin @ [Cleared TX_C]"
proof -
  obtain ready ack where "bus_log s' = bus_log s @ map Saw ready @ [Made TX_REQ] @ map Saw ack
       @ map Wrote (transfers ph pb) @ [Made TX_C]"
    using send_packet_trace [OF assms(1)] by blast
  then have "bulk_in t = transfers ph pb @ later" using assms(3) by simp
  from recv_transfers [OF assms(4-6) assms(7) [unfolded numeral_2_eq_2] assms(2) this, of env] obtain ps cs where
    run: "usb_recv_packet env t =
      Ret (ph, if ph_size ph \<noteq> 0 \<and> os_malloc (uenv_os env) (pc t) (ph_size ph) then Some pb else None,
        t\<lparr>polls := ps, controls := cs, bulk_in := later,
          bus_log := bus_log t @ map Saw req @ [Cleared TX_REQ] @ map Saw fin @ [Cleared TX_C]\<rparr>)"
    and "statuses ps = rest" .
  moreover have "pb = [] \<longleftrightarrow> ph_size ph = 0" using assms(2) by (metis length_0_conv unat_eq_zero)
  ultimately show ?thesis using assms(8) by simp
qed

section \<open>Two ends of a cable\<close>

text \<open>A device on which the handshakes succeed at once; the host is a counter, all allocations succeed.\<close>

definition usb_example :: "int usb" where
  "usb_example = \<lparr>pc = 7, polls = [(1, 0x21), (1, 0x01)], controls = [0, 0], bulk_in = [], bus_log = []\<rparr>"

definition uenv_example :: "int uenv" where
  "uenv_example =
     \<lparr>uenv_os = \<lparr>os_open = \<lambda>n path flags m. (-1, n), os_close = \<lambda>n fd. (0, n), os_read = \<lambda>n fd k. ((0, []), n),
        os_write = \<lambda>n fd bs. (int (length bs), n), os_lseek = \<lambda>n fd off wh. (off, n), os_opendir = \<lambda>n d. (0, n),
        os_readdir = \<lambda>n d. ((0, ''''), n), os_closedir = \<lambda>n d. (0, n), os_isdir = \<lambda>n d. False,
        os_stat = \<lambda>n f. (-1, \<lparr>st_mode = 0, st_size = 0, st_ctime = None, st_atime = None, st_mtime = None\<rparr>),
        os_malloc = \<lambda>n k. True\<rparr>,
      uenv_junk = [], uenv_mode = 0, uenv_devices = [], uenv_room = \<lambda>n. n + 4\<rparr>"

lemma example_sends:
  "usb_send_packet \<lparr>ph_size = 2, ph_type = 5\<rparr> [1, 2] usb_example =
     Ret (usb_example\<lparr>polls := [], controls := [],
       bus_log := [Saw 0x21, Made TX_REQ, Saw 0x01, Wrote (le32 2 @ le32 5), Wrote [1, 2], Made TX_C]\<rparr>)"
  by (simp add: usb_send_packet_def usb_example_def wait_set.simps wait_clear.simps CHECK_QLF_def SET_QLF_def did_def
      send_data_def enc_header_def)

theorem send_packet_handshake_witness:
  "\<exists>s'. usb_send_packet \<lparr>ph_size = 2, ph_type = 5\<rparr> [1, 2] usb_example = Ret s'
     \<and> (\<exists>ready ack. statuses (polls usb_example) = ready @ ack @ statuses (polls s')
       \<and> settles (\<lambda>b. b AND TX_RDY \<noteq> 0) ready \<and> settles (\<lambda>b. b AND TX_REQ = 0) ack)"
  using send_packet_handshake [OF example_sends] example_sends by blast

theorem packet_roundtrip_witness:
  "\<exists>t'. usb_recv_packet uenv_example (usb_example\<lparr>polls := [(1, 0x02), (-1, 0), (1, 0x04)], bulk_in := [le32 2 @ le32 5, [1, 2]]\<rparr>)
     = Ret (\<lparr>ph_size = 2, ph_type = 5\<rparr>, Some [1, 2], t')"
  using packet_roundtrip [OF example_sends, where later = "[]" and rest = "[]" and req = "[0x02]" and fin = "[0x04]"
      and env = uenv_example
      and t = "usb_example\<lparr>polls := [(1, 0x02), (-1, 0), (1, 0x04)], bulk_in := [le32 2 @ le32 5, [1, 2]]\<rparr>"]
  by (auto simp: usb_example_def uenv_example_def settles_def accepts_def)

end
