(* ===== verification/Naplink.thy ===== *)
theory Naplink
  imports Usb
begin

text \<open>
  \<open>naplink.c\<close>: the host's side of a console on a USB cable. The console polls with a \<open>WAZZUP\<close> packet and is
  given a command when one is waiting; in between it asks for files. The state is the device with the
  variables of the file.
\<close>

section \<open>State and constants\<close>

abbreviation (input) PACKET_RESET :: u32 where "PACKET_RESET \<equiv> 0x004d704e"
abbreviation (input) PACKET_EXECPS2 :: u32 where "PACKET_EXECPS2 \<equiv> 0x014d704e"
abbreviation (input) PACKET_EXECIOP :: u32 where "PACKET_EXECIOP \<equiv> 0x024d704e"
abbreviation (input) PACKET_QUIT :: u32 where "PACKET_QUIT \<equiv> 0x034d704e"
abbreviation (input) PACKET_BENCHMARK :: u32 where "PACKET_BENCHMARK \<equiv> 0x044d704e"
abbreviation (input) PACKET_OPEN :: u32 where "PACKET_OPEN \<equiv> 0x104d704e"
abbreviation (input) PACKET_CLOSE :: u32 where "PACKET_CLOSE \<equiv> 0x114d704e"
abbreviation (input) PACKET_READ :: u32 where "PACKET_READ \<equiv> 0x124d704e"
abbreviation (input) PACKET_WRITE :: u32 where "PACKET_WRITE \<equiv> 0x134d704e"
abbreviation (input) PACKET_LSEEK :: u32 where "PACKET_LSEEK \<equiv> 0x144d704e"
abbreviation (input) PACKET_WAZZUP :: u32 where "PACKET_WAZZUP \<equiv> 0x154d704e"
abbreviation (input) PACKET_RETURN :: u32 where "PACKET_RETURN \<equiv> 0x204d704e"

record 'fs nap = "'fs usb" +
  commandWaiting :: u32
  commandBuffer :: "string option"
  benchmarking :: int
  np_path_list :: "string list"
  counter :: u32
  processing :: u32
  pl_open :: bool

definition set_command :: "u32 \<Rightarrow> ('fs, 'z) nap_scheme \<Rightarrow> ('fs, 'z) nap_scheme" where
  "set_command c s = s\<lparr>commandWaiting := c\<rparr>"

definition set_cmdbuf :: "string \<Rightarrow> ('fs, 'z) nap_scheme \<Rightarrow> ('fs, 'z) nap_scheme" where
  "set_cmdbuf cmd s = s\<lparr>commandBuffer := Some cmd\<rparr>"

definition np_set_path :: "string list \<Rightarrow> ('fs, 'z) nap_scheme \<Rightarrow> ('fs, 'z) nap_scheme" where
  "np_set_path ptr s = s\<lparr>np_path_list := ptr\<rparr>"

definition np_get_path :: "('fs, 'z) nap_scheme \<Rightarrow> string list" where
  "np_get_path s = np_path_list s"

definition np_update_counter :: "('fs, 'z) nap_scheme \<Rightarrow> ('fs, 'z) nap_scheme" where
  "np_update_counter s = s\<lparr>counter := counter s + 1\<rparr>"

definition np_set_counter :: "u32 \<Rightarrow> ('fs, 'z) nap_scheme \<Rightarrow> ('fs, 'z) nap_scheme" where
  "np_set_counter n s = s\<lparr>counter := n\<rparr>"

definition np_get_counter :: "('fs, 'z) nap_scheme \<Rightarrow> u32" where
  "np_get_counter s = counter s"

definition np_set_processing :: "u32 \<Rightarrow> ('fs, 'z) nap_scheme \<Rightarrow> ('fs, 'z) nap_scheme" where
  "np_set_processing n s = s\<lparr>processing := n\<rparr>"

section \<open>Commands for the console\<close>

text \<open>
  \<open>get_return\<close>: the value the console returns, and data behind it into an array of the caller, if there is
  one. A packet without a body leaves \<open>pb\<close> the pointer \<open>NULL\<close>, which is followed.
\<close>

definition get_return ::
  "('fs, 'e) uenv_scheme \<Rightarrow> byte list option \<Rightarrow> ('fs, 'z) nap_scheme \<Rightarrow>
     (int \<times> byte list option \<times> ('fs, 'z) nap_scheme) outcome" where
  "get_return env data s =
     obind (usb_recv_packet env s) (\<lambda>(ph, pb, s).
     if ph_type ph \<noteq> PACKET_RETURN then Ret (-1, data, s)
     else
       obind (of_option pb) (\<lambda>bs.
       obind (case data of
           Some d \<Rightarrow> if ph_size ph > 4 then oguard (unat (ph_size ph) - 4 \<le> length d) (Ret (Some (poke 0 (drop 4 bs) d)))
                     else Ret data
         | None \<Rightarrow> Ret data) (\<lambda>data.
       oguard (4 \<le> length bs) (Ret (to_cint (un_le32 bs), data, s)))))"

definition get_rv :: "('fs, 'e) uenv_scheme \<Rightarrow> ('fs, 'z) nap_scheme \<Rightarrow> (int \<times> ('fs, 'z) nap_scheme) outcome" where
  "get_rv env s = omap (\<lambda>(rv, data, s). (rv, s)) (get_return env None s)"

definition do_quit :: "('fs, 'e) uenv_scheme \<Rightarrow> ('fs, 'z) nap_scheme \<Rightarrow> (int \<times> ('fs, 'z) nap_scheme) outcome" where
  "do_quit env s = obind (usb_send_packet \<lparr>ph_size = 0, ph_type = PACKET_QUIT\<rparr> [] s) (get_rv env)"

definition do_reset :: "('fs, 'e) uenv_scheme \<Rightarrow> ('fs, 'z) nap_scheme \<Rightarrow> (int \<times> ('fs, 'z) nap_scheme) outcome" where
  "do_reset env s = obind (usb_send_packet \<lparr>ph_size = 0, ph_type = PACKET_RESET\<rparr> [] s) (get_rv env)"

definition do_execps2 ::
  "('fs, 'e) uenv_scheme \<Rightarrow> string option \<Rightarrow> ('fs, 'z) nap_scheme \<Rightarrow> (int \<times> ('fs, 'z) nap_scheme) outcome" where
  "do_execps2 env filename s =
     (case filename of
        Some f \<Rightarrow> obind (usb_send_packet \<lparr>ph_size = of_nat (length f + 1), ph_type = PACKET_EXECPS2\<rparr> (bytes_of f @ [0]) s)
                    (get_rv env)
      | None \<Rightarrow> Ret (-1, s))"

definition do_execiop ::
  "('fs, 'e) uenv_scheme \<Rightarrow> string option \<Rightarrow> ('fs, 'z) nap_scheme \<Rightarrow> (int \<times> ('fs, 'z) nap_scheme) outcome" where
  "do_execiop env filename s =
     (case filename of
        Some f \<Rightarrow> obind (usb_send_packet \<lparr>ph_size = of_nat (length f + 1), ph_type = PACKET_EXECIOP\<rparr> (bytes_of f @ [0]) s)
                    (get_rv env)
      | None \<Rightarrow> Ret (-1, s))"

text \<open>
  \<open>do_return\<close>: \<open>data\<close> is an array or \<open>NULL\<close>; the result of \<open>malloc\<close> is not tested.
\<close>

definition do_return ::
  "('fs, 'e) uenv_scheme \<Rightarrow> int \<Rightarrow> byte list option \<Rightarrow> int \<Rightarrow> ('fs, 'z) nap_scheme \<Rightarrow> ('fs, 'z) nap_scheme outcome" where
  "do_return env rv data n s =
     (let n = (if n < 0 then 0 else n);
          ph = \<lparr>ph_size = of_cint (4 + n), ph_type = PACKET_RETURN\<rparr> in
      oguard (os_malloc (uenv_os env) (pc s) (of_cint (4 + n)))
        (obind (if n \<noteq> 0 then of_option data else Ret []) (\<lambda>bs.
         oguard (nat n \<le> length bs)
           (usb_send_packet ph (le32 (of_cint rv) @ take (nat n) bs) s))))"

section \<open>Requests of the console\<close>

text \<open>A field of 32 bits of a packet's body.\<close>

definition field :: "nat \<Rightarrow> byte list option \<Rightarrow> u32 outcome" where
  "field off buffer =
     obind (of_option buffer) (\<lambda>bs. oguard (off + 4 \<le> length bs) (Ret (un_le32 (drop off bs))))"

definition np_flags :: "u32 \<Rightarrow> u32" where
  "np_flags fl =
     (if fl AND 1 \<noteq> 0 then O_RDONLY else 0) OR (if fl AND 2 \<noteq> 0 then O_WRONLY else 0)
     OR (if fl AND 0x100 \<noteq> 0 then O_APPEND else 0) OR (if fl AND 0x200 \<noteq> 0 then O_CREAT else 0)
     OR (if fl AND 0x400 \<noteq> 0 then O_TRUNC else 0)"

text \<open>
  \<open>open\<close> is called with two arguments, so a file that is created gets as its mode what lies where the third
  argument would be. The name found in a directory of the list is built in an array of \<open>MAXPATHLEN\<close>.
\<close>

definition np_open :: "('fs, 'e) uenv_scheme \<Rightarrow> string \<Rightarrow> u32 \<Rightarrow> 'fs \<Rightarrow> int \<times> 'fs" where
  "np_open env path flags fs = os_open (uenv_os env) fs path flags (uenv_mode env)"

fun np_search :: "('fs, 'e) uenv_scheme \<Rightarrow> string \<Rightarrow> u32 \<Rightarrow> string list \<Rightarrow> int \<Rightarrow> 'fs \<Rightarrow> (int \<times> 'fs) outcome" where
  "np_search env pathname flags [] rv fs = Ret (rv, fs)"
| "np_search env pathname flags (d # ds) rv fs =
     (let path = d @ ''/'' @ pathname in
      oguard (length path < MAXPATHLEN)
        (let (rv, fs) = np_open env path flags fs in
         if rv \<noteq> -1 then Ret (rv, fs) else np_search env pathname flags ds rv fs))"

definition process_open ::
  "('fs, 'e) uenv_scheme \<Rightarrow> byte list option \<Rightarrow> ('fs, 'z) nap_scheme \<Rightarrow> ('fs, 'z) nap_scheme outcome" where
  "process_open env buffer s =
     (let s = np_set_counter 0 (s\<lparr>processing := 1\<rparr>) in
      obind (obind (of_option buffer) (\<lambda>bs. of_option (c_str (drop 4 bs)))) (\<lambda>pathname.
      if pathname = ''/dev/tty'' then do_return env 1 None 0 s
      else
        obind (field 0 buffer) (\<lambda>fl.
        let flags = np_flags fl; (rv, fs) = np_open env pathname flags (pc s) in
        obind (if rv = -1 then np_search env pathname flags (np_get_path s) rv fs else Ret (rv, fs)) (\<lambda>(rv, fs).
        do_return env rv None 0 (s\<lparr>pc := fs\<rparr>)))))"

definition process_close ::
  "('fs, 'e) uenv_scheme \<Rightarrow> byte list option \<Rightarrow> ('fs, 'z) nap_scheme \<Rightarrow> ('fs, 'z) nap_scheme outcome" where
  "process_close env buffer s =
     (let s = np_set_counter 0 (s\<lparr>processing := 0\<rparr>) in
      obind (field 0 buffer) (\<lambda>fd.
      let (rv, fs) = (if to_cint fd \<le> 2 then (0, pc s) else os_close (uenv_os env) (pc s) (to_cint fd))
      in do_return env rv None 0 (s\<lparr>pc := fs\<rparr>)))"

text \<open>
  \<open>PACKET_READ\<close>: during a benchmark nothing is read and the block is sent as it is. A \<open>read\<close> into \<open>NULL\<close>,
  when the block could not be allocated, fails.
\<close>

definition process_read ::
  "('fs, 'e) uenv_scheme \<Rightarrow> byte list option \<Rightarrow> ('fs, 'z) nap_scheme \<Rightarrow> ('fs, 'z) nap_scheme outcome" where
  "process_read env buffer s =
     (let s = np_set_counter 0 s in
      obind (field 0 buffer) (\<lambda>fd.
      obind (field 4 buffer) (\<lambda>n.
      let buffer2 = (if os_malloc (uenv_os env) (pc s) n then Some (fresh env (unat n)) else None) in
      if benchmarking s = 0 then
        (case buffer2 of
           None \<Rightarrow> do_return env (-1) None (-1) s
         | Some b \<Rightarrow>
             let ((rv, bs), fs) = os_read (uenv_os env) (pc s) (to_cint fd) n
             in do_return env rv (Some (poke 0 bs b)) rv (s\<lparr>pc := fs\<rparr>))
      else do_return env (to_cint n) buffer2 (to_cint n) s)))"

definition process_write ::
  "('fs, 'e) uenv_scheme \<Rightarrow> byte list option \<Rightarrow> ('fs, 'z) nap_scheme \<Rightarrow> ('fs, 'z) nap_scheme outcome" where
  "process_write env buffer s =
     (let s = np_set_counter 0 s in
      obind (field 0 buffer) (\<lambda>fd.
      obind (field 4 buffer) (\<lambda>n.
      if benchmarking s = 0 then
        obind (of_option buffer) (\<lambda>bs.
        oguard (8 + unat n \<le> length bs)
          (let (rv, fs) = os_write (uenv_os env) (pc s) (to_cint fd) (take (unat n) (drop 8 bs))
           in do_return env rv None 0 (s\<lparr>pc := fs\<rparr>)))
      else do_return env (to_cint n) None 0 s)))"

definition process_lseek ::
  "('fs, 'e) uenv_scheme \<Rightarrow> byte list option \<Rightarrow> ('fs, 'z) nap_scheme \<Rightarrow> ('fs, 'z) nap_scheme outcome" where
  "process_lseek env buffer s =
     (let s = np_set_counter 0 s in
      obind (field 0 buffer) (\<lambda>fd.
      obind (field 4 buffer) (\<lambda>offset.
      obind (field 8 buffer) (\<lambda>whence.
      let (rv, fs) = os_lseek (uenv_os env) (pc s) (to_cint fd) (to_cint offset) (to_cint whence)
      in do_return env rv None 0 (s\<lparr>pc := fs\<rparr>)))))"

text \<open>\<open>PACKET_WAZZUP\<close>; \<open>bench\<close> is \<open>do_benchmark\<close>, which calls the processing of packets again.\<close>

definition process_wazzup ::
  "('fs, 'e) uenv_scheme \<Rightarrow> (('fs, 'z) nap_scheme \<Rightarrow> ('fs, 'z) nap_scheme outcome) \<Rightarrow>
     ('fs, 'z) nap_scheme \<Rightarrow> ('fs, 'z) nap_scheme outcome" where
  "process_wazzup env bench s =
     (let s = (if processing s = 0 then np_update_counter s else s); c = commandWaiting s in
      omap (\<lambda>s. s\<lparr>commandWaiting := 0\<rparr>)
        (if c = 0 then do_return env 0 None 0 s
         else if c = PACKET_RESET then omap snd (do_reset env s)
         else if c = PACKET_EXECPS2 then omap snd (do_execps2 env (commandBuffer s) s)
         else if c = PACKET_EXECIOP then omap snd (do_execiop env (commandBuffer s) s)
         else if c = PACKET_QUIT then omap snd (do_quit env s)
         else if c = PACKET_BENCHMARK then bench s
         else Ret s))"

definition process_packet ::
  "('fs, 'e) uenv_scheme \<Rightarrow> (('fs, 'z) nap_scheme \<Rightarrow> ('fs, 'z) nap_scheme outcome) \<Rightarrow>
     u32 \<Rightarrow> byte list option \<Rightarrow> ('fs, 'z) nap_scheme \<Rightarrow> ('fs, 'z) nap_scheme outcome" where
  "process_packet env bench t buffer s =
     (if t = PACKET_OPEN then process_open env buffer s
      else if t = PACKET_CLOSE then process_close env buffer s
      else if t = PACKET_READ then process_read env buffer s
      else if t = PACKET_WRITE then process_write env buffer s
      else if t = PACKET_LSEEK then process_lseek env buffer s
      else if t = PACKET_WAZZUP then process_wazzup env bench s
      else Ret s)"

section \<open>The benchmark\<close>

text \<open>
  The loop of \<open>do_benchmark\<close> over \<open>recv_and_process_packet\<close>, which may call \<open>do_benchmark\<close> again. The numbers
  bound the loop and the depth of the calls: each packet takes at least one value of the register, so there
  are never more packets than values, and the bounds are not reached (\<open>recv_and_process_unfold\<close>). The
  rate that is printed at the end is left out.
\<close>

fun bench_loop ::
  "(('fs, 'z) nap_scheme \<Rightarrow> (u32 \<times> ('fs, 'z) nap_scheme) outcome) \<Rightarrow> nat \<Rightarrow>
     ('fs, 'z) nap_scheme \<Rightarrow> ('fs, 'z) nap_scheme outcome" where
  "bench_loop step 0 s = Hang"
| "bench_loop step (Suc n) s = obind (step s) (\<lambda>(i, s). if i \<noteq> PACKET_RETURN then bench_loop step n s else Ret s)"

definition do_benchmark ::
  "(('fs, 'z) nap_scheme \<Rightarrow> (u32 \<times> ('fs, 'z) nap_scheme) outcome) \<Rightarrow>
     ('fs, 'z) nap_scheme \<Rightarrow> ('fs, 'z) nap_scheme outcome" where
  "do_benchmark step s =
     obind (usb_send_packet \<lparr>ph_size = 0, ph_type = PACKET_BENCHMARK\<rparr> [] s) (\<lambda>s.
     omap (\<lambda>s. s\<lparr>benchmarking := 0\<rparr>) (bench_loop step (Suc (length (polls s))) (s\<lparr>benchmarking := 1\<rparr>)))"

fun process_within ::
  "('fs, 'e) uenv_scheme \<Rightarrow> nat \<Rightarrow> ('fs, 'z) nap_scheme \<Rightarrow> (u32 \<times> ('fs, 'z) nap_scheme) outcome" where
  "process_within env 0 s = Hang"
| "process_within env (Suc d) s =
     obind (usb_recv_packet env s) (\<lambda>(packet, buffer, s).
     omap (Pair (ph_type packet))
       (process_packet env (do_benchmark (process_within env d)) (ph_type packet) buffer s))"

definition recv_and_process_packet ::
  "('fs, 'e) uenv_scheme \<Rightarrow> ('fs, 'z) nap_scheme \<Rightarrow> (u32 \<times> ('fs, 'z) nap_scheme) outcome" where
  "recv_and_process_packet env s = process_within env (Suc (length (polls s))) s"

section \<open>The device\<close>

text \<open>The handshake when the cable is opened, and when the other side went away.\<close>

definition handshake :: "('fs, 'z) nap_scheme \<Rightarrow> ('fs, 'z) nap_scheme outcome" where
  "handshake s =
     (let s = did (Claimed 0) (did (Configured 1) (did Was_reset s)) in
      obind (CLEAR_QLF TX_REQ s) (\<lambda>s.
      obind (CLEAR_QLF TX_C s) (\<lambda>s.
      obind (SET_QLF PEER_E s) (wait_set PEER_E))))"

text \<open>\<open>pl_hnd\<close> can be used as long as it is open; \<open>usb_close\<close> frees it.\<close>

definition naplink_check :: "('fs, 'z) nap_scheme \<Rightarrow> ('fs, 'z) nap_scheme outcome" where
  "naplink_check s =
     oguard (pl_open s) (obind (CHECK_QLF PEER_E s) (\<lambda>(v, s). if v = 0 then handshake s else Ret s))"

definition naplink_close :: "('fs, 'z) nap_scheme \<Rightarrow> (int \<times> ('fs, 'z) nap_scheme) outcome" where
  "naplink_close s =
     oguard (pl_open s) (obind (CLEAR_QLF PEER_E s) (\<lambda>s. Ret (0, (did Closed (did (Released 0) s))\<lparr>pl_open := False\<rparr>)))"

definition naplink_process ::
  "('fs, 'e) uenv_scheme \<Rightarrow> ('fs, 'z) nap_scheme \<Rightarrow> ('fs, 'z) nap_scheme outcome" where
  "naplink_process env s =
     oguard (pl_open s)
       (obind (CHECK_QLF TX_REQ s) (\<lambda>(v, s). if v \<noteq> 0 then omap snd (recv_and_process_packet env s) else Ret s))"

text \<open>The last device of the listing that is supported.\<close>

fun find_device :: "usb_device list \<Rightarrow> usb_device option \<Rightarrow> usb_device option" where
  "find_device [] pl_dev = pl_dev"
| "find_device (dev # devs) pl_dev =
     find_device devs
       (if idVendor dev = 0x067b \<and> (idProduct dev = 0 \<or> idProduct dev = 1) then Some dev else pl_dev)"

definition initialize_naplink ::
  "('fs, 'e) uenv_scheme \<Rightarrow> ('fs, 'z) nap_scheme \<Rightarrow> (int \<times> ('fs, 'z) nap_scheme) outcome" where
  "initialize_naplink env s =
     (case find_device (concat (uenv_devices env)) None of
        None \<Rightarrow> Ret (-1, s)
      | Some dev \<Rightarrow> omap (Pair 0) (handshake ((did (Opened dev) s)\<lparr>pl_open := True\<rparr>)))"

section \<open>What the cable takes\<close>

text \<open>The state without the device; a step of the protocol leaves it alone and takes values of the register.\<close>

definition off_bus :: "('fs, 'z) usb_scheme \<Rightarrow> ('fs, 'z) usb_scheme" where
  "off_bus s = s\<lparr>polls := [], controls := [], bulk_in := [], bus_log := []\<rparr>"

definition bus_only :: "('fs, 'z) usb_scheme \<Rightarrow> ('fs, 'z) usb_scheme \<Rightarrow> bool" where
  "bus_only s s' \<longleftrightarrow> off_bus s' = off_bus s \<and> length (polls s') \<le> length (polls s)"

lemma bus_only_refl [simp]: "bus_only s s"
  by (simp add: bus_only_def)

lemma bus_only_trans: "bus_only s s1 \<Longrightarrow> bus_only s1 s2 \<Longrightarrow> bus_only s s2"
  by (simp add: bus_only_def)

lemma bus_only_keeps:
  assumes "bus_only s s'"
  shows "pc s' = pc s" and "usb.more s' = usb.more s"
proof -
  have "off_bus s' = off_bus s" using assms by (simp add: bus_only_def)
  from arg_cong [OF this, of pc] arg_cong [OF this, of usb.more]
  show "pc s' = pc s" "usb.more s' = usb.more s" by (simp_all add: off_bus_def)
qed

lemma bus_only_nap:
  fixes s s' :: "('fs, 'z) nap_scheme"
  assumes "bus_only s s'"
  shows "commandWaiting s' = commandWaiting s" and "commandBuffer s' = commandBuffer s"
    and "benchmarking s' = benchmarking s" and "np_path_list s' = np_path_list s"
    and "counter s' = counter s" and "processing s' = processing s" and "nap.more s' = nap.more s"
    and "pl_open s' = pl_open s"
proof -
  have eq: "off_bus s' = off_bus s" using assms by (simp add: bus_only_def)
  show "commandWaiting s' = commandWaiting s" using arg_cong [OF eq, of commandWaiting] by (simp add: off_bus_def)
  show "commandBuffer s' = commandBuffer s" using arg_cong [OF eq, of commandBuffer] by (simp add: off_bus_def)
  show "benchmarking s' = benchmarking s" using arg_cong [OF eq, of benchmarking] by (simp add: off_bus_def)
  show "np_path_list s' = np_path_list s" using arg_cong [OF eq, of np_path_list] by (simp add: off_bus_def)
  show "counter s' = counter s" using arg_cong [OF eq, of counter] by (simp add: off_bus_def)
  show "processing s' = processing s" using arg_cong [OF eq, of processing] by (simp add: off_bus_def)
  show "nap.more s' = nap.more s" using arg_cong [OF eq, of nap.more] by (simp add: off_bus_def)
  show "pl_open s' = pl_open s" using arg_cong [OF eq, of pl_open] by (simp add: off_bus_def)
qed

lemma check_bus: "CHECK_QLF f s = Ret (v, s') \<Longrightarrow> bus_only s s'"
  by (auto simp: CHECK_QLF_def did_def bus_only_def off_bus_def split: option.splits dest: read_status_shorter)

lemma control_bus: "CLEAR_QLF f s = Ret s' \<Longrightarrow> bus_only s s'" "SET_QLF f s = Ret s' \<Longrightarrow> bus_only s s'"
  by (auto dest!: control_Ret simp: did_def bus_only_def off_bus_def)

lemma bulk_bus: "usb_bulk_read n s = Ret (bs, s') \<Longrightarrow> bus_only s s'"
  by (auto simp: usb_bulk_read_def bus_only_def off_bus_def split: list.splits)

text \<open>The loops look at the register at least once.\<close>

lemma wait_set_bus: "wait_set f s = Ret s' \<Longrightarrow> bus_only s s' \<and> length (polls s') < length (polls s)"
proof (induction f s rule: wait_set.induct)
  case (1 f s)
  from "1.prems" obtain v s1 where c: "CHECK_QLF f s = Ret (v, s1)" and r: "(if v = 0 then wait_set f s1 else Ret s1) = Ret s'"
    by (subst (asm) wait_set.simps) (auto simp: obind_Ret_iff)
  show ?case
  proof (cases "v = 0")
    case True
    with r have "wait_set f s1 = Ret s'" by simp
    from "1.IH" [OF c refl True this] check_bus [OF c] check_shorter [OF c] show ?thesis
      by (auto intro: bus_only_trans)
  next
    case False
    with r check_bus [OF c] check_shorter [OF c] show ?thesis by simp
  qed
qed

lemma wait_clear_bus: "wait_clear f s = Ret s' \<Longrightarrow> bus_only s s' \<and> length (polls s') < length (polls s)"
proof (induction f s rule: wait_clear.induct)
  case (1 f s)
  from "1.prems" obtain v s1 where c: "CHECK_QLF f s = Ret (v, s1)" and r: "(if v = 0 then Ret s1 else wait_clear f s1) = Ret s'"
    by (subst (asm) wait_clear.simps) (auto simp: obind_Ret_iff)
  show ?case
  proof (cases "v = 0")
    case False
    with r have "wait_clear f s1 = Ret s'" by simp
    from "1.IH" [OF c refl False this] check_bus [OF c] check_shorter [OF c] show ?thesis
      by (auto intro: bus_only_trans)
  next
    case True
    with r check_bus [OF c] check_shorter [OF c] show ?thesis by simp
  qed
qed

lemma recv_data_bus: "recv_data env n s = Ret (pb, s') \<Longrightarrow> bus_only s s'"
  by (auto simp: recv_data_def omap_Ret_iff dest: bulk_bus split: if_splits)

lemma recv_bus:
  assumes "usb_recv_packet env s = Ret (ph, pb, s')"
  shows "bus_only s s'" and "length (polls s') < length (polls s)"
proof -
  obtain s1 s2 bs s3 s4 s5 where run: "wait_set TX_REQ s = Ret s1" "CLEAR_QLF TX_REQ s1 = Ret s2"
    "usb_bulk_read 8 s2 = Ret (bs, s3)" "recv_data env (ph_size ph) s3 = Ret (pb, s4)"
    "wait_set TX_C s4 = Ret s5" "CLEAR_QLF TX_C s5 = Ret s'"
    using assms by (auto simp: usb_recv_packet_def obind_Ret_iff omap_Ret_iff Let_def)
  have "bus_only s1 s'"
    using control_bus(1) [OF run(2)] bulk_bus [OF run(3)] recv_data_bus [OF run(4)] wait_set_bus [OF run(5)]
      control_bus(1) [OF run(6)] by (meson bus_only_trans)
  then show "bus_only s s'" "length (polls s') < length (polls s)"
    using wait_set_bus [OF run(1)] by (auto intro: bus_only_trans simp: bus_only_def)
qed

lemma send_bus:
  assumes "usb_send_packet ph pb s = Ret s'"
  shows "bus_only s s'" and "length (polls s') < length (polls s)"
proof -
  obtain s1 s2 s3 s4 where run: "wait_set TX_RDY s = Ret s1" "SET_QLF TX_REQ s1 = Ret s2"
    "wait_clear TX_REQ s2 = Ret s3" "send_data ph pb s3 = Ret s4" "SET_QLF TX_C s4 = Ret s'"
    using assms by (auto simp: usb_send_packet_def obind_Ret_iff)
  have "bus_only s3 s4" using run(4) by (auto simp: send_data_Ret bus_only_def off_bus_def)
  then have "bus_only s1 s'"
    using control_bus(2) [OF run(2)] wait_clear_bus [OF run(3)] control_bus(2) [OF run(5)] by (meson bus_only_trans)
  then show "bus_only s s'" "length (polls s') < length (polls s)"
    using wait_set_bus [OF run(1)] by (auto intro: bus_only_trans simp: bus_only_def)
qed

lemmas outcome_iffs = obind_Ret_iff omap_Ret_iff oguard_Ret_iff

text \<open>A piece of the protocol that writes these bulk transfers.\<close>

definition talks :: "byte list list \<Rightarrow> ('fs, 'z) usb_scheme \<Rightarrow> ('fs, 'z) usb_scheme \<Rightarrow> bool" where
  "talks bss s s' \<longleftrightarrow> bus_only s s' \<and> length (polls s') < length (polls s)
     \<and> written (bus_log s') = written (bus_log s) @ bss"

lemma talks_trans: "talks bss s s1 \<Longrightarrow> talks css s1 s2 \<Longrightarrow> talks (bss @ css) s s2"
  by (auto simp: talks_def intro: bus_only_trans)

lemma bulk_log: "usb_bulk_read n t = Ret (b, t') \<Longrightarrow> bus_log t' = bus_log t"
  by (auto simp: usb_bulk_read_def split: list.splits)

lemma recv_talks:
  assumes "usb_recv_packet env s = Ret (ph, pb, s')"
  shows "talks [] s s'"
proof -
  obtain s1 s2 bs s3 s4 s5 where run: "wait_set TX_REQ s = Ret s1" "CLEAR_QLF TX_REQ s1 = Ret s2"
    "usb_bulk_read 8 s2 = Ret (bs, s3)" "recv_data env (ph_size ph) s3 = Ret (pb, s4)"
    "wait_set TX_C s4 = Ret s5" "CLEAR_QLF TX_C s5 = Ret s'"
    using assms by (auto simp: usb_recv_packet_def obind_Ret_iff omap_Ret_iff Let_def)
  have "written (bus_log s1) = written (bus_log s)" using wait_set_Ret [OF run(1)] by (metis written_append written_map(1) append_Nil2)
  moreover have "written (bus_log s2) = written (bus_log s1)" using control_Ret(1) [OF run(2)] by (auto simp: did_def)
  moreover have "bus_log s3 = bus_log s2" by (rule bulk_log [OF run(3)])
  moreover have "bus_log s4 = bus_log s3" using run(4) by (auto simp: recv_data_def omap_Ret_iff dest!: bulk_log split: if_splits)
  moreover have "written (bus_log s5) = written (bus_log s4)" using wait_set_Ret [OF run(5)] by (metis written_append written_map(1) append_Nil2)
  moreover have "written (bus_log s') = written (bus_log s5)" using control_Ret(1) [OF run(6)] by (auto simp: did_def)
  ultimately show ?thesis using recv_bus [OF assms] by (simp add: talks_def)
qed

lemma send_talks: "usb_send_packet ph pb s = Ret s' \<Longrightarrow> talks (transfers ph pb) s s'"
  using send_bus [of ph pb s s'] by (fastforce simp: talks_def dest: send_packet_trace)

lemma get_rv_talks: "get_rv env s = Ret (rv, s') \<Longrightarrow> talks [] s s'"
  by (auto simp: get_rv_def get_return_def outcome_iffs dest: recv_talks split: if_splits)

text \<open>The packet with which a request is answered.\<close>

definition return_packet :: "int \<Rightarrow> byte list \<Rightarrow> byte list list" where
  "return_packet rv data =
     transfers \<lparr>ph_size = of_cint (4 + int (length data)), ph_type = PACKET_RETURN\<rparr> (le32 (of_cint rv) @ data)"

lemma do_return_talks:
  assumes "do_return env rv data n s = Ret s'"
  obtains bs where "talks (return_packet rv (take (nat n) bs)) s s'" and "0 < n \<Longrightarrow> data = Some bs \<and> nat n \<le> length bs"
    and "n \<le> 0 \<Longrightarrow> bs = []"
proof (cases "0 < n")
  case True
  then obtain bs where "data = Some bs" "nat n \<le> length bs"
    "usb_send_packet \<lparr>ph_size = of_cint (4 + n), ph_type = PACKET_RETURN\<rparr> (le32 (of_cint rv) @ take (nat n) bs) s = Ret s'"
    using assms by (auto simp: do_return_def Let_def outcome_iffs)
  with True that [of bs] send_talks show thesis by (fastforce simp: return_packet_def)
next
  case False
  then have "usb_send_packet \<lparr>ph_size = of_cint 4, ph_type = PACKET_RETURN\<rparr> (le32 (of_cint rv)) s = Ret s'"
    using assms by (auto simp: do_return_def Let_def outcome_iffs split: if_splits)
  with False that [of "[]"] send_talks show thesis by (fastforce simp: return_packet_def)
qed

lemma return_packet_bytes:
  "length data < 2 ^ 31 \<Longrightarrow> return_packet rv data =
     [le32 (of_nat (4 + length data)) @ le32 PACKET_RETURN, le32 (of_cint rv) @ data]"
proof -
  assume len: "length data < 2 ^ 31"
  then have n: "unat (of_nat (4 + length data) :: u32) = 4 + length data"
    by (subst unat_of_nat) (simp add: take_bit_nat_eq_self)
  moreover have "of_cint (4 + int (length data)) = of_nat (4 + length data)" by (simp add: of_cint_def)
  ultimately show ?thesis
    by (simp add: return_packet_def transfers_def enc_header_def unat_eq_zero [symmetric] del: of_nat_add)
qed

section \<open>The contract of a request\<close>

text \<open>The state in which a request is answered: besides the host only the counter and \<open>processing\<close> changed.\<close>

definition served :: "('fs, 'z) nap_scheme \<Rightarrow> ('fs, 'z) nap_scheme \<Rightarrow> bool" where
  "served s t \<longleftrightarrow> counter t = 0 \<and> off_bus t = off_bus (s\<lparr>pc := pc t, counter := 0, processing := processing t\<rparr>)
     \<and> polls t = polls s \<and> bus_log t = bus_log s"

text \<open>A request of the console is answered with one packet.\<close>

locale console_request =
  fixes h :: "byte list option \<Rightarrow> ('fs, 'z) nap_scheme \<Rightarrow> ('fs, 'z) nap_scheme outcome"
  assumes answers: "h buffer s = Ret s' \<Longrightarrow> \<exists>rv d t. served s t \<and> talks (return_packet rv d) t s'"
begin

lemma one_answer: "h buffer s = Ret s' \<Longrightarrow> \<exists>rv d. written (bus_log s') = written (bus_log s) @ return_packet rv d"
  using answers [of buffer s s'] unfolding talks_def served_def by metis

lemma shrinks: "h buffer s = Ret s' \<Longrightarrow> length (polls s') < length (polls s)"
  using answers [of buffer s s'] by (auto simp: talks_def served_def)

lemma keeps:
  assumes "h buffer s = Ret s'"
  shows "counter s' = 0" and "commandWaiting s' = commandWaiting s" and "commandBuffer s' = commandBuffer s"
    and "benchmarking s' = benchmarking s" and "np_path_list s' = np_path_list s"
    and "pl_open s' = pl_open s" and "nap.more s' = nap.more s"
proof -
  obtain rv d t where t: "served s t" "talks (return_packet rv d) t s'"
    using answers [OF assms] by blast
  then have b: "bus_only t s'" by (simp add: talks_def)
  have eq: "off_bus t = off_bus (s\<lparr>pc := pc t, counter := 0, processing := processing t\<rparr>)"
    using t(1) by (simp add: served_def)
  show "counter s' = 0" using bus_only_nap(5) [OF b] t(1) by (simp add: served_def)
  show "commandWaiting s' = commandWaiting s"
    using bus_only_nap(1) [OF b] arg_cong [OF eq, of commandWaiting] by (simp add: off_bus_def)
  show "commandBuffer s' = commandBuffer s"
    using bus_only_nap(2) [OF b] arg_cong [OF eq, of commandBuffer] by (simp add: off_bus_def)
  show "benchmarking s' = benchmarking s"
    using bus_only_nap(3) [OF b] arg_cong [OF eq, of benchmarking] by (simp add: off_bus_def)
  show "np_path_list s' = np_path_list s"
    using bus_only_nap(4) [OF b] arg_cong [OF eq, of np_path_list] by (simp add: off_bus_def)
  show "pl_open s' = pl_open s"
    using bus_only_nap(8) [OF b] arg_cong [OF eq, of pl_open] by (simp add: off_bus_def)
  show "nap.more s' = nap.more s"
    using bus_only_nap(7) [OF b] arg_cong [OF eq, of nap.more] by (simp add: off_bus_def)
qed

end

lemma answered_once: "do_return env rv data n t = Ret s' \<Longrightarrow> served s t \<Longrightarrow> \<exists>rv d t. served s t \<and> talks (return_packet rv d) t s'"
  by (erule do_return_talks) blast

lemma served_intros [intro]:
  fixes s :: "('fs, 'z) nap_scheme"
  shows "served s (s\<lparr>counter := 0\<rparr>)" "served s (s\<lparr>counter := 0, pc := fs\<rparr>)"
    "served s (s\<lparr>processing := p, counter := 0\<rparr>)" "served s (s\<lparr>processing := p, counter := 0, pc := fs\<rparr>)"
  by (cases s, simp add: served_def off_bus_def)+

interpretation open_req: console_request "process_open env" for env
  by unfold_locales
     (auto simp: process_open_def np_set_counter_def Let_def outcome_iffs case_prod_beta elim!: answered_once split: if_splits option.splits)

interpretation close_req: console_request "process_close env" for env
  by unfold_locales
     (auto simp: process_close_def np_set_counter_def Let_def outcome_iffs case_prod_beta elim!: answered_once split: if_splits option.splits)

interpretation read_req: console_request "process_read env" for env
  by unfold_locales
     (auto simp: process_read_def np_set_counter_def Let_def outcome_iffs case_prod_beta elim!: answered_once split: if_splits option.splits)

interpretation write_req: console_request "process_write env" for env
  by unfold_locales
     (auto simp: process_write_def np_set_counter_def Let_def outcome_iffs case_prod_beta elim!: answered_once split: if_splits option.splits)

interpretation lseek_req: console_request "process_lseek env" for env
  by unfold_locales
     (auto simp: process_lseek_def np_set_counter_def Let_def outcome_iffs case_prod_beta elim!: answered_once split: if_splits option.splits)

section \<open>Packets come to an end\<close>

lemma command_talks:
  "do_quit env s = Ret (rv, s') \<Longrightarrow> talks (transfers \<lparr>ph_size = 0, ph_type = PACKET_QUIT\<rparr> []) s s'"
  "do_reset env s = Ret (rv, s') \<Longrightarrow> talks (transfers \<lparr>ph_size = 0, ph_type = PACKET_RESET\<rparr> []) s s'"
  "do_execps2 env (Some f) s = Ret (rv, s') \<Longrightarrow>
     talks (transfers \<lparr>ph_size = of_nat (length f + 1), ph_type = PACKET_EXECPS2\<rparr> (bytes_of f @ [0])) s s'"
  "do_execiop env (Some f) s = Ret (rv, s') \<Longrightarrow>
     talks (transfers \<lparr>ph_size = of_nat (length f + 1), ph_type = PACKET_EXECIOP\<rparr> (bytes_of f @ [0])) s s'"
  unfolding do_quit_def do_reset_def do_execps2_def do_execiop_def
  by (auto simp: outcome_iffs dest!: send_talks get_rv_talks dest: talks_trans)

lemma do_exec_shrinks:
  "do_execps2 env f s = Ret (rv, s') \<Longrightarrow> length (polls s') \<le> length (polls s)"
  "do_execiop env f s = Ret (rv, s') \<Longrightarrow> length (polls s') \<le> length (polls s)"
  by (cases f; fastforce simp: do_execps2_def do_execiop_def talks_def dest: command_talks)+

text \<open>A way to process a packet that takes values of the register.\<close>

locale nap_step =
  fixes step :: "('fs, 'z) nap_scheme \<Rightarrow> (u32 \<times> ('fs, 'z) nap_scheme) outcome"
  assumes step_shrinks: "step s = Ret (i, s') \<Longrightarrow> length (polls s') < length (polls s)"
begin

lemma bench_loop_shrinks: "bench_loop step n s = Ret s' \<Longrightarrow> length (polls s') < length (polls s)"
proof (induction n arbitrary: s)
  case (Suc n)
  then obtain i s1 where s1: "step s = Ret (i, s1)" "(if i \<noteq> PACKET_RETURN then bench_loop step n s1 else Ret s1) = Ret s'"
    by (auto simp: obind_Ret_iff)
  with Suc.IH [of s1] step_shrinks [OF s1(1)] show ?case by (auto split: if_splits)
qed simp

lemma bench_loop_enough:
  "length (polls s) < n \<Longrightarrow> bench_loop step n s =
     obind (step s) (\<lambda>(i, s). if i \<noteq> PACKET_RETURN then bench_loop step (Suc (length (polls s))) s else Ret s)"
proof (induction n arbitrary: s rule: less_induct)
  case (less n)
  obtain m where n: "n = Suc m" using less.prems by (cases n) auto
  have "bench_loop step m s1 = bench_loop step (Suc (length (polls s1))) s1" if s1: "step s = Ret (i, s1)" for i s1
  proof -
    have len: "length (polls s1) < m" using step_shrinks [OF s1] less.prems n by simp
    have "Suc (length (polls s1)) < n" using len n by simp
    from less.IH [OF this] less.IH [of m s1] len n show ?thesis by simp
  qed
  then show ?case unfolding n bench_loop.simps by (auto intro!: obind_cong)
qed

lemma do_benchmark_shrinks: "do_benchmark step s = Ret s' \<Longrightarrow> length (polls s') \<le> length (polls s)"
  by (auto simp: do_benchmark_def outcome_iffs talks_def simp del: bench_loop.simps
      dest!: send_talks bench_loop_shrinks)

lemma wazzup_shrinks: "process_wazzup env (do_benchmark step) s = Ret s' \<Longrightarrow> length (polls s') \<le> length (polls s)"
  unfolding process_wazzup_def
  by (auto simp: outcome_iffs Let_def talks_def np_update_counter_def split: if_splits
      elim!: do_return_talks
      dest!: command_talks(1,2) do_exec_shrinks do_benchmark_shrinks)

lemma process_shrinks:
  "process_packet env (do_benchmark step) t buffer s = Ret s' \<Longrightarrow> length (polls s') \<le> length (polls s)"
  by (auto simp: process_packet_def split: if_splits
      dest: wazzup_shrinks open_req.shrinks close_req.shrinks read_req.shrinks write_req.shrinks lseek_req.shrinks
      intro: less_imp_le)

end

lemma process_within_shrinks:
  fixes s :: "('fs, 'z) nap_scheme"
  shows "process_within env d s = Ret (i, s') \<Longrightarrow> length (polls s') < length (polls s)"
proof (induction d arbitrary: s i s')
  case (Suc d)
  have d: "nap_step (process_within env d :: ('fs, 'z) nap_scheme \<Rightarrow> _)" by (rule nap_step.intro) (rule Suc.IH)
  from Suc.prems obtain ph buffer s1 where "usb_recv_packet env s = Ret (ph, buffer, s1)"
    "process_packet env (do_benchmark (process_within env d)) (ph_type ph) buffer s1 = Ret s'"
    by (auto simp: outcome_iffs)
  then show ?case using recv_bus(2) nap_step.process_shrinks [OF d] by fastforce
qed simp

interpretation within: nap_step "process_within env d" for env d
  by unfold_locales (rule process_within_shrinks)

interpretation nap: nap_step "recv_and_process_packet env" for env
  by unfold_locales (simp only: recv_and_process_packet_def process_within_shrinks)

text \<open>What the processing of a packet does depends on \<open>bench\<close> only at states with no more values.\<close>

lemma bench_loop_cong:
  assumes "nap_step f" and "\<And>t. length (polls t) \<le> length (polls s) \<Longrightarrow> f t = g t"
  shows "bench_loop f n s = bench_loop g n s"
  using assms(2)
proof (induction n arbitrary: s)
  case (Suc n)
  have "bench_loop f n s1 = bench_loop g n s1" if "f s = Ret (i, s1)" for i s1
    using nap_step.step_shrinks [OF assms(1) that] Suc.prems by (intro Suc.IH) auto
  then show ?case using Suc.prems [of s] by (auto intro!: obind_cong)
qed simp

lemma do_benchmark_cong:
  assumes "nap_step f" and "\<And>t. length (polls t) < length (polls s) \<Longrightarrow> f t = g t"
  shows "do_benchmark f s = do_benchmark g s"
  unfolding do_benchmark_def
proof (rule obind_cong)
  fix t assume t: "usb_send_packet \<lparr>ph_size = 0, ph_type = PACKET_BENCHMARK\<rparr> [] s = Ret t"
  have "bench_loop f n (t\<lparr>benchmarking := 1\<rparr>) = bench_loop g n (t\<lparr>benchmarking := 1\<rparr>)" for n
    using assms send_bus(2) [OF t] by (intro bench_loop_cong) auto
  then show "omap (\<lambda>s. s\<lparr>benchmarking := 0\<rparr>) (bench_loop f (Suc (length (polls t))) (t\<lparr>benchmarking := 1\<rparr>))
    = omap (\<lambda>s. s\<lparr>benchmarking := 0\<rparr>) (bench_loop g (Suc (length (polls t))) (t\<lparr>benchmarking := 1\<rparr>))" by (simp only:)
qed simp

lemma process_packet_cong:
  assumes "\<And>t. polls t = polls s \<Longrightarrow> b t = b' t"
  shows "process_packet env b ty buffer s = process_packet env b' ty buffer s"
  using assms by (simp add: process_packet_def process_wazzup_def np_update_counter_def Let_def)

lemma process_within_enough:
  fixes s :: "('fs, 'z) nap_scheme"
  assumes "length (polls s) < d"
  shows "process_within env d s = recv_and_process_packet env s"
  using assms
proof (induction "length (polls s)" arbitrary: s d rule: less_induct)
  case less
  obtain e where d: "d = Suc e" using less.prems by (cases d) auto
  have "process_packet env (do_benchmark (process_within env e)) ty buffer t =
      process_packet env (do_benchmark (process_within env (length (polls s)))) ty buffer t"
    if t: "length (polls t) < length (polls s)" for ty buffer and t :: "('fs, 'z) nap_scheme"
  proof (rule process_packet_cong)
    fix u :: "('fs, 'z) nap_scheme" assume u: "polls u = polls t"
    show "do_benchmark (process_within env e) u = do_benchmark (process_within env (length (polls s))) u"
    proof (rule do_benchmark_cong [OF within.nap_step_axioms])
      fix v :: "('fs, 'z) nap_scheme" assume v: "length (polls v) < length (polls u)"
      then have "length (polls v) < length (polls s)" using u t by simp
      with less.hyps [of v e] less.hyps [of v "length (polls s)"] less.prems d
      show "process_within env e v = process_within env (length (polls s)) v" by simp
    qed
  qed
  then show ?case
    unfolding d recv_and_process_packet_def process_within.simps
    by (intro obind_cong refl) (auto dest: recv_bus(2))
qed

section \<open>What the processing keeps\<close>

text \<open>The handle, and what a program has beside the variables of \<open>naplink.c\<close>.\<close>

definition nap_keeps :: "('fs, 'z) nap_scheme \<Rightarrow> ('fs, 'z) nap_scheme \<Rightarrow> bool" where
  "nap_keeps s s' \<longleftrightarrow> pl_open s' = pl_open s \<and> nap.more s' = nap.more s"

lemma nap_keeps_refl [simp]: "nap_keeps s s"
  by (simp add: nap_keeps_def)

lemma nap_keeps_trans: "nap_keeps s s1 \<Longrightarrow> nap_keeps s1 s2 \<Longrightarrow> nap_keeps s s2"
  by (simp add: nap_keeps_def)

lemma bus_nap_keeps:
  fixes s :: "('fs, 'z) nap_scheme"
  shows "bus_only s s' \<Longrightarrow> nap_keeps s s'"
  by (simp add: nap_keeps_def bus_only_nap)

lemma talks_nap_keeps:
  fixes s :: "('fs, 'z) nap_scheme"
  shows "talks bss s s' \<Longrightarrow> nap_keeps s s'"
  by (simp add: talks_def bus_nap_keeps)

lemma do_exec_keeps:
  "do_execps2 env f s = Ret (rv, s') \<Longrightarrow> nap_keeps s s'" "do_execiop env f s = Ret (rv, s') \<Longrightarrow> nap_keeps s s'"
  by (cases f; auto simp: do_execps2_def do_execiop_def outcome_iffs dest!: send_talks get_rv_talks talks_nap_keeps
      intro: nap_keeps_trans)+

lemma do_return_keeps: "do_return env rv data n s = Ret s' \<Longrightarrow> nap_keeps s s'"
  by (erule do_return_talks) (rule talks_nap_keeps)

lemma command_keeps: "do_quit env s = Ret (rv, s') \<Longrightarrow> nap_keeps s s'" "do_reset env s = Ret (rv, s') \<Longrightarrow> nap_keeps s s'"
  by (auto dest: command_talks talks_nap_keeps)

locale nap_step_keeps = nap_step +
  assumes step_keeps: "step s = Ret (i, s') \<Longrightarrow> nap_keeps s s'"
begin

lemma bench_loop_keeps: "bench_loop step n s = Ret s' \<Longrightarrow> nap_keeps s s'"
proof (induction n arbitrary: s)
  case (Suc n)
  then obtain i s1 where s1: "step s = Ret (i, s1)" "(if i \<noteq> PACKET_RETURN then bench_loop step n s1 else Ret s1) = Ret s'"
    by (auto simp: obind_Ret_iff)
  with Suc.IH [of s1] step_keeps [OF s1(1)] show ?case by (auto intro: nap_keeps_trans split: if_splits)
qed simp

lemma do_benchmark_keeps: "do_benchmark step s = Ret s' \<Longrightarrow> nap_keeps s s'"
proof -
  assume "do_benchmark step s = Ret s'"
  then obtain t u where run: "usb_send_packet \<lparr>ph_size = 0, ph_type = PACKET_BENCHMARK\<rparr> [] s = Ret t"
    "bench_loop step (Suc (length (polls t))) (t\<lparr>benchmarking := 1\<rparr>) = Ret u" "s' = u\<lparr>benchmarking := 0\<rparr>"
    by (auto simp: do_benchmark_def outcome_iffs simp del: bench_loop.simps)
  from talks_nap_keeps [OF send_talks [OF run(1)]] bench_loop_keeps [OF run(2)] run(3) show ?thesis
    by (simp add: nap_keeps_def)
qed

lemma process_keeps: "process_packet env (do_benchmark step) t buffer s = Ret s' \<Longrightarrow> nap_keeps s s'"
proof -
  assume run: "process_packet env (do_benchmark step) t buffer s = Ret s'"
  show "nap_keeps s s'"
  proof (cases "t = PACKET_WAZZUP")
    case True
    define u where "u = (if processing s = 0 then np_update_counter s else s)"
    have u: "nap_keeps s u" by (simp add: u_def np_update_counter_def nap_keeps_def)
    have "process_wazzup env (do_benchmark step) s = Ret s'" using run True by (simp add: process_packet_def)
    then obtain v where v: "s' = v\<lparr>commandWaiting := 0\<rparr>"
      "(if commandWaiting u = 0 then do_return env 0 None 0 u
         else if commandWaiting u = PACKET_RESET then omap snd (do_reset env u)
         else if commandWaiting u = PACKET_EXECPS2 then omap snd (do_execps2 env (commandBuffer u) u)
         else if commandWaiting u = PACKET_EXECIOP then omap snd (do_execiop env (commandBuffer u) u)
         else if commandWaiting u = PACKET_QUIT then omap snd (do_quit env u)
         else if commandWaiting u = PACKET_BENCHMARK then do_benchmark step u
         else Ret u) = Ret v"
      unfolding process_wazzup_def Let_def u_def [symmetric] omap_Ret_iff by blast
    from v(2) have "nap_keeps u v"
      by (auto simp: omap_Ret_iff split: if_splits dest: do_return_keeps command_keeps do_exec_keeps do_benchmark_keeps)
    with u v(1) show ?thesis by (simp add: nap_keeps_def)
  next
    case False
    with run show ?thesis
      unfolding nap_keeps_def process_packet_def
      by (auto split: if_splits dest: open_req.keeps close_req.keeps read_req.keeps write_req.keeps lseek_req.keeps)
  qed
qed

end

lemma process_within_keeps:
  fixes s :: "('fs, 'z) nap_scheme"
  shows "process_within env d s = Ret (i, s') \<Longrightarrow> nap_keeps s s'"
proof (induction d arbitrary: s i s')
  case (Suc d)
  have d: "nap_step_keeps (process_within env d :: ('fs, 'z) nap_scheme \<Rightarrow> _)"
    by unfold_locales (rule Suc.IH)
  from Suc.prems obtain ph buffer s1 where "usb_recv_packet env s = Ret (ph, buffer, s1)"
    "process_packet env (do_benchmark (process_within env d)) (ph_type ph) buffer s1 = Ret s'"
    by (auto simp: outcome_iffs)
  then show ?case using recv_bus(1) bus_nap_keeps nap_step_keeps.process_keeps [OF d] nap_keeps_trans by blast
qed simp

interpretation nap_kept: nap_step_keeps "recv_and_process_packet env" for env
  by unfold_locales (simp only: recv_and_process_packet_def process_within_keeps)

text \<open>The loop of the benchmark without a bound.\<close>

definition bench_all :: "('fs, 'e) uenv_scheme \<Rightarrow> ('fs, 'z) nap_scheme \<Rightarrow> ('fs, 'z) nap_scheme outcome" where
  "bench_all env s = bench_loop (recv_and_process_packet env) (Suc (length (polls s))) s"

text \<open>
  \<open>recv_and_process_packet\<close> and \<open>do_benchmark\<close> call each other without a bound. The bounds of the model never
  decide anything: it satisfies the equations of the code.
\<close>

lemma recv_and_process_unfold:
  fixes s :: "('fs, 'z) nap_scheme"
  shows "recv_and_process_packet env s =
     obind (usb_recv_packet env s) (\<lambda>(packet, buffer, s).
     omap (Pair (ph_type packet))
       (process_packet env (do_benchmark (recv_and_process_packet env)) (ph_type packet) buffer s))
   \<and> do_benchmark (recv_and_process_packet env) s =
     obind (usb_send_packet \<lparr>ph_size = 0, ph_type = PACKET_BENCHMARK\<rparr> [] s) (\<lambda>s.
     omap (\<lambda>s. s\<lparr>benchmarking := 0\<rparr>) (bench_all env (s\<lparr>benchmarking := 1\<rparr>)))
   \<and> bench_all env s =
     obind (recv_and_process_packet env s) (\<lambda>(i, s). if i \<noteq> PACKET_RETURN then bench_all env s else Ret s)"
proof (intro conjI)
  have "process_packet env (do_benchmark (process_within env (length (polls s)))) ty buffer t =
      process_packet env (do_benchmark (recv_and_process_packet env)) ty buffer t"
    if t: "length (polls t) < length (polls s)" for ty buffer and t :: "('fs, 'z) nap_scheme"
    by (rule process_packet_cong, rule do_benchmark_cong [OF within.nap_step_axioms])
      (use t in \<open>auto intro: process_within_enough\<close>)
  then show "recv_and_process_packet env s =
     obind (usb_recv_packet env s) (\<lambda>(packet, buffer, s).
     omap (Pair (ph_type packet))
       (process_packet env (do_benchmark (recv_and_process_packet env)) (ph_type packet) buffer s))"
    unfolding recv_and_process_packet_def [of env s] process_within.simps
    by (intro obind_cong refl) (auto dest: recv_bus(2))
  show "do_benchmark (recv_and_process_packet env) s =
     obind (usb_send_packet \<lparr>ph_size = 0, ph_type = PACKET_BENCHMARK\<rparr> [] s) (\<lambda>s.
     omap (\<lambda>s. s\<lparr>benchmarking := 0\<rparr>) (bench_all env (s\<lparr>benchmarking := 1\<rparr>)))"
    by (simp add: do_benchmark_def bench_all_def del: bench_loop.simps)
  show "bench_all env s =
     obind (recv_and_process_packet env s) (\<lambda>(i, s). if i \<noteq> PACKET_RETURN then bench_all env s else Ret s)"
    unfolding bench_all_def by (rule nap.bench_loop_enough) simp
qed

section \<open>Requests and polls\<close>

lemma process_received:
  assumes "usb_recv_packet env s = Ret (ph, buffer, s1)" and "recv_and_process_packet env s = Ret (i, s')"
  obtains b where "i = ph_type ph" "process_packet env b (ph_type ph) buffer s1 = Ret s'"
    and "talks [] s s1" "counter s1 = counter s" "processing s1 = processing s"
    and "commandWaiting s1 = commandWaiting s" "commandBuffer s1 = commandBuffer s"
proof -
  from assms obtain b where "i = ph_type ph" "process_packet env b (ph_type ph) buffer s1 = Ret s'"
    by (auto simp: recv_and_process_packet_def outcome_iffs)
  with that recv_talks [OF assms(1)] bus_only_nap [OF recv_bus(1) [OF assms(1)]] show thesis by blast
qed

text \<open>
  Every request of the console for a file is answered, with exactly one packet, which carries a value
  and perhaps data; it sets the counter of idle polls to 0 and leaves a waiting command waiting.
\<close>

theorem requests_answered:
  assumes "usb_recv_packet env s = Ret (ph, buffer, s1)" and "recv_and_process_packet env s = Ret (i, s')"
    and "ph_type ph \<in> {PACKET_OPEN, PACKET_CLOSE, PACKET_READ, PACKET_WRITE, PACKET_LSEEK}"
  shows "i = ph_type ph \<and> (\<exists>rv d. written (bus_log s') = written (bus_log s) @ return_packet rv d)
     \<and> counter s' = 0 \<and> commandWaiting s' = commandWaiting s \<and> commandBuffer s' = commandBuffer s"
proof -
  obtain b where run: "i = ph_type ph" "process_packet env b (ph_type ph) buffer s1 = Ret s'" "talks [] s s1"
    "commandWaiting s1 = commandWaiting s" "commandBuffer s1 = commandBuffer s"
    using process_received [OF assms(1,2)] .
  from assms(3) run(2) consider "process_open env buffer s1 = Ret s'" | "process_close env buffer s1 = Ret s'"
    | "process_read env buffer s1 = Ret s'" | "process_write env buffer s1 = Ret s'" | "process_lseek env buffer s1 = Ret s'"
    by (auto simp: process_packet_def)
  then have "(\<exists>rv d. written (bus_log s') = written (bus_log s1) @ return_packet rv d)
     \<and> counter s' = 0 \<and> commandWaiting s' = commandWaiting s1 \<and> commandBuffer s' = commandBuffer s1"
    by cases (simp_all only: open_req.one_answer open_req.keeps close_req.one_answer close_req.keeps
        read_req.one_answer read_req.keeps write_req.one_answer write_req.keeps lseek_req.one_answer lseek_req.keeps simp_thms)
  with run show ?thesis by (simp add: talks_def)
qed

text \<open>The packet of a command that waits.\<close>

definition command_packet :: "u32 \<Rightarrow> string option \<Rightarrow> byte list list" where
  "command_packet c file =
     (if c = 0 then return_packet 0 []
      else if c = PACKET_RESET \<or> c = PACKET_QUIT then transfers \<lparr>ph_size = 0, ph_type = c\<rparr> []
      else if c = PACKET_EXECPS2 \<or> c = PACKET_EXECIOP then
        (case file of
           None \<Rightarrow> []
         | Some f \<Rightarrow> transfers \<lparr>ph_size = of_nat (length f + 1), ph_type = c\<rparr> (bytes_of f @ [0]))
      else [])"

text \<open>
  C20. A poll of the console takes the command that waits: its packet is written, once, and no command waits
  any more, whatever the console returned. Without a command the poll is answered with 0; an execution of
  no file, and an unknown command, leave the poll without an answer. The counter of idle polls goes up by
  one unless the console is processing.
\<close>

theorem wazzup_takes_command:
  assumes "usb_recv_packet env s = Ret (ph, buffer, s1)" and "recv_and_process_packet env s = Ret (i, s')"
    and "ph_type ph = PACKET_WAZZUP" and "commandWaiting s \<noteq> PACKET_BENCHMARK"
  shows "commandWaiting s' = 0
     \<and> written (bus_log s') = written (bus_log s) @ command_packet (commandWaiting s) (commandBuffer s)
     \<and> counter s' = (if processing s = 0 then counter s + 1 else counter s)"
proof -
  obtain b where run: "process_packet env b (ph_type ph) buffer s1 = Ret s'" "talks [] s s1"
    "counter s1 = counter s" "processing s1 = processing s"
    "commandWaiting s1 = commandWaiting s" "commandBuffer s1 = commandBuffer s"
    using process_received [OF assms(1,2)] .
  define t where "t = (if processing s1 = 0 then np_update_counter s1 else s1)"
  have t: "bus_log t = bus_log s1" "commandWaiting t = commandWaiting s" "commandBuffer t = commandBuffer s"
    "counter t = (if processing s = 0 then counter s + 1 else counter s)"
    using run by (simp_all add: t_def np_update_counter_def)
  obtain u where u: "s' = u\<lparr>commandWaiting := 0\<rparr>"
    "(if commandWaiting t = 0 then do_return env 0 None 0 t
         else if commandWaiting t = PACKET_RESET then omap snd (do_reset env t)
         else if commandWaiting t = PACKET_EXECPS2 then omap snd (do_execps2 env (commandBuffer t) t)
         else if commandWaiting t = PACKET_EXECIOP then omap snd (do_execiop env (commandBuffer t) t)
         else if commandWaiting t = PACKET_QUIT then omap snd (do_quit env t)
         else if commandWaiting t = PACKET_BENCHMARK then b t
         else Ret t) = Ret u"
  proof -
    have "process_wazzup env b s1 = Ret s'" using run(1) assms(3) by (simp add: process_packet_def)
    with that show thesis unfolding process_wazzup_def Let_def t_def [symmetric] omap_Ret_iff by blast
  qed
  have "bus_only t u \<and> written (bus_log u) = written (bus_log t) @ command_packet (commandWaiting t) (commandBuffer t)"
  proof -
    have none: "do_execps2 env None t = Ret (-1, t)" "do_execiop env None t = Ret (-1, t)"
      by (simp_all add: do_execps2_def do_execiop_def)
    have "talks (return_packet 0 []) t u" if "do_return env 0 None 0 t = Ret u"
      using do_return_talks [OF that] by (metis take_0 nat_zero_as_int order_refl take_Nil)
    with u(2) t(2) assms(4) none show ?thesis
      by (cases "commandBuffer t")
        (auto simp: command_packet_def omap_Ret_iff talks_def split: if_splits dest!: command_talks)
  qed
  then have "written (bus_log u) = written (bus_log t) @ command_packet (commandWaiting t) (commandBuffer t)"
    "counter u = counter t"
    using bus_only_nap(5) [of t u] by simp_all
  then show ?thesis using u(1) t run(2) by (simp add: talks_def)
qed

section \<open>A cable with a console on it\<close>

definition nap_example :: "(int \<times> byte) list \<Rightarrow> byte list list \<Rightarrow> u32 \<Rightarrow> int nap" where
  "nap_example ps bi c = usb.extend \<lparr>pc = 7, polls = ps, controls = [0, 0, 0, 0, 0, 0, 0, 0, 0], bulk_in = bi, bus_log = []\<rparr>
     \<lparr>commandWaiting = c, commandBuffer = None, benchmarking = 0, np_path_list = [''/a''], counter = 5, processing = 0, pl_open = True\<rparr>"

text \<open>The values of the register when a packet comes, and when one is sent.\<close>

definition packet_comes :: "(int \<times> byte) list" where "packet_comes = [(1, 0x02), (1, 0x04)]"
definition packet_goes :: "(int \<times> byte) list" where "packet_goes = [(1, 0x20), (1, 0x00)]"

lemmas example_simps = nap_example_def packet_comes_def packet_goes_def usb.defs
lemmas cable_simps = usb_recv_packet_def usb_send_packet_def wait_set.simps wait_clear.simps CHECK_QLF_def SET_QLF_def
  CLEAR_QLF_def did_def usb_bulk_read_def recv_data_def send_data_def fresh_def dec_header_def enc_header_def poke_def

definition close_example :: "int nap" where
  "close_example = nap_example (packet_comes @ packet_goes) [le32 4 @ le32 PACKET_CLOSE, le32 1] PACKET_QUIT"

definition poll_example :: "int nap" where
  "poll_example = nap_example (packet_comes @ packet_goes @ packet_comes)
     [le32 0 @ le32 PACKET_WAZZUP, le32 4 @ le32 PACKET_RETURN, le32 0] PACKET_QUIT"

lemma close_example_run:
  "\<exists>s1. usb_recv_packet uenv_example close_example = Ret (\<lparr>ph_size = 4, ph_type = PACKET_CLOSE\<rparr>, Some (le32 1), s1)"
  "\<exists>s'. recv_and_process_packet uenv_example close_example = Ret (PACKET_CLOSE, s')"
proof -
  show "\<exists>s1. usb_recv_packet uenv_example close_example = Ret (\<lparr>ph_size = 4, ph_type = PACKET_CLOSE\<rparr>, Some (le32 1), s1)"
    by (simp add: close_example_def cable_simps example_simps uenv_example_def)
  then show "\<exists>s'. recv_and_process_packet uenv_example close_example = Ret (PACKET_CLOSE, s')"
    by (simp add: recv_and_process_packet_def close_example_def cable_simps example_simps uenv_example_def
        process_packet_def process_close_def field_def to_cint_def np_set_counter_def do_return_def of_cint_def)
qed

theorem requests_answered_witness:
  "\<exists>s'. recv_and_process_packet uenv_example close_example = Ret (PACKET_CLOSE, s')
     \<and> (\<exists>rv d. written (bus_log s') = return_packet rv d) \<and> commandWaiting s' = PACKET_QUIT"
proof -
  obtain s1 s' where run: "usb_recv_packet uenv_example close_example = Ret (\<lparr>ph_size = 4, ph_type = PACKET_CLOSE\<rparr>, Some (le32 1), s1)"
    "recv_and_process_packet uenv_example close_example = Ret (PACKET_CLOSE, s')"
    using close_example_run by blast
  have "bus_log close_example = []" "commandWaiting close_example = PACKET_QUIT"
    by (simp_all add: close_example_def example_simps)
  with requests_answered [OF run] run(2) show ?thesis by simp
qed

theorem wazzup_takes_command_witness:
  "\<exists>s'. recv_and_process_packet uenv_example poll_example = Ret (PACKET_WAZZUP, s')
     \<and> commandWaiting s' = 0 \<and> counter s' = 6 \<and> written (bus_log s') = [le32 0 @ le32 PACKET_QUIT]"
proof -
  obtain s1 where recv: "usb_recv_packet uenv_example poll_example = Ret (\<lparr>ph_size = 0, ph_type = PACKET_WAZZUP\<rparr>, None, s1)"
    by (simp add: poll_example_def cable_simps example_simps uenv_example_def)
  obtain s' where run: "recv_and_process_packet uenv_example poll_example = Ret (PACKET_WAZZUP, s')"
    by (simp add: recv_and_process_packet_def poll_example_def cable_simps example_simps uenv_example_def
        process_packet_def process_wazzup_def np_update_counter_def do_quit_def get_rv_def get_return_def)
  have "bus_log poll_example = []" "commandWaiting poll_example = PACKET_QUIT" "counter poll_example = 5"
    "processing poll_example = 0"
    by (simp_all add: poll_example_def example_simps)
  with wazzup_takes_command [OF recv run] run show ?thesis
    by (simp add: command_packet_def transfers_def enc_header_def)
qed

section \<open>Opening and reading files\<close>

text \<open>The first of some names that can be opened.\<close>

fun first_open :: "('fs, 'e) uenv_scheme \<Rightarrow> u32 \<Rightarrow> string list \<Rightarrow> 'fs \<Rightarrow> int \<times> 'fs" where
  "first_open env flags [] fs = (-1, fs)"
| "first_open env flags (p # ps) fs =
     (let (rv, fs) = np_open env p flags fs in if rv \<noteq> -1 then (rv, fs) else first_open env flags ps fs)"

lemma np_search_first:
  "\<forall>d \<in> set ds. length (d @ ''/'' @ name) < MAXPATHLEN \<Longrightarrow>
     np_search env name flags ds (-1) fs = Ret (first_open env flags (map (\<lambda>d. d @ ''/'' @ name) ds) fs)"
  by (induction ds arbitrary: fs) (auto simp: Let_def split: prod.splits)

lemma open_fields:
  "no_nul name \<Longrightarrow> c_str (drop 4 (le32 fl @ bytes_of name @ 0 # rest)) = Some name"
  "field 0 (Some (le32 fl @ bytes_of name @ 0 # rest)) = Ret fl"
  by (simp_all add: c_str_bytes_of field_def)

lemma open_searched:
  assumes "no_nul name" and "\<forall>d \<in> set (np_path_list s). length (d @ ''/'' @ name) < MAXPATHLEN"
    and "first_open env (np_flags fl) (name # map (\<lambda>d. d @ ''/'' @ name) (np_path_list s)) (pc s) = (rv, fs)"
  shows "process_open env (Some (le32 fl @ bytes_of name @ 0 # rest)) s =
     (if name = ''/dev/tty'' then do_return env 1 None 0 (s\<lparr>processing := 1, counter := 0\<rparr>)
      else do_return env rv None 0 (s\<lparr>processing := 1, counter := 0, pc := fs\<rparr>))"
proof (cases "name = ''/dev/tty''")
  case True
  then show ?thesis
    using open_fields(1) [OF assms(1), of fl rest]
    by (simp add: process_open_def np_set_counter_def Let_def del: append.simps)
next
  case False
  obtain rv1 fs1 where "np_open env name (np_flags fl) (pc s) = (rv1, fs1)" by (cases "np_open env name (np_flags fl) (pc s)")
  then show ?thesis
    using assms False np_search_first [OF assms(2), of env "np_flags fl" fs1]
    by (auto simp: process_open_def open_fields c_str_bytes_of np_set_counter_def np_get_path_def Let_def split: if_splits)
qed

text \<open>
  An \<open>OPEN\<close> request tries the name as it is and then, in order, in the directories of the list, and is
  answered with the first descriptor, or -1; \<open>/dev/tty\<close> is descriptor 1 without a call of \<open>open\<close>. A file is
  never opened for reading and writing, whatever the console asks for.
\<close>

theorem naplink_open_search:
  assumes "no_nul name" and "name \<noteq> ''/dev/tty''"
    and "\<forall>d \<in> set (np_path_list s). length (d @ ''/'' @ name) < MAXPATHLEN"
    and "first_open env (np_flags fl) (name # map (\<lambda>d. d @ ''/'' @ name) (np_path_list s)) (pc s) = (rv, fs)"
  shows "process_open env (Some (le32 fl @ bytes_of name @ 0 # rest)) s
       = do_return env rv None 0 (s\<lparr>processing := 1, counter := 0, pc := fs\<rparr>)
     \<and> np_flags fl AND 3 \<noteq> O_RDWR"
proof
  show "process_open env (Some (le32 fl @ bytes_of name @ 0 # rest)) s
       = do_return env rv None 0 (s\<lparr>processing := 1, counter := 0, pc := fs\<rparr>)"
    using open_searched [OF assms(1,3,4)] assms(2) by simp
  have "\<not> bit (np_flags fl AND 3) 1" by (auto simp: np_flags_def bit_simps)
  moreover have "bit (2 :: u32) 1" by simp
  ultimately show "np_flags fl AND 3 \<noteq> O_RDWR" by metis
qed

theorem naplink_open_search_witness:
  "process_open uenv_example (Some (le32 3 @ bytes_of ''f'' @ [0])) (nap_example [] [] 0) =
     do_return uenv_example (-1) None 0 ((nap_example [] [] 0)\<lparr>processing := 1, counter := 0, pc := 7\<rparr>)"
  using naplink_open_search [of "''f''" "nap_example [] [] 0" uenv_example 3 "-1" 7 "[]"]
  by (simp add: example_simps uenv_example_def np_open_def)

text \<open>
  A \<open>READ\<close> request is answered with the number of bytes read and exactly those bytes; with -1 and no
  bytes if the read fails.
\<close>

theorem naplink_read_reply:
  assumes "benchmarking s = 0" and "\<forall>fs k. os_malloc (uenv_os env) fs k" and "length bs \<le> unat n" and "unat n < 2 ^ 31 - 4"
    and "os_read (uenv_os env) (pc s) (to_cint fd) n = ((rv, bs), fs)" and "rv = int (length bs) \<or> rv = -1"
  shows "process_read env (Some (le32 fd @ le32 n @ rest)) s =
       (if rv = -1 then usb_send_packet \<lparr>ph_size = 4, ph_type = PACKET_RETURN\<rparr> (le32 (- 1)) (s\<lparr>counter := 0, pc := fs\<rparr>)
        else usb_send_packet \<lparr>ph_size = of_nat (4 + length bs), ph_type = PACKET_RETURN\<rparr>
          (le32 (of_nat (length bs)) @ bs) (s\<lparr>counter := 0, pc := fs\<rparr>))"
proof -
  have fields: "field 0 (Some (le32 fd @ le32 n @ rest)) = Ret fd" "field 4 (Some (le32 fd @ le32 n @ rest)) = Ret n"
    by (simp_all add: field_def)
  have "take (length bs) (poke 0 bs (fresh env (unat n))) = bs" by (simp add: poke_def)
  moreover have "length bs \<le> length (poke 0 bs (fresh env (unat n)))" using assms(3) by (simp add: poke_def)
  ultimately show ?thesis
    using assms by (auto simp: process_read_def fields np_set_counter_def do_return_def of_cint_def Let_def)
qed

theorem naplink_read_reply_witness:
  "process_read (uenv_example\<lparr>uenv_os := (uenv_os uenv_example)\<lparr>os_read := \<lambda>n fd k. ((2, [1, 2]), n + 1)\<rparr>\<rparr>)
      (Some (le32 9 @ le32 16)) (nap_example [] [] 0) =
     usb_send_packet \<lparr>ph_size = 6, ph_type = PACKET_RETURN\<rparr> (le32 2 @ [1, 2]) ((nap_example [] [] 0)\<lparr>counter := 0, pc := 8\<rparr>)"
  using naplink_read_reply [of "nap_example [] [] 0"
      "uenv_example\<lparr>uenv_os := (uenv_os uenv_example)\<lparr>os_read := \<lambda>n fd k. ((2, [1, 2]), n + 1)\<rparr>\<rparr>" "[1, 2]" 16 9 2 8 "[]"]
  by (simp add: example_simps uenv_example_def)

end
