(* ===== verification/Npsh.thy ===== *)
theory Npsh
  imports Mainloop Naplink
begin

text \<open>
  \<open>npsh.c\<close> and \<open>npsh.h\<close>, the shell for a console on a USB cable: its commands, which leave a command for the
  next poll of the console, its configuration file, and its loop with the time-out for a silent console.
\<close>

section \<open>State\<close>

record 'fs npsh = "'fs nap" +
  np_VERBOSE :: int
  np_DEBUG :: int
  np_log_to_file :: int
  np_log_f_fd :: int
  np_doloop :: int
  np_history :: string
  np_cmd :: string
  timeout :: u32
  timedout :: u32
  np_rl :: rl
  np_shown :: "string list"

text \<open>\<open>np_cmd\<close> is the static array \<open>cmd\<close>, which is empty at the start.\<close>

record 'fs nenv = "'fs uenv" +
  nenv_system :: "'fs \<Rightarrow> string \<Rightarrow> int \<times> 'fs"
  nenv_chdir :: "'fs \<Rightarrow> string \<Rightarrow> int \<times> 'fs"
  nenv_getwd :: "'fs \<Rightarrow> string option"
  nenv_fopen :: "'fs \<Rightarrow> string \<Rightarrow> string option"
  nenv_environ :: "string list"
  nenv_whitespace :: "char \<Rightarrow> bool"

definition npsh_init :: "'fs \<Rightarrow> 'fs npsh" where
  "npsh_init fs = nap.extend
     (usb.extend \<lparr>pc = fs, polls = [], controls = [], bulk_in = [], bus_log = []\<rparr>
       \<lparr>commandWaiting = 0, commandBuffer = None, benchmarking = 0, np_path_list = [], counter = 0, processing = 0,
        pl_open = False\<rparr>)
     \<lparr>np_VERBOSE = 0, np_DEBUG = 0, np_log_to_file = 0, np_log_f_fd = 0, np_doloop = 1, np_history = '''', np_cmd = '''',
      timeout = 0, timedout = 0, np_rl = rl_init, np_shown = []\<rparr>"

definition on_pc :: "('fs \<Rightarrow> 'a \<times> 'fs) \<Rightarrow> ('fs, 'z) npsh_scheme \<Rightarrow> 'a \<times> ('fs, 'z) npsh_scheme" where
  "on_pc f s = (let (r, fs) = f (pc s) in (r, s\<lparr>pc := fs\<rparr>))"

definition show_line :: "string \<Rightarrow> ('fs, 'z) npsh_scheme \<Rightarrow> ('fs, 'z) npsh_scheme" where
  "show_line l s = s\<lparr>np_shown := np_shown s @ [l]\<rparr>"

section \<open>Commands\<close>

definition npsh_system ::
  "('fs, 'e) nenv_scheme \<Rightarrow> string \<Rightarrow> ('fs, 'z) npsh_scheme \<Rightarrow> (int \<times> ('fs, 'z) npsh_scheme) outcome" where
  "npsh_system env clicom s = oguard (length clicom < 1024) (Ret (on_pc (\<lambda>fs. nenv_system env fs clicom) s))"

definition npsh_make ::
  "('fs, 'e) nenv_scheme \<Rightarrow> string \<Rightarrow> ('fs, 'z) npsh_scheme \<Rightarrow> (int \<times> ('fs, 'z) npsh_scheme) outcome" where
  "npsh_make env arg s = npsh_system env (''make '' @ arg) s"

definition npsh_list ::
  "('fs, 'e) nenv_scheme \<Rightarrow> string \<Rightarrow> ('fs, 'z) npsh_scheme \<Rightarrow> (int \<times> ('fs, 'z) npsh_scheme) outcome" where
  "npsh_list env arg s = npsh_system env (''ls -l '' @ arg) s"

definition npsh_pwd :: "('fs, 'e) nenv_scheme \<Rightarrow> ('fs, 'z) npsh_scheme \<Rightarrow> (int \<times> ('fs, 'z) npsh_scheme) outcome" where
  "npsh_pwd env s =
     (case nenv_getwd env (pc s) of
        None \<Rightarrow> Ret (1, s)
      | Some dir \<Rightarrow> oguard (length dir < 1024) (Ret (0, show_line dir s)))"

definition npsh_cd ::
  "('fs, 'e) nenv_scheme \<Rightarrow> string \<Rightarrow> ('fs, 'z) npsh_scheme \<Rightarrow> (int \<times> ('fs, 'z) npsh_scheme) outcome" where
  "npsh_cd env arg s =
     (let (r, s) = on_pc (\<lambda>fs. nenv_chdir env fs arg) s in
      if r = -1 then Ret (1, s) else omap (\<lambda>(r, s). (0, s)) (npsh_pwd env s))"

definition npsh_rename :: "('fs, 'z) npsh_scheme \<Rightarrow> int \<times> ('fs, 'z) npsh_scheme" where
  "npsh_rename s = (0, s)"

definition npsh_delete :: "('fs, 'z) npsh_scheme \<Rightarrow> int \<times> ('fs, 'z) npsh_scheme" where
  "npsh_delete s = (0, s)"

text \<open>
  The commands that start a program. \<open>fix_cmd_arg(arg, cmd, &argvlen)\<close> has its arguments in the wrong order:
  it reads \<open>cmd\<close> and writes to the array of the argument.
\<close>

definition npsh_exec ::
  "u32 \<Rightarrow> ('fs, 'e) nenv_scheme \<Rightarrow> nat \<Rightarrow> string \<Rightarrow> ('fs, 'z) npsh_scheme \<Rightarrow> (int \<times> ('fs, 'z) npsh_scheme) outcome" where
  "npsh_exec command env cap arg s =
     obind (fix_cmd_arg (is_file (uenv_os env) (pc s)) cap (np_cmd s)) (\<lambda>(argc, arg).
     Ret (0, set_cmdbuf (np_cmd s) (set_command command s)))"

definition npsh_execeiop ::
  "('fs, 'e) nenv_scheme \<Rightarrow> nat \<Rightarrow> string \<Rightarrow> ('fs, 'z) npsh_scheme \<Rightarrow> (int \<times> ('fs, 'z) npsh_scheme) outcome" where
  "npsh_execeiop = npsh_exec PACKET_EXECIOP"

definition npsh_execee ::
  "('fs, 'e) nenv_scheme \<Rightarrow> nat \<Rightarrow> string \<Rightarrow> ('fs, 'z) npsh_scheme \<Rightarrow> (int \<times> ('fs, 'z) npsh_scheme) outcome" where
  "npsh_execee = npsh_exec PACKET_EXECPS2"

definition npsh_reset :: "('fs, 'z) npsh_scheme \<Rightarrow> int \<times> ('fs, 'z) npsh_scheme" where
  "npsh_reset s = (0, set_command PACKET_RESET s)"

definition npsh_benchmark :: "('fs, 'z) npsh_scheme \<Rightarrow> int \<times> ('fs, 'z) npsh_scheme" where
  "npsh_benchmark s = (0, set_command PACKET_BENCHMARK s)"

definition npsh_quit :: "('fs, 'z) npsh_scheme \<Rightarrow> int \<times> ('fs, 'z) npsh_scheme" where
  "npsh_quit s = (0, (set_command PACKET_QUIT s)\<lparr>np_doloop := 0\<rparr>)"

definition npsh_status :: "('fs, 'z) npsh_scheme \<Rightarrow> int \<times> ('fs, 'z) npsh_scheme" where
  "npsh_status s =
     (0, show_line (if np_VERBOSE s \<noteq> 0 then '' verbose mode is on'' else '' verbose mode is off'')
           (show_line (if np_log_to_file s \<noteq> 0 then '' logging to file'' else '' logging to stdout'') s))"

definition npsh_log ::
  "('fs, 'e) nenv_scheme \<Rightarrow> nat \<Rightarrow> string \<Rightarrow> ('fs, 'z) npsh_scheme \<Rightarrow> (int \<times> ('fs, 'z) npsh_scheme) outcome" where
  "npsh_log env cap arg s =
     obind (trim_arg cap arg) (\<lambda>arg.
     if arg = ''stdout'' \<or> arg = '''' then
       let s = (if np_log_to_file s \<noteq> 0 then snd (on_pc (\<lambda>fs. os_close (uenv_os env) fs (np_log_f_fd s)) s) else s)
       in Ret (0, s\<lparr>np_log_to_file := 0\<rparr>)
     else
       let (fd, s) = on_pc (\<lambda>fs. os_open (uenv_os env) fs arg (O_WRONLY OR O_CREAT OR O_TRUNC) LOG_F_MODE)
             (s\<lparr>np_log_to_file := 1\<rparr>)
       in Ret (0, s\<lparr>np_log_f_fd := fd\<rparr>))"

definition npsh_verbose :: "('fs, 'z) npsh_scheme \<Rightarrow> int \<times> ('fs, 'z) npsh_scheme" where
  "npsh_verbose s = (0, s\<lparr>np_VERBOSE := (if np_VERBOSE s \<noteq> 0 then 0 else 1)\<rparr>)"

definition npsh_debug :: "('fs, 'z) npsh_scheme \<Rightarrow> int \<times> ('fs, 'z) npsh_scheme" where
  "npsh_debug s = (0, s\<lparr>np_DEBUG := (if np_DEBUG s \<noteq> 0 then 0 else 1)\<rparr>)"

text \<open>
  \<open>cli_reconnect\<close> and \<open>cli_dump\<close> are not in the table. The tests of \<open>cli_dump\<close> are those of \<open>strcmp\<close> for a
  difference, and it returns no value.
\<close>

definition npsh_reconnect :: "('fs, 'z) npsh_scheme \<Rightarrow> int \<times> ('fs, 'z) npsh_scheme" where
  "npsh_reconnect s = (0, s)"

definition npsh_dump :: "nat \<Rightarrow> string \<Rightarrow> ('fs, 'z) npsh_scheme \<Rightarrow> ('fs, 'z) npsh_scheme outcome" where
  "npsh_dump cap arg s =
     omap (\<lambda>arg. if arg \<noteq> ''screen'' then show_line '' exception dump to screen'' s
       else if arg \<noteq> ''console'' then show_line '' exception dump to console'' s else s) (trim_arg cap arg)"

text \<open>So the word \<open>screen\<close> announces the console and \<open>console\<close> the screen.\<close>

lemma npsh_dump_swapped:
  "trim_arg cap arg = Ret ''screen'' \<Longrightarrow> npsh_dump cap arg s = Ret (show_line '' exception dump to console'' s)"
  "trim_arg cap arg = Ret ''console'' \<Longrightarrow> npsh_dump cap arg s = Ret (show_line '' exception dump to screen'' s)"
  by (simp_all add: npsh_dump_def)

section \<open>The table\<close>

datatype np_cli =
  Np_help | Np_benchmark | Np_cd | Np_delete | Np_debug | Np_execee | Np_execeiop | Np_list | Np_log
  | Np_make | Np_pwd | Np_quit | Np_rename | Np_reset | Np_status | Np_verbose

record NPSH_COMMAND =
  np_name :: string
  np_func :: np_cli
  np_doc :: string

definition npsh_commands :: "NPSH_COMMAND list" where
  "npsh_commands =
    [\<lparr>np_name = ''?'', np_func = Np_help, np_doc = ''Synonym for '' @ [CHR 0x60] @ ''help'' @ [CHR 0x27]\<rparr>,
     \<lparr>np_name = ''benchmark'', np_func = Np_benchmark, np_doc = ''Small speed test.''\<rparr>,
     \<lparr>np_name = ''cd'', np_func = Np_cd, np_doc = ''Change to directory <dir>''\<rparr>,
     \<lparr>np_name = ''delete'', np_func = Np_delete, np_doc = ''Delete <file>''\<rparr>,
     \<lparr>np_name = ''debug'', np_func = Np_debug, np_doc = ''Show debug messages. ( alt-d )''\<rparr>,
     \<lparr>np_name = ''eeexec'', np_func = Np_execee, np_doc = ''Execute file on EE''\<rparr>,
     \<lparr>np_name = ''execee'', np_func = Np_execee, np_doc = ''Execute file on EE''\<rparr>,
     \<lparr>np_name = ''execiop'', np_func = Np_execeiop, np_doc = ''Execute file on IOP''\<rparr>,
     \<lparr>np_name = ''help'', np_func = Np_help, np_doc = ''Display this text''\<rparr>,
     \<lparr>np_name = ''iopexec'', np_func = Np_execeiop, np_doc = ''Execute file on IOP''\<rparr>,
     \<lparr>np_name = ''list'', np_func = Np_list, np_doc = ''List files in <dir>''\<rparr>,
     \<lparr>np_name = ''log'', np_func = Np_log, np_doc = ''Log to <file>.''\<rparr>,
     \<lparr>np_name = ''ls'', np_func = Np_list, np_doc = ''Synonym for '' @ [CHR 0x60] @ ''list'' @ [CHR 0x27]\<rparr>,
     \<lparr>np_name = ''make'', np_func = Np_make, np_doc = ''will execute make <arg>''\<rparr>,
     \<lparr>np_name = ''pwd'', np_func = Np_pwd, np_doc = ''Print the current working directory ( alt-p )''\<rparr>,
     \<lparr>np_name = ''quit'', np_func = Np_quit, np_doc = ''Quit using Fileman ( alt-q )''\<rparr>,
     \<lparr>np_name = ''rename'', np_func = Np_rename, np_doc = ''Rename <file> to <newname>''\<rparr>,
     \<lparr>np_name = ''reset'', np_func = Np_reset, np_doc = ''Resets ps2 side ( alt-r )''\<rparr>,
     \<lparr>np_name = ''status'', np_func = Np_status, np_doc = ''Displays open descriptors. ( alt-s )''\<rparr>,
     \<lparr>np_name = ''verbose'', np_func = Np_verbose, np_doc = ''Show verbose messages. ( alt-v )''\<rparr>]"

fun npsh_find_in :: "NPSH_COMMAND list \<Rightarrow> string \<Rightarrow> NPSH_COMMAND option" where
  "npsh_find_in [] name = None"
| "npsh_find_in (c # cs) name = (if name = np_name c then Some c else npsh_find_in cs name)"

definition npsh_find_command :: "string \<Rightarrow> NPSH_COMMAND option" where
  "npsh_find_command name = npsh_find_in npsh_commands name"

text \<open>
  \<open>command_generator\<close> of \<open>npsh.c\<close>: the text of the function in \<open>pksh.c\<close>, over this table. \<open>npsh_completed\<close> is
  what readline collects from it.
\<close>

definition npsh_command_generator :: "string \<Rightarrow> int \<Rightarrow> nat \<times> nat \<Rightarrow> string option \<times> nat \<times> nat" where
  "npsh_command_generator text state st = command_generator (map np_name npsh_commands) text state st"

fun npsh_completed :: "nat \<Rightarrow> string \<Rightarrow> int \<Rightarrow> nat \<times> nat \<Rightarrow> string list" where
  "npsh_completed 0 text state st = []"
| "npsh_completed (Suc n) text state st =
     (case npsh_command_generator text state st of
        (None, st) \<Rightarrow> []
      | (Some name, st) \<Rightarrow> name # npsh_completed n text 1 st)"

fun npsh_help_rows :: "nat \<Rightarrow> string \<Rightarrow> NPSH_COMMAND list \<Rightarrow> string list" where
  "npsh_help_rows printed row [] = (if printed \<noteq> 0 then [row] else [])"
| "npsh_help_rows printed row (c # cs) =
     (if printed = 6 then row # npsh_help_rows 1 ('' '' @ np_name c @ [CHR 0x09]) cs
      else npsh_help_rows (Suc printed) (row @ '' '' @ np_name c @ [CHR 0x09]) cs)"

definition npsh_help :: "string \<Rightarrow> ('fs, 'z) npsh_scheme \<Rightarrow> int \<times> ('fs, 'z) npsh_scheme" where
  "npsh_help arg s =
     (let lines = map (\<lambda>c. np_name c @ [CHR 0x09, CHR 0x09] @ np_doc c @ ''.'')
            (filter (\<lambda>c. arg = '''' \<or> arg = np_name c) npsh_commands);
          lines = (if lines = []
            then ('' No commands match '' @ [CHR 0x27] @ arg @ [CHR 0x27] @ ''. Available commands are:'')
              # npsh_help_rows 0 '''' npsh_commands
            else lines)
      in (0, s\<lparr>np_shown := np_shown s @ lines\<rparr>))"

fun npsh_func ::
  "('fs, 'e) nenv_scheme \<Rightarrow> np_cli \<Rightarrow> nat \<Rightarrow> string \<Rightarrow> ('fs, 'z) npsh_scheme \<Rightarrow> (int \<times> ('fs, 'z) npsh_scheme) outcome" where
  "npsh_func env Np_help cap arg s = Ret (npsh_help arg s)"
| "npsh_func env Np_benchmark cap arg s = Ret (npsh_benchmark s)"
| "npsh_func env Np_cd cap arg s = npsh_cd env arg s"
| "npsh_func env Np_delete cap arg s = Ret (npsh_delete s)"
| "npsh_func env Np_debug cap arg s = Ret (npsh_debug s)"
| "npsh_func env Np_execee cap arg s = npsh_execee env cap arg s"
| "npsh_func env Np_execeiop cap arg s = npsh_execeiop env cap arg s"
| "npsh_func env Np_list cap arg s = npsh_list env arg s"
| "npsh_func env Np_log cap arg s = npsh_log env cap arg s"
| "npsh_func env Np_make cap arg s = npsh_make env arg s"
| "npsh_func env Np_pwd cap arg s = npsh_pwd env s"
| "npsh_func env Np_quit cap arg s = Ret (npsh_quit s)"
| "npsh_func env Np_rename cap arg s = Ret (npsh_rename s)"
| "npsh_func env Np_reset cap arg s = Ret (npsh_reset s)"
| "npsh_func env Np_status cap arg s = Ret (npsh_status s)"
| "npsh_func env Np_verbose cap arg s = Ret (npsh_verbose s)"

text \<open>A line in an array of \<open>cap\<close> characters. Another word than a command is an error here.\<close>

definition npsh_execute_line ::
  "('fs, 'e) nenv_scheme \<Rightarrow> nat \<Rightarrow> string \<Rightarrow> ('fs, 'z) npsh_scheme \<Rightarrow> (int \<times> ('fs, 'z) npsh_scheme) outcome" where
  "npsh_execute_line env cap line s =
     (let s = np_set_counter 0 s;
          ws = nenv_whitespace env;
          blanks = takeWhile ws line;
          word = takeWhile (\<lambda>c. \<not> ws c) (drop (length blanks) line);
          i = length blanks + length word;
          rest = (if i < length line then drop (Suc i) line else '''');
          arg = dropWhile ws rest
      in case npsh_find_command word of
           None \<Rightarrow> Ret (-1, s)
         | Some command \<Rightarrow> npsh_func env (np_func command) (cap - (length line - length arg)) arg s)"

section \<open>The configuration file\<close>

definition npsh_config_line ::
  "('fs, 'e) nenv_scheme \<Rightarrow> string \<Rightarrow> ('fs, 'z) npsh_scheme \<Rightarrow> ('fs, 'z) npsh_scheme outcome" where
  "npsh_config_line env line s =
     (if line \<noteq> '''' \<and> hd line = CHR ''#'' then Ret s
      else
        let (key, value) = read_pair line in
        obind (trim_arg MAXPATHLEN key) (\<lambda>key.
        let ptr = stripwhite (nenv_whitespace env) value;
            cap = MAXPATHLEN - length (takeWhile (nenv_whitespace env) value) in
        if key = ''log'' then (if ptr = '''' then Crash else omap snd (npsh_log env cap ptr s))
        else if key = ''verbose'' then Ret (if ptr = ''yes'' then s\<lparr>np_VERBOSE := 1\<rparr> else s)
        else if key = ''debug'' then Ret (if ptr = ''yes'' then s\<lparr>np_DEBUG := 1\<rparr> else s)
        else if key = ''histfile'' then
          (if ptr \<noteq> '''' then oguard (length ptr < MAXPATHLEN) (Ret (s\<lparr>np_history := ptr\<rparr>)) else Ret s)
        else if key = ''path'' then
          (if ptr \<noteq> '''' then omap (\<lambda>path. np_set_path path s) (path_split (uenv_room env) ptr) else Ret s)
        else if key = ''suffix'' then
          (if ptr \<noteq> '''' then omap (\<lambda>ls. s\<lparr>np_rl := common_set_suffix ls (np_rl s)\<rparr>) (path_split (uenv_room env) ptr)
           else Ret s)
        else if key = ''home'' then
          Ret (if ptr \<noteq> '''' then snd (on_pc (\<lambda>fs. nenv_chdir env fs ptr) s) else s)
        else if key = ''timeout'' then Ret (if ptr \<noteq> '''' then s\<lparr>timeout := of_cint (strtol 10 ptr)\<rparr> else s)
        else Ret s))"

function npsh_config_lines ::
  "('fs, 'e) nenv_scheme \<Rightarrow> string \<Rightarrow> ('fs, 'z) npsh_scheme \<Rightarrow> ('fs, 'z) npsh_scheme outcome" where
  "npsh_config_lines env file s =
     (case read_line file of
        None \<Rightarrow> Ret s
      | Some (line, rest) \<Rightarrow>
          obind (npsh_config_line env (takeWhile (\<lambda>c. c \<noteq> NUL) line) s) (npsh_config_lines env rest))"
  by pat_completeness auto
termination by (relation "measure (\<lambda>(env, file, s). length file)") (auto dest: read_line_shorter)

declare npsh_config_lines.simps [simp del]

definition npsh_read_config ::
  "('fs, 'e) nenv_scheme \<Rightarrow> ('fs, 'z) npsh_scheme \<Rightarrow> ('fs, 'z) npsh_scheme outcome" where
  "npsh_read_config env s =
     (let home = get_home (nenv_environ env);
          value = (case home of Some line \<Rightarrow> snd (read_pair line) | None \<Rightarrow> ''./'');
          name = value @ ''/.npshrc'' in
      oguard (length (case home of Some line \<Rightarrow> line | None \<Rightarrow> '''') < MAXPATHLEN \<and> length name < MAXPATHLEN)
        (case nenv_fopen env (pc s) name of
           None \<Rightarrow> Ret s
         | Some file \<Rightarrow> npsh_config_lines env file s))"

section \<open>The loop\<close>

text \<open>The keys of \<open>initialize_readline\<close>.\<close>

definition npsh_key :: "char \<Rightarrow> np_cli option" where
  "npsh_key c =
     (if c = CHR ''p'' then Some Np_pwd else if c = CHR ''q'' then Some Np_quit
      else if c = CHR ''r'' then Some Np_reset else if c = CHR ''s'' then Some Np_status
      else if c = CHR ''v'' then Some Np_verbose else None)"

text \<open>\<open>rl_callback_read_char\<close>, with the line that is edited.\<close>

definition npsh_read_char ::
  "('fs, 'e) nenv_scheme \<Rightarrow> keyboard \<Rightarrow> string \<Rightarrow> ('fs, 'z) npsh_scheme \<Rightarrow> ('fs, 'z) npsh_scheme outcome" where
  "npsh_read_char env key line s =
     (case key of
        Typed \<Rightarrow> Ret s
      | Meta c \<Rightarrow> (case npsh_key c of None \<Rightarrow> Ret s | Some f \<Rightarrow> omap snd (npsh_func env f 0 '''' s))
      | Entered cap \<Rightarrow> if line \<noteq> '''' then omap snd (npsh_execute_line env cap line s) else Ret s)"

text \<open>What \<open>select\<close> finds in a turn: it fails, there is nothing, or the terminal can be read.\<close>

datatype npsh_event = Np_failed | Np_nothing | Np_ready keyboard string

fun naplink_times :: "nat \<Rightarrow> ('fs, 'e) uenv_scheme \<Rightarrow> ('fs, 'z) nap_scheme \<Rightarrow> ('fs, 'z) nap_scheme outcome" where
  "naplink_times 0 env s = Ret s"
| "naplink_times (Suc n) env s = obind (naplink_process env s) (naplink_times n env)"

text \<open>The result of \<open>initialize_naplink\<close> is ignored when the cable is opened again.\<close>

definition npsh_reopen :: "('fs, 'e) nenv_scheme \<Rightarrow> ('fs, 'z) npsh_scheme \<Rightarrow> ('fs, 'z) npsh_scheme outcome" where
  "npsh_reopen env s =
     obind (initialize_naplink env s) (\<lambda>(r, s).
     obind (naplink_check (np_set_counter 0 s)) (\<lambda>s.
     obind (naplink_process env s) (\<lambda>s.
     Ret (np_set_processing 0 (s\<lparr>timedout := 0\<rparr>)))))"

definition npsh_keys :: "('fs, 'e) nenv_scheme \<Rightarrow> npsh_event \<Rightarrow> ('fs, 'z) npsh_scheme \<Rightarrow> ('fs, 'z) npsh_scheme outcome" where
  "npsh_keys env e s =
     (case e of
        Np_ready key line \<Rightarrow>
          obind (if timedout s \<noteq> 0 then npsh_reopen env s else Ret s) (npsh_read_char env key line)
      | _ \<Rightarrow> Ret s)"

definition npsh_expire :: "('fs, 'z) npsh_scheme \<Rightarrow> ('fs, 'z) npsh_scheme outcome" where
  "npsh_expire s =
     (if timeout s > 0 \<and> np_get_counter s > timeout s
      then omap (\<lambda>(r, s). (np_set_counter 0 s)\<lparr>timedout := 1\<rparr>) (naplink_close s) else Ret s)"

definition npsh_turn :: "('fs, 'e) nenv_scheme \<Rightarrow> npsh_event \<Rightarrow> ('fs, 'z) npsh_scheme \<Rightarrow> ('fs, 'z) npsh_scheme outcome" where
  "npsh_turn env e s =
     obind (if timedout s = 0 then obind (naplink_check s) (\<lambda>s. omap (np_set_processing 0) (naplink_process env s))
            else Ret s) (\<lambda>s.
     obind (npsh_keys env e s) (\<lambda>s.
     obind (if timedout s = 0 then naplink_times 10 env s else Ret s) npsh_expire))"

fun npsh_loop :: "('fs, 'e) nenv_scheme \<Rightarrow> npsh_event list \<Rightarrow> ('fs, 'z) npsh_scheme \<Rightarrow> ('fs, 'z) npsh_scheme outcome" where
  "npsh_loop env [] s = (if np_doloop s = 0 then Ret s else Hang)"
| "npsh_loop env (e # es) s = (if np_doloop s = 0 then Ret s else obind (npsh_turn env e s) (npsh_loop env es))"

text \<open>The part of \<open>main\<close> behind the loop.\<close>

definition npsh_end :: "('fs, 'e) nenv_scheme \<Rightarrow> ('fs, 'z) npsh_scheme \<Rightarrow> ('fs, 'z) npsh_scheme outcome" where
  "npsh_end env s =
     omap (\<lambda>(r, s). if np_log_to_file s \<noteq> 0 then snd (on_pc (\<lambda>fs. os_close (uenv_os env) fs (np_log_f_fd s)) s) else s)
       (naplink_close s)"

definition npsh_main :: "('fs, 'e) nenv_scheme \<Rightarrow> npsh_event list \<Rightarrow> ('fs, 'z) npsh_scheme \<Rightarrow> (int \<times> ('fs, 'z) npsh_scheme) outcome" where
  "npsh_main env es s =
     obind (npsh_read_config env (s\<lparr>np_VERBOSE := 0\<rparr>)) (\<lambda>s.
     obind (initialize_naplink env s) (\<lambda>(r, s).
     if r \<noteq> 0 then Ret (1, s)
     else
       obind (naplink_check (np_set_counter 0 s)) (\<lambda>s.
       obind (naplink_process env s) (\<lambda>s.
       obind (npsh_loop env es s) (\<lambda>s.
       omap (Pair 0) (npsh_end env s))))))"

section \<open>Commands leave the cable alone\<close>

text \<open>What no command changes: the cable, the handle, the time-out, and the array \<open>cmd\<close>.\<close>

definition npsh_same :: "('fs, 'z) npsh_scheme \<Rightarrow> ('fs, 'z) npsh_scheme \<Rightarrow> bool" where
  "npsh_same s s' \<longleftrightarrow> polls s' = polls s \<and> controls s' = controls s \<and> bulk_in s' = bulk_in s \<and> bus_log s' = bus_log s
     \<and> pl_open s' = pl_open s \<and> timedout s' = timedout s \<and> timeout s' = timeout s \<and> np_cmd s' = np_cmd s"

lemma npsh_same_refl [simp]: "npsh_same s s"
  by (simp add: npsh_same_def)

lemma npsh_same_trans: "npsh_same s s1 \<Longrightarrow> npsh_same s1 s2 \<Longrightarrow> npsh_same s s2"
  by (simp add: npsh_same_def)

lemma npsh_same_on_pc [simp]: "npsh_same s (snd (on_pc f s))"
  by (simp add: npsh_same_def on_pc_def split: prod.splits)

lemma npsh_system_same: "npsh_system env c s = Ret (r, s') \<Longrightarrow> npsh_same s s'"
  using npsh_same_on_pc [of s "\<lambda>fs. nenv_system env fs c"]
  by (auto simp: npsh_system_def oguard_Ret_iff simp del: npsh_same_on_pc dest: arg_cong [where f = snd])

lemma npsh_pwd_same: "npsh_pwd env s = Ret (r, s') \<Longrightarrow> npsh_same s s'"
  by (auto simp: npsh_pwd_def oguard_Ret_iff show_line_def npsh_same_def split: option.splits)

lemma npsh_cd_same: "npsh_cd env arg s = Ret (r, s') \<Longrightarrow> npsh_same s s'"
proof -
  assume run: "npsh_cd env arg s = Ret (r, s')"
  obtain q s1 where q: "on_pc (\<lambda>fs. nenv_chdir env fs arg) s = (q, s1)" by (cases "on_pc (\<lambda>fs. nenv_chdir env fs arg) s")
  have "npsh_same s s1" using npsh_same_on_pc [of s "\<lambda>fs. nenv_chdir env fs arg"] by (simp add: q)
  with run q show ?thesis
    by (auto simp: npsh_cd_def omap_Ret_iff split: if_splits dest!: npsh_pwd_same intro: npsh_same_trans)
qed

lemma npsh_log_same: "npsh_log env cap arg s = Ret (r, s') \<Longrightarrow> npsh_same s s'"
  by (auto simp: npsh_log_def outcome_iffs on_pc_def npsh_same_def Let_def case_prod_beta split: if_splits)

lemma npsh_exec_same: "npsh_exec c env cap arg s = Ret (r, s') \<Longrightarrow> npsh_same s s'"
  by (auto simp: npsh_exec_def outcome_iffs npsh_same_def set_cmdbuf_def set_command_def)

lemma npsh_func_same: "npsh_func env f cap arg s = Ret (r, s') \<Longrightarrow> npsh_same s s'"
  by (cases f)
    (auto simp: npsh_help_def npsh_benchmark_def npsh_delete_def npsh_debug_def npsh_quit_def npsh_rename_def npsh_reset_def
      npsh_status_def npsh_verbose_def npsh_execee_def npsh_execeiop_def npsh_list_def npsh_make_def show_line_def
      set_command_def npsh_same_def Let_def
      dest!: npsh_cd_same npsh_exec_same npsh_system_same npsh_log_same npsh_pwd_same)

lemma npsh_line_same: "npsh_execute_line env cap line s = Ret (r, s') \<Longrightarrow> npsh_same s s'"
proof -
  assume run: "npsh_execute_line env cap line s = Ret (r, s')"
  have "npsh_same s (np_set_counter 0 s)" by (simp add: npsh_same_def np_set_counter_def)
  moreover have "npsh_same (np_set_counter 0 s) s'"
    using run by (auto simp: npsh_execute_line_def Let_def dest: npsh_func_same split: option.splits)
  ultimately show ?thesis by (rule npsh_same_trans)
qed

lemma npsh_read_char_same: "npsh_read_char env key line s = Ret s' \<Longrightarrow> npsh_same s s'"
  by (auto simp: npsh_read_char_def outcome_iffs dest: npsh_func_same npsh_line_same
      split: keyboard.splits option.splits if_splits)

section \<open>Programs without a name\<close>

lemma fix_cmd_arg_empty: "fix_cmd_arg isf cap '''' = Ret (0, '''')"
  by (simp add: fix_cmd_arg_def fix_loop.simps)

lemma npsh_execute_word:
  assumes "name \<noteq> ''''" and "\<forall>c \<in> set name. \<not> nenv_whitespace env c" and "nenv_whitespace env CHR '' ''"
    and "npsh_find_command name = Some command"
  shows "\<exists>cap' arg'. npsh_execute_line env cap (name @ '' '' @ arg) s =
     npsh_func env (np_func command) cap' arg' (np_set_counter 0 s)"
proof -
  have blanks: "takeWhile (nenv_whitespace env) (name @ '' '' @ arg) = ''''" using assms(1,2) by (cases name) auto
  have name: "takeWhile (\<lambda>c. \<not> nenv_whitespace env c) (name @ '' '' @ arg) = name"
    using assms(2,3) by (simp add: takeWhile_append2)
  show ?thesis
    unfolding npsh_execute_line_def Let_def blanks list.size drop_0 name assms(4) by auto
qed

lemma npsh_exec_runs:
  "npsh_func env Np_execee cap arg s =
     obind (fix_cmd_arg (is_file (uenv_os env) (pc s)) cap (np_cmd s)) (\<lambda>(argc, arg).
     Ret (0, set_cmdbuf (np_cmd s) (set_command PACKET_EXECPS2 s)))"
  "npsh_func env Np_execeiop cap arg s =
     obind (fix_cmd_arg (is_file (uenv_os env) (pc s)) cap (np_cmd s)) (\<lambda>(argc, arg).
     Ret (0, set_cmdbuf (np_cmd s) (set_command PACKET_EXECIOP s)))"
  by (simp_all add: npsh_execee_def npsh_execeiop_def npsh_exec_def)

text \<open>
  No program can be started: \<open>cmd\<close> is empty, as no command writes to it, and whatever is typed behind
  \<open>execee\<close>, \<open>eeexec\<close>, \<open>execiop\<close> or \<open>iopexec\<close> the command that is left for the console has an empty name. Its
  packet has a body of one byte, the terminator.
\<close>

theorem npsh_programs_unnamed:
  assumes "np_cmd s = ''''" and "nenv_whitespace env CHR '' ''" and "\<forall>c \<in> set name. \<not> nenv_whitespace env c"
    and "(name, c) \<in> {(''execee'', PACKET_EXECPS2), (''eeexec'', PACKET_EXECPS2),
      (''execiop'', PACKET_EXECIOP), (''iopexec'', PACKET_EXECIOP)}"
  shows "npsh_execute_line env cap (name @ '' '' @ arg) s =
       Ret (0, s\<lparr>counter := 0, commandWaiting := c, commandBuffer := Some ''''\<rparr>)
     \<and> command_packet c (Some '''') = [le32 1 @ le32 c, [0]]"
proof
  have find: "npsh_find_command ''execee'' = Some \<lparr>np_name = ''execee'', np_func = Np_execee, np_doc = ''Execute file on EE''\<rparr>"
    "npsh_find_command ''eeexec'' = Some \<lparr>np_name = ''eeexec'', np_func = Np_execee, np_doc = ''Execute file on EE''\<rparr>"
    "npsh_find_command ''execiop'' = Some \<lparr>np_name = ''execiop'', np_func = Np_execeiop, np_doc = ''Execute file on IOP''\<rparr>"
    "npsh_find_command ''iopexec'' = Some \<lparr>np_name = ''iopexec'', np_func = Np_execeiop, np_doc = ''Execute file on IOP''\<rparr>"
    by (simp_all add: npsh_find_command_def npsh_commands_def)
  have "name \<noteq> ''''" using assms(4) by auto
  note line = npsh_execute_word [OF this assms(3,2), of _ cap arg s]
  show "npsh_execute_line env cap (name @ '' '' @ arg) s =
       Ret (0, s\<lparr>counter := 0, commandWaiting := c, commandBuffer := Some ''''\<rparr>)"
    using assms(4) line [of "the (npsh_find_command name)"]
    by (auto simp: find npsh_exec_runs np_set_counter_def assms(1) fix_cmd_arg_empty set_command_def set_cmdbuf_def
        simp del: npsh_func.simps)
  show "command_packet c (Some '''') = [le32 1 @ le32 c, [0]]"
    using assms(4) by (auto simp: command_packet_def transfers_def enc_header_def bytes_of_def)
qed

definition nenv_example :: "int nenv" where
  "nenv_example = uenv.extend (uenv_example\<lparr>uenv_devices := [[\<lparr>idVendor = 0x067b, idProduct = 1\<rparr>]]\<rparr>)
     \<lparr>nenv_system = \<lambda>n c. (0, n), nenv_chdir = \<lambda>n d. (0, n), nenv_getwd = \<lambda>n. Some ''/'', nenv_fopen = \<lambda>n f. None,
      nenv_environ = [], nenv_whitespace = \<lambda>c. c = CHR '' ''\<rparr>"

theorem npsh_programs_unnamed_witness:
  "npsh_execute_line nenv_example 80 ''execee game.elf'' (npsh_init 7) =
     Ret (0, (npsh_init 7)\<lparr>counter := 0, commandWaiting := PACKET_EXECPS2, commandBuffer := Some ''''\<rparr>)"
  using npsh_programs_unnamed [of "npsh_init 7" nenv_example "''execee''" PACKET_EXECPS2 80 "''game.elf''"]
  by (simp add: npsh_init_def nenv_example_def nap.defs usb.defs uenv.defs)

section \<open>The time-out and the handle\<close>

text \<open>The shell took its time-out exactly if the handle is closed; \<open>cmd\<close> is empty.\<close>

definition npsh_wf :: "('fs, 'z) npsh_scheme \<Rightarrow> bool" where
  "npsh_wf s \<longleftrightarrow> (timedout s = 0 \<longleftrightarrow> pl_open s) \<and> np_cmd s = ''''"

text \<open>What the cable keeps of the shell.\<close>

definition npsh_keeps :: "('fs, 'z) npsh_scheme \<Rightarrow> ('fs, 'z) npsh_scheme \<Rightarrow> bool" where
  "npsh_keeps s s' \<longleftrightarrow> pl_open s' = pl_open s \<and> timedout s' = timedout s \<and> np_cmd s' = np_cmd s
     \<and> np_doloop s' = np_doloop s \<and> timeout s' = timeout s"

lemma npsh_keeps_refl [simp]: "npsh_keeps s s"
  by (simp add: npsh_keeps_def)

lemma npsh_keeps_trans: "npsh_keeps s s1 \<Longrightarrow> npsh_keeps s1 s2 \<Longrightarrow> npsh_keeps s s2"
  by (simp add: npsh_keeps_def)

lemma npsh_keeps_wf: "npsh_keeps s s' \<Longrightarrow> npsh_wf s \<Longrightarrow> npsh_wf s'"
  by (simp add: npsh_keeps_def npsh_wf_def)

lemma npsh_same_wf: "npsh_same s s' \<Longrightarrow> npsh_wf s \<Longrightarrow> npsh_wf s'"
  by (simp add: npsh_same_def npsh_wf_def)

lemma nap_npsh_keeps:
  fixes s s' :: "('fs, 'z) npsh_scheme"
  shows "nap_keeps s s' \<Longrightarrow> npsh_keeps s s'"
  by (cases s, cases s') (simp add: nap_keeps_def npsh_keeps_def)

lemma check_keeps: "CHECK_QLF f s = Ret (v, s') \<Longrightarrow> nap_keeps s s'"
  by (rule bus_nap_keeps, rule check_bus)

lemma naplink_process_keeps: "naplink_process env s = Ret s' \<Longrightarrow> nap_keeps s s' \<and> pl_open s"
  by (auto simp: naplink_process_def outcome_iffs split: if_splits
      dest!: check_keeps nap_kept.step_keeps intro: nap_keeps_trans)

lemma naplink_times_keeps: "naplink_times n env s = Ret s' \<Longrightarrow> nap_keeps s s'"
  by (induction n arbitrary: s) (auto simp: obind_Ret_iff dest!: naplink_process_keeps intro: nap_keeps_trans)

lemma handshake_keeps:
  assumes "handshake s = Ret s'"
  shows "nap_keeps s s'"
proof -
  obtain s1 s2 s3 where run: "CLEAR_QLF TX_REQ (did (Claimed 0) (did (Configured 1) (did Was_reset s))) = Ret s1"
    "CLEAR_QLF TX_C s1 = Ret s2" "SET_QLF PEER_E s2 = Ret s3" "wait_set PEER_E s3 = Ret s'"
    using assms by (auto simp: handshake_def obind_Ret_iff Let_def)
  have "nap_keeps (did (Claimed 0) (did (Configured 1) (did Was_reset s))) s'"
    using bus_nap_keeps [OF control_bus(1) [OF run(1)]] bus_nap_keeps [OF control_bus(1) [OF run(2)]]
      bus_nap_keeps [OF control_bus(2) [OF run(3)]] wait_set_bus [OF run(4)]
    by (meson bus_nap_keeps nap_keeps_trans)
  then show ?thesis by (simp add: nap_keeps_def did_def)
qed

lemma naplink_check_keeps: "naplink_check s = Ret s' \<Longrightarrow> nap_keeps s s' \<and> pl_open s"
  by (auto simp: naplink_check_def outcome_iffs split: if_splits dest!: check_keeps handshake_keeps intro: nap_keeps_trans)

lemma initialize_opens:
  fixes s :: "('fs, 'z) npsh_scheme"
  assumes "initialize_naplink env s = Ret (r, s')"
  shows "if find_device (concat (uenv_devices env)) None = None then r = -1 \<and> s' = s
    else r = 0 \<and> pl_open s' \<and> npsh_keeps (s\<lparr>pl_open := True\<rparr>) s'"
proof (cases "find_device (concat (uenv_devices env)) None")
  case None
  with assms show ?thesis by (simp add: initialize_naplink_def)
next
  case (Some dev)
  with assms have "r = 0" "handshake ((did (Opened dev) s)\<lparr>pl_open := True\<rparr>) = Ret s'"
    by (auto simp: initialize_naplink_def omap_Ret_iff)
  then have "npsh_keeps ((did (Opened dev) s)\<lparr>pl_open := True\<rparr>) s'" "r = 0"
    using handshake_keeps nap_npsh_keeps by blast+
  with Some show ?thesis by (simp add: npsh_keeps_def did_def)
qed

lemma naplink_close_closes:
  fixes s :: "('fs, 'z) npsh_scheme"
  assumes "naplink_close s = Ret (r, s')"
  shows "pl_open s" and "npsh_keeps (s\<lparr>pl_open := False\<rparr>) s'"
proof -
  from assms obtain t where t: "pl_open s" "CLEAR_QLF PEER_E s = Ret t" "s' = (did Closed (did (Released 0) t))\<lparr>pl_open := False\<rparr>"
    by (auto simp: naplink_close_def outcome_iffs)
  then have "npsh_keeps s t" using nap_npsh_keeps bus_nap_keeps control_bus(1) by blast
  with t show "pl_open s" "npsh_keeps (s\<lparr>pl_open := False\<rparr>) s'" by (simp_all add: npsh_keeps_def did_def)
qed

lemma npsh_reopen_wf:
  fixes s :: "('fs, 'z) npsh_scheme"
  assumes "npsh_reopen env s = Ret s'" and "npsh_wf s"
  shows "npsh_wf s' \<and> timedout s' = 0"
proof -
  obtain r s1 s2 s3 where run: "initialize_naplink env s = Ret (r, s1)" "naplink_check (np_set_counter 0 s1) = Ret s2"
    "naplink_process env s2 = Ret s3" "s' = np_set_processing 0 (s3\<lparr>timedout := 0\<rparr>)"
    using assms(1) by (auto simp: npsh_reopen_def obind_Ret_iff)
  have open1: "pl_open s1" and cmd: "np_cmd s1 = np_cmd s"
    using naplink_check_keeps [OF run(2)] initialize_opens [OF run(1)]
    by (auto simp: np_set_counter_def npsh_keeps_def split: if_splits)
  have "npsh_keeps (np_set_counter 0 s1) s3"
    using naplink_check_keeps [OF run(2)] naplink_process_keeps [OF run(3)] nap_npsh_keeps nap_keeps_trans by blast
  with open1 cmd run(4) assms(2) show ?thesis
    by (simp add: npsh_wf_def npsh_keeps_def np_set_counter_def np_set_processing_def)
qed

lemma npsh_keys_wf: "npsh_keys env e s = Ret s' \<Longrightarrow> npsh_wf s \<Longrightarrow> npsh_wf s'"
  by (auto simp: npsh_keys_def obind_Ret_iff split: npsh_event.splits if_splits
      dest!: npsh_reopen_wf npsh_read_char_same intro: npsh_same_wf)

lemma npsh_expire_wf: "npsh_expire s = Ret s' \<Longrightarrow> npsh_wf s \<Longrightarrow> npsh_wf s'"
  by (auto simp: npsh_expire_def omap_Ret_iff npsh_wf_def npsh_keeps_def np_set_counter_def
      dest!: naplink_close_closes split: if_splits)

lemma npsh_turn_wf:
  fixes s :: "('fs, 'z) npsh_scheme"
  assumes "npsh_turn env e s = Ret s'" and "npsh_wf s"
  shows "npsh_wf s'"
proof -
  obtain s1 s2 s3 where run:
    "(if timedout s = 0 then obind (naplink_check s) (\<lambda>s. omap (np_set_processing 0) (naplink_process env s)) else Ret s) = Ret s1"
    "npsh_keys env e s1 = Ret s2" "(if timedout s2 = 0 then naplink_times 10 env s2 else Ret s2) = Ret s3"
    "npsh_expire s3 = Ret s'"
    using assms(1) by (auto simp: npsh_turn_def obind_Ret_iff)
  have p: "npsh_wf (np_set_processing 0 t) = npsh_wf t" for t :: "('fs, 'z) npsh_scheme"
    by (simp add: npsh_wf_def np_set_processing_def)
  have "npsh_wf s1"
    using run(1) assms(2)
    by (auto simp: outcome_iffs p split: if_splits dest!: naplink_check_keeps naplink_process_keeps nap_npsh_keeps)
      (metis npsh_keeps_wf)
  then have "npsh_wf s2" using npsh_keys_wf [OF run(2)] by blast
  then have "npsh_wf s3"
    using run(3) by (auto split: if_splits dest!: naplink_times_keeps nap_npsh_keeps intro: npsh_keeps_wf)
  then show ?thesis using npsh_expire_wf [OF run(4)] by blast
qed

section \<open>Runs of the shell\<close>

inductive npsh_step :: "('fs, 'e) nenv_scheme \<Rightarrow> ('fs, 'z) npsh_scheme \<Rightarrow> ('fs, 'z) npsh_scheme \<Rightarrow> bool" for env where
  turn: "np_doloop s \<noteq> 0 \<Longrightarrow> npsh_turn env e s = Ret s' \<Longrightarrow> npsh_step env s s'"

inductive_simps npsh_step_simps: "npsh_step env s s'"

lemma npsh_steps_wf: "(npsh_step env)\<^sup>*\<^sup>* s s' \<Longrightarrow> npsh_wf s \<Longrightarrow> npsh_wf s'"
  by (induction rule: rtranclp_induct) (auto simp: npsh_step_simps dest: npsh_turn_wf)

lemma npsh_end_closed: "\<not> pl_open s \<Longrightarrow> npsh_end env s = Crash"
  by (simp add: npsh_end_def naplink_close_def)

text \<open>
  C15. Over all turns of the loop the time-out and the handle go together: the cable was closed exactly if the
  shell is timed out, so no turn uses a handle that is closed, and \<open>cmd\<close> stays empty. When the loop is left
  while timed out, which quitting in the turn of the time-out does, \<open>main\<close> closes the handle a second time.
\<close>

theorem npsh_timeout_handle:
  assumes "initialize_naplink env s = Ret (0, s1)" and "timedout s = 0" and "np_cmd s = ''''"
    and "(npsh_step env)\<^sup>*\<^sup>* s1 s'"
  shows "(timedout s' = 0 \<longleftrightarrow> pl_open s') \<and> np_cmd s' = '''' \<and> (timedout s' \<noteq> 0 \<longrightarrow> npsh_end env s' = Crash)"
proof -
  have "npsh_wf s1"
    using initialize_opens [OF assms(1)] assms(2,3) by (auto simp: npsh_wf_def npsh_keeps_def split: if_splits)
  then have "npsh_wf s'" by (rule npsh_steps_wf [OF assms(4)])
  then show ?thesis using npsh_end_closed by (auto simp: npsh_wf_def)
qed

text \<open>A console that polls in the turn in which the shell is quit, with an old counter.\<close>

definition quit_example :: "int npsh" where
  "quit_example = (npsh_init 7)
     \<lparr>polls := [(1, 1)] @ [(1, 1)] @ [(1, 0)] @ [(1, 2)] @ packet_comes @ packet_goes @ packet_comes
        @ [(1, 0), (1, 0), (1, 0), (1, 0), (1, 0), (1, 0), (1, 0), (1, 0), (1, 0)],
      controls := [0, 0, 0, 0, 0, 0, 0, 0, 0, 0], timeout := 1, counter := 1,
      bulk_in := [le32 0 @ le32 PACKET_WAZZUP, le32 4 @ le32 PACKET_RETURN, le32 0]\<rparr>"

lemma naplink_times_numeral [simp]:
  "naplink_times (numeral k) env s = obind (naplink_process env s) (naplink_times (pred_numeral k) env)"
  by (simp add: numeral_eq_Suc)

lemma quit_example_opens:
  "\<exists>s1. initialize_naplink nenv_example quit_example = Ret (0, s1)
     \<and> (\<exists>s2. npsh_turn nenv_example (Np_ready (Meta CHR ''q'') '''') s1 = Ret s2 \<and> timedout s2 = 1)"
  by (simp add: initialize_naplink_def nenv_example_def uenv.defs uenv_example_def handshake_def quit_example_def npsh_init_def
      nap.defs usb.defs cable_simps packet_comes_def packet_goes_def npsh_turn_def naplink_check_def naplink_process_def np_set_processing_def npsh_keys_def npsh_read_char_def npsh_key_def
      npsh_quit_def set_command_def recv_and_process_packet_def process_packet_def process_wazzup_def np_update_counter_def
      do_quit_def get_rv_def get_return_def npsh_expire_def np_get_counter_def naplink_close_def np_set_counter_def)

theorem npsh_timeout_handle_witness:
  "\<exists>s1 s2. initialize_naplink nenv_example quit_example = Ret (0, s1)
     \<and> npsh_turn nenv_example (Np_ready (Meta CHR ''q'') '''') s1 = Ret s2 \<and> npsh_end nenv_example s2 = Crash"
proof -
  obtain s1 s2 where run: "initialize_naplink nenv_example quit_example = Ret (0, s1)"
    "npsh_turn nenv_example (Np_ready (Meta CHR ''q'') '''') s1 = Ret s2" "timedout s2 = 1"
    using quit_example_opens by blast
  have init: "timedout quit_example = 0" "np_cmd quit_example = ''''"
    "np_doloop quit_example = 1"
    by (simp_all add: quit_example_def npsh_init_def nap.defs usb.defs)
  have "np_doloop s1 = 1"
    using initialize_opens [OF run(1)] init(3) by (auto simp: npsh_keeps_def split: if_splits)
  then have "npsh_step nenv_example s1 s2" using run(2) by (auto simp: npsh_step_simps)
  then have "(npsh_step nenv_example)\<^sup>*\<^sup>* s1 s2" by blast
  with npsh_timeout_handle [OF run(1) init(1,2)] run show ?thesis by auto
qed

section \<open>Quitting\<close>

lemma quiet_process:
  fixes s :: "('fs, 'z) nap_scheme"
  assumes "statuses (polls s) = b # rest" and "b AND TX_REQ = 0" and "pl_open s"
  obtains ps where "naplink_process env s = Ret (s\<lparr>polls := ps, bus_log := bus_log s @ [Saw b]\<rparr>)" "statuses ps = rest"
proof (cases rule: check_cases [of TX_REQ s])
  case hangs
  with assms(1) show thesis by simp
next
  case (read b' ps)
  with assms that [of ps] show thesis by (simp add: naplink_process_def)
qed

lemma quiet_times:
  fixes s :: "('fs, 'z) nap_scheme"
  assumes "statuses (polls s) = bs @ rest" and "\<forall>b \<in> set bs. b AND TX_REQ = 0" and "pl_open s"
  shows "\<exists>ps. naplink_times (length bs) env s = Ret (s\<lparr>polls := ps, bus_log := bus_log s @ map Saw bs\<rparr>) \<and> statuses ps = rest"
  using assms
proof (induction bs arbitrary: s)
  case Nil
  then show ?case by (intro exI [of _ "polls s"]) simp
next
  case (Cons b bs)
  then obtain ps where ps: "naplink_process env s = Ret (s\<lparr>polls := ps, bus_log := bus_log s @ [Saw b]\<rparr>)" "statuses ps = bs @ rest"
    using quiet_process [of s b "bs @ rest" env] by auto
  with Cons.IH [of "s\<lparr>polls := ps, bus_log := bus_log s @ [Saw b]\<rparr>"] Cons.prems show ?case by auto
qed

text \<open>
  \<open>quit\<close> only leaves a command for the next poll of the console: if none comes in the ten looks at the
  cable that are left of the turn, the shell ends without having sent anything to the console.
\<close>

theorem npsh_quit_unsent:
  fixes s :: "('fs, 'z) npsh_scheme"
  assumes "npsh_wf s" and "timedout s = 0" and "timeout s = 0" and "np_doloop s \<noteq> 0"
    and "statuses (polls s) = peer # quiet @ rest" and "length quiet = 11"
    and "peer AND PEER_E \<noteq> 0" and "\<forall>b \<in> set quiet. b AND TX_REQ = 0"
  shows "\<exists>s'. npsh_loop env (Np_ready (Meta CHR ''q'') line # es) s = Ret s'
     \<and> bus_log s' = bus_log s @ map Saw (peer # quiet) \<and> commandWaiting s' = PACKET_QUIT"
proof -
  obtain b bs where bs: "quiet = b # bs" "length bs = 10" using assms(6) by (cases quiet) auto
  have op: "pl_open s" using assms(1,2) by (simp add: npsh_wf_def)
  obtain ps1 where 1: "naplink_check s = Ret (s\<lparr>polls := ps1, bus_log := bus_log s @ [Saw peer]\<rparr>)" "statuses ps1 = b # bs @ rest"
  proof (cases rule: check_cases [of PEER_E s])
    case hangs
    with assms(5) show thesis by simp
  next
    case (read b' ps)
    with assms(5,7) op bs(1) that [of ps] show thesis by (simp add: naplink_check_def)
  qed
  let ?s1 = "s\<lparr>polls := ps1, bus_log := bus_log s @ [Saw peer]\<rparr>"
  obtain ps2 where 2: "naplink_process env ?s1 = Ret (?s1\<lparr>polls := ps2, bus_log := bus_log ?s1 @ [Saw b]\<rparr>)" "statuses ps2 = bs @ rest"
    using quiet_process [of ?s1 b "bs @ rest" env] 1(2) assms(8) bs(1) op by auto
  define s2 where "s2 = np_set_processing 0 (s\<lparr>polls := ps2, bus_log := bus_log s @ [Saw peer, Saw b]\<rparr>)"
  define s3 where "s3 = (set_command PACKET_QUIT s2)\<lparr>np_doloop := 0\<rparr>"
  have key: "npsh_keys env (Np_ready (Meta CHR ''q'') line) s2 = Ret s3"
    using assms(2) by (simp add: npsh_keys_def npsh_read_char_def npsh_key_def npsh_quit_def s2_def s3_def np_set_processing_def)
  have "statuses (polls s3) = bs @ rest" "pl_open s3" "timeout s3 = 0" "timedout s3 = 0"
    using 2(2) op assms(2,3) by (simp_all add: s3_def s2_def np_set_processing_def set_command_def)
  moreover from this obtain ps3 where 3: "naplink_times 10 env s3 = Ret (s3\<lparr>polls := ps3, bus_log := bus_log s3 @ map Saw bs\<rparr>)"
    using quiet_times [of s3 bs rest env] assms(8) bs by auto
  ultimately have "npsh_turn env (Np_ready (Meta CHR ''q'') line) s = Ret (s3\<lparr>polls := ps3, bus_log := bus_log s3 @ map Saw bs\<rparr>)"
    using 1(1) 2(1) key assms(2) by (simp add: npsh_turn_def s2_def [symmetric] npsh_expire_def del: naplink_times_numeral)
  then show ?thesis
    using assms(4) bs(1)
    by (cases es) (simp_all add: s3_def s2_def set_command_def np_set_processing_def)
qed

theorem npsh_quit_unsent_witness:
  "\<exists>s'. npsh_loop nenv_example [Np_ready (Meta CHR ''q'') '''']
      ((npsh_init (7 :: int))\<lparr>pl_open := True, polls := (1, 1) # replicate 11 (1, 1)\<rparr>) = Ret s' \<and> written (bus_log s') = []"
proof -
  let ?s = "(npsh_init (7 :: int))\<lparr>pl_open := True, polls := (1, 1) # replicate 11 (1, 1)\<rparr>"
  have sts: "statuses (polls ?s) = 1 # replicate 11 1 @ []" by (simp add: statuses_def)
  have "npsh_wf ?s" "timedout ?s = 0" "timeout ?s = 0" "np_doloop ?s \<noteq> 0" "bus_log ?s = []"
    by (simp_all add: npsh_wf_def npsh_init_def nap.defs usb.defs)
  with npsh_quit_unsent [OF this(1-4) sts, of nenv_example "''''" "[]"] show ?thesis
    by (auto simp del: map_replicate)
qed

section \<open>Completion\<close>

lemma npsh_completed_all: "npsh_completed n text state st = generate_all n (map np_name npsh_commands) text state st"
  by (induction n arbitrary: state st) (auto simp: npsh_command_generator_def split: prod.splits option.splits)

text \<open>A name typed as far as \<open>text\<close> is completed to the commands of the table that it is a prefix of, in their order.\<close>

lemma npsh_completion:
  assumes "no_nul text"
  shows "npsh_completed 21 text 0 st = filter (prefix text) (map np_name npsh_commands)"
proof -
  have "Suc (length (map np_name npsh_commands)) = 21" by (simp add: npsh_commands_def)
  then show ?thesis
    using command_generator_complete [OF assms, of "map np_name npsh_commands" st] by (simp only: npsh_completed_all)
qed

end
