(* ===== verification/Copies.thy ===== *)
theory Copies
  imports Netcmds
begin

text \<open>
  Whole runs of \<open>cp\<close> between the host and the console (\<open>cli_copy\<close> of \<open>pksh.c\<close>): what goes over the
  connection, what the host's file gets, and what is left when the console refuses the file. These are runs of the two branches of the
  command; before it comes to them it writes past its arrays for the second name
  (\<open>cli_copy_overflows\<close>), which only does no harm if nothing that matters lies behind them.
\<close>

section \<open>Copying from the console\<close>

text \<open>The reply of the service to a read: the bytes it read, behind their number.\<close>

definition read_reply :: "byte list \<Rightarrow> byte list" where
  "read_reply data = packet PS2NETFS_READ_RLY (be32 (of_cint (int (length data))) @ be32 (of_cint (int (length data)))) @ data"

text \<open>What the loop writes to the host when the reads deliver the pieces \<open>ds\<close>.\<close>

fun file_writes :: "int \<Rightarrow> byte list \<Rightarrow> byte list list \<Rightarrow> byte list list" where
  "file_writes n buffer [] = []"
| "file_writes n buffer (d # ds) =
     take (nat (min n 65536)) (poke 0 d buffer) # file_writes (n - 65536) (poke 0 d buffer) ds"

definition host_writes :: "'fs os \<Rightarrow> int \<Rightarrow> byte list list \<Rightarrow> 'fs \<Rightarrow> 'fs" where
  "host_writes os fd ds fs = fold (\<lambda>d fs. snd (os_write os fs fd d)) ds fs"

text \<open>The number of turns of the loop.\<close>

lemma turns_pos: "nat ((n + 65535) div 65536) = Suc k \<longleftrightarrow> 0 < n \<and> nat ((n - 65536 + 65535) div 65536) = k" for n :: int
proof -
  have "(n + 65535) div 65536 = (n - 65536 + 65535) div 65536 + 1"
    using div_add_self2 [of 65536 "n - 65536 + 65535"] by (simp add: algebra_simps)
  moreover have "0 < (n + 65535) div 65536 \<longleftrightarrow> 0 < n" using pos_imp_zdiv_pos_iff [of 65536 "n + 65535"] by auto
  ultimately show ?thesis by auto
qed

lemma turns_none: "nat ((n + 65535) div 65536) = 0 \<longleftrightarrow> n \<le> 0" for n :: int
  using pos_imp_zdiv_pos_iff [of 65536 "n + 65535"] by auto

lemma get_loop_writes:
  assumes "wf_link s" and "tx_plan s (ps2_netfs_fd s) = []"
    and "\<forall>d \<in> set ds. 0 < length d \<and> length d \<le> 65536"
    and "stream (rx s (ps2_netfs_fd s)) = concat (map read_reply ds) @ rest"
    and "length ds = nat ((n + 65535) div 65536)"
  shows "\<exists>s'. get_loop env fd0 fd1 n buffer s = Ret s' \<and> stream (rx s' (ps2_netfs_fd s)) = rest \<and>
     host s' = host_writes (env_os env) fd0 (file_writes n buffer ds) (host s) \<and>
     tx_log s' = tx_log s @ map (Pair (ps2_netfs_fd s)) (replicate (length ds) (read_request fd1 65536)) \<and>
     wf_link s' \<and> tx_plan s' = tx_plan s \<and> ps2_netfs_fd s' = ps2_netfs_fd s"
  using assms
proof (induction ds arbitrary: n buffer s)
  case Nil
  then have "n \<le> 0" using turns_none [of n] by simp
  then show ?case using Nil.prems by (subst get_loop.simps) (simp add: host_writes_def)
next
  case (Cons d ds)
  have n: "0 < n" "length ds = nat ((n - 65536 + 65535) div 65536)"
    using Cons.prems(5) turns_pos [of n "length ds"] by simp_all
  have d: "0 < length d" "length d < 2 ^ 31" "length d \<le> 65536" using Cons.prems(3) by simp_all
  have strm: "stream (rx s (ps2_netfs_fd s)) = packet PS2NETFS_READ_RLY (be32 (of_cint (int (length d))) @
      be32 (of_cint (int (length d)))) @ d @ concat (map read_reply ds) @ rest"
    using Cons.prems(4) by (simp add: read_reply_def [of d])
  define log where "log = tx_log s @ [(ps2_netfs_fd s, read_request fd1 65536)]"
  obtain es buf where rd: "ps2netfs_req_read fd1 65536 65536 s = Ret (int (length d), d,
      s\<lparr>rx := (rx s)(ps2_netfs_fd s := es), send_packet := buf, tx_log := log, recv_packet := poke 0
        (packet PS2NETFS_READ_RLY (be32 (of_cint (int (length d))) @ be32 (of_cint (int (length d))))) (recv_packet s)\<rparr>)"
    and es: "stream es = concat (map read_reply ds) @ rest" and buf: "length buf = PACKET_MAXSIZE"
    unfolding log_def using read_step [OF Cons.prems(1,2) strm d] by metis
  define out where "out = take (nat (min n 65536)) (poke 0 d buffer)"
  define s2 where "s2 = s\<lparr>rx := (rx s)(ps2_netfs_fd s := es), send_packet := buf, tx_log := log, recv_packet := poke 0
        (packet PS2NETFS_READ_RLY (be32 (of_cint (int (length d))) @ be32 (of_cint (int (length d))))) (recv_packet s),
      host := snd (os_write (env_os env) (host s) fd0 out)\<rparr>"
  have step: "get_loop env fd0 fd1 n buffer s = get_loop env fd0 fd1 (n - 65536) (poke 0 d buffer) s2"
    unfolding s2_def using get_loop_next [OF n(1) rd] by (simp add: out_def on_host_def case_prod_beta)
  have "wf_link s2" using Cons.prems(1) buf
    by (simp add: s2_def wf_link_def length_poke packet_def be32_def le32_def)
  then show ?case
    using Cons.IH [of s2 "n - 65536" "poke 0 d buffer"] Cons.prems(2,3) n(2) es
    by (simp add: step s2_def out_def log_def host_writes_def)
qed

text \<open>With full buffers, all but the last, the pieces are written as they come.\<close>

lemma file_writes_full:
  "\<forall>d \<in> set (butlast ds). length d = 65536 \<Longrightarrow> \<forall>d \<in> set ds. length d \<le> 65536 \<Longrightarrow>
     length buffer = 65536 \<Longrightarrow> file_writes (int (length (concat ds))) buffer ds = ds"
proof (induction ds arbitrary: buffer)
  case (Cons d ds)
  then show ?case
    by (cases "ds = []") (simp_all add: poke_def min_def, linarith)
qed simp

lemma full_turns:
  "\<forall>d \<in> set (butlast ds). length d = 65536 \<Longrightarrow> \<forall>d \<in> set ds. 0 < length d \<and> length d \<le> 65536 \<Longrightarrow>
     length ds = nat ((int (length (concat ds)) + 65535) div 65536)"
proof (induction ds)
  case (Cons d ds)
  show ?case
  proof (cases "ds = []")
    case True
    then show ?thesis
      using Cons.prems turns_pos [of "int (length d)" 0] turns_none [of "int (length d) - 65536"] by simp
  next
    case False
    then show ?thesis
      using Cons turns_pos [of "65536 + int (length (concat ds))" "length ds"] by simp
  qed
qed simp

text \<open>
  Copying a file from the console. If every read but the last fills the buffer of 65536 bytes, the
  host's file gets exactly the bytes of the file, piece by piece. The loop does not use the size that a
  read returns: a read that delivers less than the file's remaining size (up to a full buffer) still
  writes that many bytes, the rest from what was in the buffer before.
\<close>

theorem get_loop_copies:
  assumes wf: "wf_link s" and plan: "tx_plan s (ps2_netfs_fd s) = []" and buffer: "length buffer = 65536"
  shows "(ds \<noteq> [] \<and> (\<forall>d \<in> set (butlast ds). length d = 65536) \<and> 0 < length (last ds) \<and> length (last ds) \<le> 65536
       \<and> stream (rx s (ps2_netfs_fd s)) = concat (map read_reply ds) @ rest \<longrightarrow>
     (\<exists>s'. get_loop env fd0 fd1 (int (length (concat ds))) buffer s = Ret s' \<and> stream (rx s' (ps2_netfs_fd s)) = rest
       \<and> host s' = host_writes (env_os env) fd0 ds (host s)))
   \<and> (0 < length d \<and> length d < n \<and> n \<le> 65536 \<and> stream (rx s (ps2_netfs_fd s)) = read_reply d @ rest \<longrightarrow>
     (\<exists>s'. get_loop env fd0 fd1 (int n) buffer s = Ret s' \<and> stream (rx s' (ps2_netfs_fd s)) = rest
       \<and> host s' = host_writes (env_os env) fd0 [d @ take (n - length d) (drop (length d) buffer)] (host s)))"
proof (intro conjI impI; elim conjE)
  assume ds: "ds \<noteq> []" "\<forall>d \<in> set (butlast ds). length d = 65536" "0 < length (last ds)" "length (last ds) \<le> 65536"
    and strm: "stream (rx s (ps2_netfs_fd s)) = concat (map read_reply ds) @ rest"
  have pieces: "\<forall>d \<in> set ds. 0 < length d \<and> length d \<le> 65536"
    using ds(2-4) append_butlast_last_id [OF ds(1)] by (metis Un_iff empty_iff insert_iff less_numeral_extra(3)
        list.set(1) list.simps(15) order_refl set_append zero_less_numeral)
  then have "file_writes (int (length (concat ds))) buffer ds = ds" using ds(2) buffer by (intro file_writes_full) auto
  then show "\<exists>s'. get_loop env fd0 fd1 (int (length (concat ds))) buffer s = Ret s'
      \<and> stream (rx s' (ps2_netfs_fd s)) = rest \<and> host s' = host_writes (env_os env) fd0 ds (host s)"
    using get_loop_writes [OF wf plan pieces strm full_turns [OF ds(2) pieces], of env fd0 fd1 buffer] by auto
next
  assume d: "0 < length d" "length d < n" "n \<le> 65536" and strm: "stream (rx s (ps2_netfs_fd s)) = read_reply d @ rest"
  have "file_writes (int n) buffer [d] = [d @ take (n - length d) (drop (length d) buffer)]"
    using d by (simp add: poke_def min_def)
  moreover have "length [d] = nat ((int n + 65535) div 65536)"
    using d turns_pos [of "int n" 0] turns_none [of "int n - 65536"] by simp
  moreover have "\<forall>e \<in> set [d]. 0 < length e \<and> length e \<le> 65536" "stream (rx s (ps2_netfs_fd s)) = concat (map read_reply [d]) @ rest"
    using d strm by simp_all
  ultimately show "\<exists>s'. get_loop env fd0 fd1 (int n) buffer s = Ret s' \<and> stream (rx s' (ps2_netfs_fd s)) = rest
      \<and> host s' = host_writes (env_os env) fd0 [d @ take (n - length d) (drop (length d) buffer)] (host s)"
    using get_loop_writes [OF wf plan, where ds = "[d]"] by metis
qed

theorem get_loop_copies_witness:
  "\<exists>s'. get_loop (example_env\<lparr>env_os := no_files\<lparr>os_write := \<lambda>fs fd bs. (int (length bs), 10 * fs + uint (last bs))\<rparr>\<rparr>)
     3 4 2 (replicate 65536 8) (shell_example\<lparr>rx := \<lambda>_. [Arrive (read_reply [1])]\<rparr>) = Ret s' \<and> host s' = 78"
proof -
  let ?env = "example_env\<lparr>env_os := no_files\<lparr>os_write := \<lambda>fs fd bs. (int (length bs), 10 * fs + uint (last bs))\<rparr>\<rparr>"
  let ?s = "shell_example\<lparr>rx := \<lambda>_. [Arrive (read_reply [1])]\<rparr>"
  have "wf_link ?s" "tx_plan ?s (ps2_netfs_fd ?s) = []" "stream (rx ?s (ps2_netfs_fd ?s)) = read_reply [1] @ []"
    by (simp_all add: wf_link_def shell_example_def shell_init_def link_init_def link.defs)
  then obtain s' where "get_loop ?env 3 4 (int 2) (replicate 65536 8) ?s = Ret s'"
    "host s' = host_writes (env_os ?env) 3 [[1] @ take (2 - length [1 :: byte]) (drop (length [1 :: byte]) (replicate 65536 8))] (host ?s)"
    using get_loop_copies [of ?s "replicate 65536 8" "[[1]]" "[]" ?env 3 4 "[1]" 2] by auto
  then show ?thesis by (auto simp: host_writes_def take_Cons')
qed

text \<open>
  C33. Copying a file from the console, when every reply of the service arrives: the file is opened
  there, its size \<open>n\<close> is asked for, one read of 65536 bytes is requested for each 65536 bytes of the size
  that are begun, and the file is closed; the command succeeds and leaves the stream behind the last
  reply. The host's file gets as many bytes as each turn of the loop expects, out of the buffer that the
  pieces go to; if every piece but the last is full and together they have the size of the file, it gets
  exactly the pieces, in order.
\<close>

theorem get_file_copies:
  assumes wf: "wf_link s" and plan: "tx_plan s (ps2_netfs_fd s) = []"
    and opened: "os_open (env_os env) (host s) dst (O_RDWR OR O_CREAT) 0x1A4 = (fd0, fs1)" "0 \<le> fd0"
    and fd1: "0 \<le> fd1" "is_cint fd1" and n: "is_cint n" "length ds = nat ((n + 65535) div 65536)"
    and ds: "\<forall>d \<in> set ds. 0 < length d \<and> length d \<le> 65536"
    and strm: "stream (rx s (ps2_netfs_fd s)) = netfs_reply PS2NETFS_OPEN_RLY fd1 @ netfs_reply PS2NETFS_LSEEK_RLY n @
      netfs_reply PS2NETFS_LSEEK_RLY r @ concat (map read_reply ds) @ netfs_reply PS2NETFS_CLOSE_RLY c @ rest"
  shows "\<exists>s'. get_file env src dst s = Ret (0, s') \<and> stream (rx s' (ps2_netfs_fd s)) = rest
     \<and> tx_log s' = tx_log s @ map (Pair (ps2_netfs_fd s))
         ([open_request src PS2_O_RDONLY, lseek_request fd1 0 2, lseek_request fd1 0 0]
          @ replicate (length ds) (read_request fd1 65536) @ [close_request fd1])
     \<and> host s' = snd (os_close (env_os env) (host_writes (env_os env) fd0 (file_writes n (local_array env BUFFER) ds) fs1) fd0)
     \<and> ((\<forall>d \<in> set (butlast ds). length d = 65536) \<and> n = int (length (concat ds)) \<longrightarrow>
         file_writes n (local_array env BUFFER) ds = ds)"
proof -
  let ?sock = "ps2_netfs_fd s" and ?reads = "concat (map read_reply ds) @ netfs_reply PS2NETFS_CLOSE_RLY c @ rest"
  have k: "to_cint (of_cint fd1) = fd1" "to_cint (of_cint n) = n" using fd1(2) n(1) by (simp_all add: to_cint_of_cint)
  define s1 where "s1 = s\<lparr>host := fs1\<rparr>"
  have s1: "wf_link s1" "tx_plan s1 (ps2_netfs_fd s1) = []" "ps2_netfs_fd s1 = ?sock" "host s1 = fs1" "tx_log s1 = tx_log s"
    "stream (rx s1 (ps2_netfs_fd s1)) = netfs_reply PS2NETFS_OPEN_RLY fd1 @
       netfs_reply PS2NETFS_LSEEK_RLY n @ netfs_reply PS2NETFS_LSEEK_RLY r @ ?reads"
    using wf plan strm by (simp_all add: s1_def wf_link_def)
  obtain s2 where o2: "ps2netfs_req_open src PS2_O_RDONLY s1 = Ret (fd1, s2)" and s2: "ps2_netfs_fd s2 = ?sock" "host s2 = fs1"
    "tx_log s2 = tx_log s @ [(?sock, open_request src PS2_O_RDONLY)]" "wf_link s2" "tx_plan s2 (ps2_netfs_fd s2) = []"
    "stream (rx s2 (ps2_netfs_fd s2)) = netfs_reply PS2NETFS_LSEEK_RLY n @ netfs_reply PS2NETFS_LSEEK_RLY r @ ?reads"
    using req_open.replied [OF s1(1,2,6), where path = src and mode = PS2_O_RDONLY] by (metis built_requests(1) k(1) s1(3-5))
  obtain s3 where o3: "ps2netfs_req_lseek fd1 0 2 s2 = Ret (n, s3)" and s3: "ps2_netfs_fd s3 = ?sock" "host s3 = fs1"
    "tx_log s3 = tx_log s2 @ [(?sock, lseek_request fd1 0 2)]" "wf_link s3" "tx_plan s3 (ps2_netfs_fd s3) = []"
    "stream (rx s3 (ps2_netfs_fd s3)) = netfs_reply PS2NETFS_LSEEK_RLY r @ ?reads"
    using req_lseek.replied [OF s2(4-6), where fd = fd1 and offset = 0 and whence = 2] by (metis built_requests(3) k(2) s2(1,2))
  obtain r' s4 where o4: "ps2netfs_req_lseek fd1 0 0 s3 = Ret (r', s4)" and s4: "ps2_netfs_fd s4 = ?sock" "host s4 = fs1"
    "tx_log s4 = tx_log s3 @ [(?sock, lseek_request fd1 0 0)]" "wf_link s4" "tx_plan s4 (ps2_netfs_fd s4) = []"
    "stream (rx s4 (ps2_netfs_fd s4)) = ?reads"
    using req_lseek.replied [OF s3(4-6), where fd = fd1 and offset = 0 and whence = 0] by (metis built_requests(3) s3(1,2))
  obtain s5 where o5: "get_loop env fd0 fd1 n (local_array env BUFFER) s4 = Ret s5" and s5: "ps2_netfs_fd s5 = ?sock"
    "host s5 = host_writes (env_os env) fd0 (file_writes n (local_array env BUFFER) ds) fs1"
    "tx_log s5 = tx_log s4 @ map (Pair ?sock) (replicate (length ds) (read_request fd1 65536))" "wf_link s5"
    "tx_plan s5 (ps2_netfs_fd s5) = []" "stream (rx s5 (ps2_netfs_fd s5)) = netfs_reply PS2NETFS_CLOSE_RLY c @ rest"
    using get_loop_writes [OF s4(4,5) ds s4(6) n(2), of env fd0 fd1 "local_array env BUFFER"] s4(1,2,5) by auto
  obtain c' s6 where o6: "ps2netfs_req_close fd1 s5 = Ret (c', s6)"
    and s6: "host s6 = host s5" "tx_log s6 = tx_log s5 @ [(?sock, close_request fd1)]" "stream (rx s6 ?sock) = rest"
    using req_close.replied [OF s5(4-6), where fd = fd1] by (metis built_requests(2) s5(1))
  define s' where "s' = snd (on_host (\<lambda>fs. os_close (env_os env) fs fd0) s6)"
  have "get_file env src dst s = Ret (0, s')"
    using opened fd1(1) o2 o3 o4 o5 o6
    by (simp add: get_file_def on_host_def [of _ s] s1_def s'_def case_prod_beta)
  moreover have "host s' = snd (os_close (env_os env) (host s5) fd0)" "tx_log s' = tx_log s6" "rx s' = rx s6"
    by (simp_all add: s'_def on_host_def s6(1) case_prod_beta)
  moreover have "file_writes n (local_array env BUFFER) ds = ds"
    if "\<forall>d \<in> set (butlast ds). length d = 65536" "n = int (length (concat ds))"
    using file_writes_full [OF that(1)] ds that(2) by (simp add: local_array_def min_def)
  ultimately show ?thesis using s2(3) s3(3) s4(3) s5(2,3) s6 by simp
qed

definition copy_env :: "int env" where
  "copy_env = example_env\<lparr>env_os := no_files\<lparr>os_open := \<lambda>fs p f m. (3, 0),
     os_write := \<lambda>fs fd bs. (int (length bs), 10 * fs + uint (last bs)), os_close := \<lambda>fs fd. (0, fs + 500)\<rparr>\<rparr>"

theorem get_file_copies_witness:
  "\<exists>s'. get_file copy_env ''mc0:g'' ''f'' (shell_example\<lparr>rx := \<lambda>_. [Arrive (netfs_reply PS2NETFS_OPEN_RLY 6 @
       netfs_reply PS2NETFS_LSEEK_RLY 2), Arrive (netfs_reply PS2NETFS_LSEEK_RLY 0 @ read_reply [8, 9] @
       netfs_reply PS2NETFS_CLOSE_RLY 0)]\<rparr>) = Ret (0, s')
   \<and> tx_log s' = map (Pair 5) [open_request ''mc0:g'' 1, lseek_request 6 0 2, lseek_request 6 0 0,
       read_request 6 65536, close_request 6]
   \<and> host s' = 509"
proof -
  let ?s = "shell_example\<lparr>rx := \<lambda>_. [Arrive (netfs_reply PS2NETFS_OPEN_RLY 6 @
       netfs_reply PS2NETFS_LSEEK_RLY 2), Arrive (netfs_reply PS2NETFS_LSEEK_RLY 0 @ read_reply [8, 9] @
       netfs_reply PS2NETFS_CLOSE_RLY 0)]\<rparr>"
  have s: "wf_link ?s" "tx_plan ?s (ps2_netfs_fd ?s) = []" "ps2_netfs_fd ?s = 5" "tx_log ?s = []"
    "stream (rx ?s (ps2_netfs_fd ?s)) = netfs_reply PS2NETFS_OPEN_RLY 6 @ netfs_reply PS2NETFS_LSEEK_RLY 2 @
      netfs_reply PS2NETFS_LSEEK_RLY 0 @ concat (map read_reply [[8, 9]]) @ netfs_reply PS2NETFS_CLOSE_RLY 0 @ []"
    by (simp_all add: wf_link_def shell_example_def shell_init_def link_init_def link.defs)
  have os: "os_open (env_os copy_env) (host ?s) ''f'' (O_RDWR OR O_CREAT) 0x1A4 = (3, 0)" by (simp add: copy_env_def)
  have out: "host_writes (env_os copy_env) 3 [[8, 9]] 0 = 9" "os_close (env_os copy_env) 9 3 = (0, 509)"
    by (simp_all add: copy_env_def host_writes_def)
  obtain s' where s': "get_file copy_env ''mc0:g'' ''f'' ?s = Ret (0, s')"
    "tx_log s' = tx_log ?s @ map (Pair (ps2_netfs_fd ?s)) ([open_request ''mc0:g'' PS2_O_RDONLY, lseek_request 6 0 2,
       lseek_request 6 0 0] @ replicate (length [[8, 9 :: byte]]) (read_request 6 65536) @ [close_request 6])"
    "host s' = snd (os_close (env_os copy_env) (host_writes (env_os copy_env) 3
       (file_writes 2 (local_array copy_env BUFFER) [[8, 9]]) 0) 3)"
    "file_writes 2 (local_array copy_env BUFFER) [[8, 9]] = [[8, 9]]"
    using get_file_copies [OF s(1,2) os _ _ _ _ _ _ s(5), where src = "''mc0:g''"] by (auto simp: is_cint_def)
  then show ?thesis using s(3,4) out by simp
qed

section \<open>Copying to the console\<close>

text \<open>
  The \<open>read\<close> calls of the host on \<open>fd\<close>, one after the other, deliver the pieces \<open>ds\<close>, from the state
  \<open>fs\<close> to \<open>fs'\<close>.
\<close>

fun host_reads :: "'fs os \<Rightarrow> int \<Rightarrow> byte list list \<Rightarrow> 'fs \<Rightarrow> 'fs \<Rightarrow> bool" where
  "host_reads os fd [] fs fs' = (fs' = fs)"
| "host_reads os fd (d # ds) fs fs' =
     (fst (os_read os fs fd 65536) = (int (length d), d) \<and> host_reads os fd ds (snd (os_read os fs fd 65536)) fs')"

text \<open>
  The counts \<open>ks\<close>, added to the ones before, use up the size \<open>n\<close>: the last of them, and no one before, reaches
  it, and no sum leaves the range of an \<open>int\<close>. The other case is a sum that leaves it.
\<close>

fun uses_up :: "int \<Rightarrow> int \<Rightarrow> int list \<Rightarrow> bool" where
  "uses_up copied n [] \<longleftrightarrow> n \<le> copied"
| "uses_up copied n (k # ks) \<longleftrightarrow> copied < n \<and> is_cint (copied + k) \<and> uses_up (copied + k) n ks"

fun overflows :: "int \<Rightarrow> int \<Rightarrow> int list \<Rightarrow> bool" where
  "overflows copied n [] \<longleftrightarrow> False"
| "overflows copied n (k # ks) \<longleftrightarrow> copied < n \<and> (is_cint (copied + k) \<longrightarrow> overflows (copied + k) n ks)"

text \<open>What goes to the console for a piece: the request, and the data behind it.\<close>

definition piece_sent :: "int \<Rightarrow> byte list \<Rightarrow> byte list list" where
  "piece_sent fd d = [write_request fd (int (length d)), d]"

text \<open>One piece: it is read, sent and answered.\<close>

lemma put_loop_piece:
  assumes "wf_link s" and "tx_plan s (ps2_netfs_fd s) = []"
    and rd: "os_read (env_os env) (host s) fd0 65536 = ((int (length d), d), fs1)"
    and d: "length d \<le> 65536" and k: "is_cint k"
    and strm: "stream (rx s (ps2_netfs_fd s)) = netfs_reply PS2NETFS_WRITE_RLY k @ rest"
    and "copied < n" and buffer: "length buffer = 65536"
  obtains s1 where "put_loop env fd0 fd1 copied n buffer s =
      (if is_cint (copied + k) then put_loop env fd0 fd1 (copied + k) n (poke 0 d buffer) s1 else Some Crash)"
    and "length (poke 0 d buffer) = 65536" and "wf_link s1" and "stream (rx s1 (ps2_netfs_fd s)) = rest"
    and "tx_log s1 = tx_log s @ map (Pair (ps2_netfs_fd s)) (piece_sent fd1 d)"
    and "host s1 = fs1" and "tx_plan s1 = tx_plan s" and "ps2_netfs_fd s1 = ps2_netfs_fd s"
proof -
  have len: "length (poke 0 d buffer) = 65536" using buffer d by (simp add: length_poke)
  obtain es buf where wr: "ps2netfs_req_write fd1 (poke 0 d buffer) (int (length d)) (s\<lparr>host := fs1\<rparr>) = Ret (to_cint (of_cint k),
      s\<lparr>host := fs1, rx := (rx s)(ps2_netfs_fd s := es), send_packet := buf,
        tx_log := tx_log s @ map (Pair (ps2_netfs_fd s)) [write_request fd1 (int (length d)), take (nat (int (length d))) (poke 0 d buffer)],
        recv_packet := poke 0 (packet PS2NETFS_WRITE_RLY (be32 (of_cint k))) (recv_packet s)\<rparr>)"
    and es: "stream es = rest" and buf: "length buf = PACKET_MAXSIZE"
  proof -
    have "wf_link (s\<lparr>host := fs1\<rparr>)" using assms(1) by (simp add: wf_link_def)
    moreover have "stream (rx s (ps2_netfs_fd s)) = packet PS2NETFS_WRITE_RLY (be32 (of_cint k)) @ rest"
      using strm by (simp add: netfs_reply_def)
    ultimately show thesis
      using write_step [of "s\<lparr>host := fs1\<rparr>" "of_cint k" rest "int (length d)" "poke 0 d buffer" fd1] that assms(2) len d
      by auto
  qed
  define s1 where "s1 = s\<lparr>host := fs1, rx := (rx s)(ps2_netfs_fd s := es), send_packet := buf,
        tx_log := tx_log s @ map (Pair (ps2_netfs_fd s)) (piece_sent fd1 d),
        recv_packet := poke 0 (packet PS2NETFS_WRITE_RLY (be32 (of_cint k))) (recv_packet s)\<rparr>"
  have "take (length d) (poke 0 d buffer) = d" by (simp add: poke_def)
  then have "put_loop env fd0 fd1 copied n buffer s =
      (if is_cint (copied + k) then put_loop env fd0 fd1 (copied + k) n (poke 0 d buffer) s1 else Some Crash)"
    using assms(7) wr rd to_cint_of_cint [OF k] by (subst put_loop.simps) (simp add: on_host_def s1_def piece_sent_def)
  moreover have "wf_link s1" using assms(1) buf
    by (simp add: s1_def wf_link_def length_poke packet_def be32_def le32_def)
  ultimately show thesis using that len es by (simp add: s1_def)
qed

lemma put_loop_pieces:
  assumes "wf_link s" and "tx_plan s (ps2_netfs_fd s) = []"
    and "host_reads (env_os env) fd0 (map fst ps) (host s) fs"
    and "\<forall>(d, k) \<in> set ps. length d \<le> 65536 \<and> is_cint k"
    and "stream (rx s (ps2_netfs_fd s)) = concat (map (netfs_reply PS2NETFS_WRITE_RLY \<circ> snd) ps) @ rest"
    and "length buffer = 65536"
  shows "(uses_up copied n (map snd ps) \<longrightarrow>
       (\<exists>s'. put_loop env fd0 fd1 copied n buffer s = Some (Ret s') \<and> stream (rx s' (ps2_netfs_fd s)) = rest \<and>
          tx_log s' = tx_log s @ map (Pair (ps2_netfs_fd s)) (concat (map (piece_sent fd1 \<circ> fst) ps)) \<and>
          host s' = fs \<and> wf_link s' \<and> tx_plan s' = tx_plan s \<and> ps2_netfs_fd s' = ps2_netfs_fd s))
     \<and> (overflows copied n (map snd ps) \<longrightarrow> put_loop env fd0 fd1 copied n buffer s = Some Crash)"
  using assms
proof (induction ps arbitrary: copied buffer s)
  case Nil
  then show ?case by (subst put_loop.simps) simp
next
  case (Cons p ps)
  obtain d k where p: "p = (d, k)" by (cases p)
  show ?case
  proof (cases "copied < n")
    case True
    define fs1 where "fs1 = snd (os_read (env_os env) (host s) fd0 65536)"
    have rd: "os_read (env_os env) (host s) fd0 65536 = ((int (length d), d), fs1)"
      using Cons.prems(3) by (simp add: p fs1_def prod_eq_iff)
    have d: "length d \<le> 65536" "is_cint k" and strm: "stream (rx s (ps2_netfs_fd s)) = netfs_reply PS2NETFS_WRITE_RLY k @
        concat (map (netfs_reply PS2NETFS_WRITE_RLY \<circ> snd) ps) @ rest"
      using Cons.prems(4,5) by (auto simp: p comp_def)
    obtain s1 where step: "put_loop env fd0 fd1 copied n buffer s =
        (if is_cint (copied + k) then put_loop env fd0 fd1 (copied + k) n (poke 0 d buffer) s1 else Some Crash)"
      and s1: "length (poke 0 d buffer) = 65536" "wf_link s1"
      "stream (rx s1 (ps2_netfs_fd s)) = concat (map (netfs_reply PS2NETFS_WRITE_RLY \<circ> snd) ps) @ rest"
      "tx_log s1 = tx_log s @ map (Pair (ps2_netfs_fd s)) (piece_sent fd1 d)"
      "host s1 = fs1" "tx_plan s1 = tx_plan s" "ps2_netfs_fd s1 = ps2_netfs_fd s"
      by (rule put_loop_piece [OF Cons.prems(1,2) rd d strm True Cons.prems(6)])
    show ?thesis
      using Cons.IH [of s1 "poke 0 d buffer" "copied + k"] Cons.prems(2-4) s1 True by (simp add: p step fs1_def comp_def)
  qed (simp add: p)
qed

text \<open>
  C34. Copying a file to the console, when every reply of the service arrives: the file is opened and
  closed there, and in between each piece that the host's \<open>read\<close> delivers is announced by its length
  and sent, once and in order, until the counts that the service answers reach the size of the file, cut to an
  \<open>int\<close>. The command succeeds and leaves the stream behind the last reply. A count smaller than the piece
  does not make the rest go out again. If the sum of the counts leaves the range of an \<open>int\<close> before it reaches the
  size, it is undefined what the program does.
\<close>

theorem put_file_copies:
  assumes wf: "wf_link s" and plan: "tx_plan s (ps2_netfs_fd s) = []"
    and opened: "os_open (env_os env) (host s) src O_RDONLY 0 = (fd0, fs1)" "0 \<le> fd0"
    and size: "os_lseek (env_os env) fs1 fd0 0 2 = (n, fs2)" "os_lseek (env_os env) fs2 fd0 0 0 = (r, fs3)"
    and reads: "host_reads (env_os env) fd0 (map fst ps) fs3 fs4"
    and ps: "\<forall>(d, k) \<in> set ps. length d \<le> 65536 \<and> is_cint k"
    and fd1: "0 \<le> fd1" "is_cint fd1"
    and strm: "stream (rx s (ps2_netfs_fd s)) = netfs_reply PS2NETFS_OPEN_RLY fd1 @
      concat (map (netfs_reply PS2NETFS_WRITE_RLY \<circ> snd) ps) @ netfs_reply PS2NETFS_CLOSE_RLY c @ rest"
  shows "(uses_up 0 (to_cint (of_cint n)) (map snd ps) \<longrightarrow>
       (\<exists>s'. put_file env src dst s = Ret (0, s') \<and> stream (rx s' (ps2_netfs_fd s)) = rest
          \<and> tx_log s' = tx_log s @ map (Pair (ps2_netfs_fd s))
              (open_request dst (PS2_O_WRONLY OR PS2_O_CREAT) # concat (map (piece_sent fd1 \<circ> fst) ps) @ [close_request fd1])
          \<and> host s' = snd (os_close (env_os env) fs4 fd0)))
     \<and> (overflows 0 (to_cint (of_cint n)) (map snd ps) \<longrightarrow> put_file env src dst s = Crash)"
proof -
  let ?sock = "ps2_netfs_fd s" and ?n = "to_cint (of_cint n)" and ?rest = "concat (map (netfs_reply PS2NETFS_WRITE_RLY \<circ> snd) ps) @
      netfs_reply PS2NETFS_CLOSE_RLY c @ rest"
  define s1 where "s1 = s\<lparr>host := fs1\<rparr>"
  have s1: "wf_link s1" "tx_plan s1 (ps2_netfs_fd s1) = []" "ps2_netfs_fd s1 = ?sock" "host s1 = fs1"
    "tx_log s1 = tx_log s" "answers PS2NETFS_OPEN_RLY (of_cint fd1) [] ?rest s1"
    using wf plan strm by (simp_all add: s1_def wf_link_def answers_def netfs_reply_def [of PS2NETFS_OPEN_RLY])
  obtain s2 where o1: "ps2netfs_req_open dst (PS2_O_WRONLY OR PS2_O_CREAT) s1 = Ret (fd1, s2)"
    and s2: "stream (rx s2 ?sock) = ?rest" "wf_link s2" "tx_plan s2 ?sock = []" "ps2_netfs_fd s2 = ?sock" "host s2 = fs1"
    "tx_log s2 = tx_log s @ [(?sock, open_request dst (PS2_O_WRONLY OR PS2_O_CREAT))]"
    using req_open.answered_keeps [OF s1(1,2,6), of dst "PS2_O_WRONLY OR PS2_O_CREAT"] s1 to_cint_of_cint [OF fd1(2)]
    by (auto simp: built_requests)
  define s3 where "s3 = s2\<lparr>host := fs3\<rparr>"
  have s3: "wf_link s3" "tx_plan s3 (ps2_netfs_fd s3) = []" "ps2_netfs_fd s3 = ?sock" "host s3 = fs3" "tx_log s3 = tx_log s2"
    "stream (rx s3 (ps2_netfs_fd s3)) = ?rest"
    using s2 by (simp_all add: s3_def wf_link_def)
  have loop: "(uses_up 0 ?n (map snd ps) \<longrightarrow>
       (\<exists>s4. put_loop env fd0 fd1 0 ?n (local_array env BUFFER) s3 = Some (Ret s4) \<and>
          stream (rx s4 ?sock) = netfs_reply PS2NETFS_CLOSE_RLY c @ rest \<and>
          tx_log s4 = tx_log s3 @ map (Pair ?sock) (concat (map (piece_sent fd1 \<circ> fst) ps)) \<and>
          host s4 = fs4 \<and> wf_link s4 \<and> tx_plan s4 = tx_plan s3 \<and> ps2_netfs_fd s4 = ?sock))
     \<and> (overflows 0 ?n (map snd ps) \<longrightarrow> put_loop env fd0 fd1 0 ?n (local_array env BUFFER) s3 = Some Crash)"
  proof -
    have "length (local_array env BUFFER) = 65536" by (simp add: local_array_def min_def)
    then show ?thesis
      using put_loop_pieces [OF s3(1,2) _ ps s3(6), of env fd0 fs4 "local_array env BUFFER" 0 ?n fd1] reads s3(3,4) by simp
  qed
  have start: "put_file env src dst s =
      obind (case put_loop env fd0 fd1 0 ?n (local_array env BUFFER) s3 of None \<Rightarrow> Hang | Some m \<Rightarrow> m) (\<lambda>s.
      obind (ps2netfs_req_close fd1 s) (\<lambda>(r, s). Ret (0, snd (on_host (\<lambda>fs. os_close (env_os env) fs fd0) s))))"
    using opened size fd1(1) o1 s2(5) by (simp add: put_file_def on_host_def s1_def s3_def case_prod_beta Let_def)
  show ?thesis
  proof (intro conjI impI)
    assume "uses_up 0 ?n (map snd ps)"
    then obtain s4 where p1: "put_loop env fd0 fd1 0 ?n (local_array env BUFFER) s3 = Some (Ret s4)"
      and s4: "stream (rx s4 ?sock) = netfs_reply PS2NETFS_CLOSE_RLY c @ rest"
      "tx_log s4 = tx_log s3 @ map (Pair ?sock) (concat (map (piece_sent fd1 \<circ> fst) ps))"
      "host s4 = fs4" "wf_link s4" "tx_plan s4 = tx_plan s3" "ps2_netfs_fd s4 = ?sock"
      using loop by blast
    have plan4: "tx_plan s4 (ps2_netfs_fd s4) = []" using s4(5,6) s3(2,3) by simp
    obtain r' s5 where c1: "ps2netfs_req_close fd1 s4 = Ret (r', s5)"
      and s5: "stream (rx s5 ?sock) = rest" "tx_log s5 = tx_log s4 @ [(?sock, close_request fd1)]" "host s5 = fs4"
      using req_close.answered_keeps [OF s4(4) plan4, of "of_cint c" "[]" rest fd1] s4
      by (auto simp: built_requests answers_def netfs_reply_def)
    have "put_file env src dst s = Ret (0, s5\<lparr>host := snd (os_close (env_os env) fs4 fd0)\<rparr>)"
      using start p1 c1 s5(3) by (simp add: on_host_def case_prod_beta)
    then show "\<exists>s'. put_file env src dst s = Ret (0, s') \<and> stream (rx s' ?sock) = rest
       \<and> tx_log s' = tx_log s @ map (Pair ?sock)
           (open_request dst (PS2_O_WRONLY OR PS2_O_CREAT) # concat (map (piece_sent fd1 \<circ> fst) ps) @ [close_request fd1])
       \<and> host s' = snd (os_close (env_os env) fs4 fd0)"
      using s2(6) s3(5) s4(2) s5 by simp
  qed (use start loop in simp)
qed

theorem put_file_copies_witness:
  "\<exists>s'. put_file (example_env\<lparr>env_os := no_files\<lparr>os_open := \<lambda>fs p f m. (3, 0), os_lseek := \<lambda>fs fd k w. (if w = 2 then 3 else 0, fs),
       os_read := \<lambda>fs fd n. (if fs = 0 then (2, [8, 9]) else (1, [7]), fs + 1), os_close := \<lambda>fs fd. (0, 10 * fs)\<rparr>\<rparr>)
     ''f'' ''mc0:g'' (shell_example\<lparr>rx := \<lambda>_. [Arrive (netfs_reply PS2NETFS_OPEN_RLY 6 @ netfs_reply PS2NETFS_WRITE_RLY 2),
       Arrive (netfs_reply PS2NETFS_WRITE_RLY 1 @ netfs_reply PS2NETFS_CLOSE_RLY 0)]\<rparr>) = Ret (0, s')
   \<and> tx_log s' = map (Pair 5) [open_request ''mc0:g'' 0x202, write_request 6 2, [8, 9], write_request 6 1, [7], close_request 6]
   \<and> host s' = 20"
proof -
  let ?env = "example_env\<lparr>env_os := no_files\<lparr>os_open := \<lambda>fs p f m. (3, 0), os_lseek := \<lambda>fs fd k w. (if w = 2 then 3 else 0, fs),
       os_read := \<lambda>fs fd n. (if fs = 0 then (2, [8, 9]) else (1, [7]), fs + 1), os_close := \<lambda>fs fd. (0, 10 * fs)\<rparr>\<rparr>"
  let ?s = "shell_example\<lparr>rx := \<lambda>_. [Arrive (netfs_reply PS2NETFS_OPEN_RLY 6 @ netfs_reply PS2NETFS_WRITE_RLY 2),
       Arrive (netfs_reply PS2NETFS_WRITE_RLY 1 @ netfs_reply PS2NETFS_CLOSE_RLY 0)]\<rparr>"
  let ?ps = "[([8, 9], 2), ([7], 1)] :: (byte list \<times> int) list"
  have s: "wf_link ?s" "tx_plan ?s (ps2_netfs_fd ?s) = []" "ps2_netfs_fd ?s = 5" "tx_log ?s = []"
    "stream (rx ?s (ps2_netfs_fd ?s)) = netfs_reply PS2NETFS_OPEN_RLY 6 @
      concat (map (netfs_reply PS2NETFS_WRITE_RLY \<circ> snd) ?ps) @ netfs_reply PS2NETFS_CLOSE_RLY 0 @ []"
    by (simp_all add: wf_link_def shell_example_def shell_init_def link_init_def link.defs)
  have os: "os_open (env_os ?env) (host ?s) ''f'' O_RDONLY 0 = (3, 0)" "os_lseek (env_os ?env) 0 3 0 2 = (3, 0)"
    "os_lseek (env_os ?env) 0 3 0 0 = (0, 0)" "host_reads (env_os ?env) 3 (map fst ?ps) 0 2"
    "os_close (env_os ?env) 2 3 = (0, 20)"
    by simp_all
  have "\<exists>s'. put_file ?env ''f'' ''mc0:g'' ?s = Ret (0, s') \<and> stream (rx s' (ps2_netfs_fd ?s)) = [] \<and>
      tx_log s' = tx_log ?s @ map (Pair (ps2_netfs_fd ?s)) (open_request ''mc0:g'' (PS2_O_WRONLY OR PS2_O_CREAT) #
        concat (map (piece_sent 6 \<circ> fst) ?ps) @ [close_request 6]) \<and> host s' = snd (os_close (env_os ?env) 2 3)"
    by (rule put_file_copies [OF s(1,2) os(1) _ os(2,3,4) _ _ _ s(5), THEN conjunct1, THEN mp]) (simp_all add: is_cint_def)
  moreover have "PS2_O_WRONLY OR PS2_O_CREAT = 0x202" by simp
  ultimately show ?thesis
    using s(3,4) os(5) by (simp add: piece_sent_def) blast
qed

section \<open>Files that cannot be opened\<close>

lemma open_refused:
  assumes wf: "wf_link s" and plan: "tx_plan s (ps2_netfs_fd s) = []" and k: "is_cint k"
    and strm: "stream (rx s (ps2_netfs_fd s)) = netfs_reply PS2NETFS_OPEN_RLY k @ rest"
  obtains s' where "ps2netfs_req_open path mode (s\<lparr>host := fs\<rparr>) = Ret (k, s')" and "host s' = fs"
    and "stream (rx s' (ps2_netfs_fd s)) = rest" and "tx_log s' = tx_log s @ [(ps2_netfs_fd s, open_request path mode)]"
proof -
  have "wf_link (s\<lparr>host := fs\<rparr>)" "tx_plan (s\<lparr>host := fs\<rparr>) (ps2_netfs_fd (s\<lparr>host := fs\<rparr>)) = []"
    "stream (rx (s\<lparr>host := fs\<rparr>) (ps2_netfs_fd (s\<lparr>host := fs\<rparr>))) = netfs_reply PS2NETFS_OPEN_RLY k @ rest"
    using wf plan strm by (simp_all add: wf_link_def)
  from req_open.replied [OF this, where path = path and mode = mode] obtain s' where
    "ps2netfs_req_open path mode (s\<lparr>host := fs\<rparr>) = Ret (k, s')" "host s' = fs" "stream (rx s' (ps2_netfs_fd s)) = rest"
    "tx_log s' = tx_log s @ [(ps2_netfs_fd s, open_request path mode)]"
    using to_cint_of_cint [OF k] by (auto simp: built_requests)
  then show thesis by (rule that)
qed

text \<open>
  C35. A copy that cannot start. When the host does not open its file, the command fails and nothing goes
  to the console. When the console answers the request to open its file with a negative number, the
  command fails too, nothing more is sent and the stream is behind that reply; but the host's file stays
  open and, in a copy from the console, created: the host is left as \<open>open\<close> left it.
\<close>

theorem copy_refused:
  assumes wf: "wf_link s" and plan: "tx_plan s (ps2_netfs_fd s) = []" and k: "is_cint k" "k < 0"
    and strm: "stream (rx s (ps2_netfs_fd s)) = netfs_reply PS2NETFS_OPEN_RLY k @ rest"
    and get: "os_open (env_os env) (host s) dst (O_RDWR OR O_CREAT) 0x1A4 = (gfd, gfs)"
    and put: "os_open (env_os env) (host s) src O_RDONLY 0 = (pfd, pfs)"
  shows "(if gfd < 0 then get_file env src dst s = Ret (-1, s\<lparr>host := gfs\<rparr>)
     else \<exists>s'. get_file env src dst s = Ret (-1, s') \<and> host s' = gfs \<and> stream (rx s' (ps2_netfs_fd s)) = rest
       \<and> tx_log s' = tx_log s @ [(ps2_netfs_fd s, open_request src PS2_O_RDONLY)])
   \<and> (if pfd < 0 then put_file env src dst s = Ret (-1, s\<lparr>host := pfs\<rparr>)
     else \<exists>s'. put_file env src dst s = Ret (-1, s') \<and> host s' = pfs \<and> stream (rx s' (ps2_netfs_fd s)) = rest
       \<and> tx_log s' = tx_log s @ [(ps2_netfs_fd s, open_request dst (PS2_O_WRONLY OR PS2_O_CREAT))])" (is "?get \<and> ?put")
proof
  obtain s1 where "ps2netfs_req_open src PS2_O_RDONLY (s\<lparr>host := gfs\<rparr>) = Ret (k, s1)" "host s1 = gfs"
    "stream (rx s1 (ps2_netfs_fd s)) = rest" "tx_log s1 = tx_log s @ [(ps2_netfs_fd s, open_request src PS2_O_RDONLY)]"
    by (rule open_refused [OF wf plan k(1) strm])
  then show ?get using get k(2) by (simp add: get_file_def on_host_def)
  obtain s2 where "ps2netfs_req_open dst (PS2_O_WRONLY OR PS2_O_CREAT) (s\<lparr>host := pfs\<rparr>) = Ret (k, s2)" "host s2 = pfs"
    "stream (rx s2 (ps2_netfs_fd s)) = rest"
    "tx_log s2 = tx_log s @ [(ps2_netfs_fd s, open_request dst (PS2_O_WRONLY OR PS2_O_CREAT))]"
    by (rule open_refused [OF wf plan k(1) strm])
  then show ?put using put k(2) by (simp add: put_file_def on_host_def)
qed

theorem copy_refused_witness:
  "(\<exists>s'. get_file copy_env ''mc0:g'' ''f'' (shell_example\<lparr>rx := \<lambda>_. [Arrive (netfs_reply PS2NETFS_OPEN_RLY (-2))]\<rparr>) = Ret (-1, s')
       \<and> host s' = 0 \<and> tx_log s' = [(5, open_request ''mc0:g'' 1)])
   \<and> put_file example_env ''f'' ''mc0:g'' (shell_example\<lparr>rx := \<lambda>_. [Arrive (netfs_reply PS2NETFS_OPEN_RLY (-2))]\<rparr>) =
       Ret (-1, shell_example\<lparr>rx := \<lambda>_. [Arrive (netfs_reply PS2NETFS_OPEN_RLY (-2))], host := 7\<rparr>)"
proof -
  let ?s = "shell_example\<lparr>rx := \<lambda>_. [Arrive (netfs_reply PS2NETFS_OPEN_RLY (-2))]\<rparr>"
  have s: "wf_link ?s" "tx_plan ?s (ps2_netfs_fd ?s) = []" "is_cint (-2)" "-2 < (0 :: int)"
    "stream (rx ?s (ps2_netfs_fd ?s)) = netfs_reply PS2NETFS_OPEN_RLY (-2) @ []" "ps2_netfs_fd ?s = 5" "tx_log ?s = []"
    "host ?s = 7"
    by (simp_all add: wf_link_def is_cint_def shell_example_def shell_init_def link_init_def link.defs)
  have os: "os_open (env_os copy_env) (host ?s) p f m = (3, 0)" "os_open (env_os example_env) (host ?s) p f m = (-1, 7)"
    for p f m using s(8) by (simp_all add: copy_env_def no_files_def)
  show ?thesis
    using copy_refused [OF s(1-5) os(1) os(1), of "''mc0:g''" "''f''"]
      copy_refused [OF s(1-5) os(2) os(2), of "''f''" "''mc0:g''"] s(6,7) by simp blast
qed

section \<open>Which way a file is copied\<close>

lemma split_filename_device:
  assumes "length arg + 1 < MAXPATHLEN"
  obtains dev f where "split_filename MAXPATHLEN MAXPATHLEN MAXPATHLEN arg = Ret (dev, '''', f)"
    and "dev \<noteq> '''' \<longleftrightarrow> CHR '':'' \<in> set arg"
proof (cases "strchr arg CHR '':''")
  case None
  then have "CHR '':'' \<notin> set arg" by (simp add: strchr_None_iff)
  with None show thesis using that by (simp add: split_filename_def strstr_char)
next
  case (Some i)
  then have "i < length arg" "CHR '':'' \<in> set arg" by (auto simp: strchr_Some_iff) (metis nth_mem)
  moreover have "take (Suc i) arg \<noteq> ''''" using calculation by auto
  ultimately show thesis using that [of "take (Suc i) arg"] Some assms by (simp add: split_filename_def strstr_char)
qed

lemma build_argv_pair:
  assumes "word a" and "word b" and "\<forall>n. n < room n"
  shows "build_argv room (Some (a @ '' '' @ b)) = Ret (2, [a, b])"
  using build_loop_words [of "[a, b]" room 0] assms by (simp add: build_argv_def)

text \<open>
  \<open>cp\<close> of one file to another. With arrays of \<open>MAXPATHLEN\<close> characters for the second name it would copy
  from the console if the first name has a device, to the console if only the second has, and else run
  \<open>cp\<close> on the host; the names are read from memory that was freed. The arrays have 256 characters, so the
  command writes past them whatever the names are.
\<close>

theorem cli_copy_overflows:
  assumes "word a" and "word b" and "length a + 1 < MAXPATHLEN" and "length b + 1 < MAXPATHLEN"
    and "\<forall>n. n < env_room env n"
  shows "cli_copy env (a @ '' '' @ b) s = Crash
   \<and> copy_files env MAXPATHLEN (a @ '' '' @ b) s =
      (let argv = env_freed env [a, b] in
       if CHR '':'' \<in> set a then on_netfs env (get_file env (argv ! 0) (argv ! 1)) s
       else if CHR '':'' \<in> set b then on_netfs env (put_file env (argv ! 0) (argv ! 1)) s
       else clicom_system env (''cp '' @ a @ '' '' @ b) s)"
proof
  obtain dev f where a: "split_filename MAXPATHLEN MAXPATHLEN MAXPATHLEN a = Ret (dev, '''', f)"
    "dev \<noteq> '''' \<longleftrightarrow> CHR '':'' \<in> set a" using split_filename_device [OF assms(3)] .
  obtain dev2 f2 where b: "split_filename MAXPATHLEN MAXPATHLEN MAXPATHLEN b = Ret (dev2, '''', f2)"
    "dev2 \<noteq> '''' \<longleftrightarrow> CHR '':'' \<in> set b" using split_filename_device [OF assms(4)] .
  have argv: "build_argv (env_room env) (Some (a @ '' '' @ b)) = Ret (2, [a, b])"
    by (rule build_argv_pair) (use assms in auto)
  have small: "split_filename MAX_PATH MAX_PATH MAX_PATH b = Crash" by (simp add: split_filename_def)
  show "cli_copy env (a @ '' '' @ b) s = Crash"
    using argv a small by (simp add: cli_copy_def copy_files_def)
  show "copy_files env MAXPATHLEN (a @ '' '' @ b) s =
      (let argv = env_freed env [a, b] in
       if CHR '':'' \<in> set a then on_netfs env (get_file env (argv ! 0) (argv ! 1)) s
       else if CHR '':'' \<in> set b then on_netfs env (put_file env (argv ! 0) (argv ! 1)) s
       else clicom_system env (''cp '' @ a @ '' '' @ b) s)"
    using argv a b by (simp add: copy_files_def free_argv_def Let_def)
qed

theorem cli_copy_overflows_witness:
  "cli_copy example_env ''f pfs0:g'' shell_example = Crash"
  using cli_copy_overflows [of "''f''" "''pfs0:g''" example_env shell_example] by (simp add: word_def)

end
