(* ===== verification/Tools.thy ===== *)
theory Tools
  imports Shell
begin

text \<open>
  The batch tools: \<open>eeexec.c\<close>, \<open>iopexec.c\<close>, \<open>gsexec.c\<close>, \<open>dumpmem.c\<close>, \<open>dumpreg.c\<close>, \<open>viewmem.c\<close> and
  \<open>reset.c\<close>. Each one looks for a shell on this host, which would pass its request on; if there is none it
  connects to the console itself and serves its files. The state is that of the batch loop.
\<close>

section \<open>Options\<close>

text \<open>
  \<open>getopt\<close> of the C library: \<open>takes c\<close> is whether the option \<open>c\<close> has an argument, if there is such an option.
  The words that are no options are moved behind the others. The result are the options with their
  arguments, the words of the options, and the rest, from \<open>optind\<close> on.
\<close>

type_synonym options = "char \<Rightarrow> bool option"

fun opt_word :: "options \<Rightarrow> string \<Rightarrow> string list \<Rightarrow> (char \<times> string) list \<times> string list \<times> string list" where
  "opt_word takes [] ws = ([], [], ws)"
| "opt_word takes (c # cs) ws =
     (case takes c of
        None \<Rightarrow> let (os, used, ws') = opt_word takes cs ws in ((CHR ''?'', '''') # os, used, ws')
      | Some False \<Rightarrow> let (os, used, ws') = opt_word takes cs ws in ((c, '''') # os, used, ws')
      | Some True \<Rightarrow>
          if cs \<noteq> [] then ([(c, cs)], [], ws)
          else (case ws of [] \<Rightarrow> ([(CHR ''?'', '''')], [], []) | w # ws' \<Rightarrow> ([(c, w)], [w], ws')))"

lemma opt_word_shorter: "opt_word takes cs ws = (os, used, ws') \<Longrightarrow> length ws' \<le> length ws"
  by (induction takes cs ws arbitrary: os used rule: opt_word.induct)
    (auto split: option.splits bool.splits if_splits list.splits prod.splits)

function getopt :: "options \<Rightarrow> string list \<Rightarrow> (char \<times> string) list \<times> string list \<times> string list" where
  "getopt takes [] = ([], [], [])"
| "getopt takes (w # ws) =
     (if w = ''--'' then ([], [w], ws)
      else if prefix ''-'' w \<and> 1 < length w then
        let (os, used, ws') = opt_word takes (tl w) ws; (os', used', args) = getopt takes ws'
        in (os @ os', w # used @ used', args)
      else let (os, used, args) = getopt takes ws in (os, used, w # args))"
  by pat_completeness auto
termination
  by (relation "measure (\<lambda>(takes, ws). length ws)") (auto dest: opt_word_shorter [OF sym])

text \<open>\<open>strncpy(dst_ip, optarg, 16)\<close>: the last address given, in an array of 16 characters that is zero.\<close>

definition tool_ip :: "(char \<times> string) list \<Rightarrow> byte list" where
  "tool_ip os = foldl (\<lambda>ip (c, optarg). if c = CHR ''h'' then strncpy optarg 16 else ip) (replicate 16 0) os"

definition host_option :: options where
  "host_option c = (if c = CHR ''h'' then Some True else None)"

definition timeout_option :: options where
  "timeout_option c = (if c = CHR ''h'' \<or> c = CHR ''t'' then Some True else None)"

definition view_option :: options where
  "view_option c =
     (if c = CHR ''h'' then Some True else if c = CHR ''f'' \<or> c = CHR ''w'' \<or> c = CHR ''q'' then Some False else None)"

text \<open>\<open>strtol\<close> finds no number, so \<open>end_ptr\<close> is the start of the string.\<close>

definition no_number :: "string \<Rightarrow> bool" where
  "no_number s =
     (let s = dropWhile isspace s; s = (if s \<noteq> [] \<and> (hd s = CHR ''-'' \<or> hd s = CHR ''+'') then tl s else s)
      in s = [] \<or> \<not> digit_of 10 (hd s))"

section \<open>What the tools share\<close>

text \<open>
  What a tool runs on: the calls of the host, the working directory, what uninitialised memory holds, the
  results of the calls of \<open>select\<close> in the batch loop, and for \<open>viewmem\<close> the name \<open>tmpnam\<close> makes, the results
  of its calls of \<open>stat\<close>, and the contents of the file.
\<close>

record 'fs tenv =
  t_os :: "'fs os"
  t_net :: "'fs net"
  t_cwd :: "'fs \<Rightarrow> string option"
  t_junk :: "byte list"
  t_wakes :: "wake list"
  t_tmpnam :: string
  t_stats :: "(int \<times> stat) list"
  t_file :: "'fs \<Rightarrow> string \<Rightarrow> byte list option"

abbreviation (input) local_ip :: string where "local_ip \<equiv> ''127.0.0.1''"

type_synonym 'fs tool = "(int \<times> 'fs batch) outcome"

text \<open>A word of the command line; the one behind the last is \<open>NULL\<close>.\<close>

definition operand :: "nat \<Rightarrow> string list \<Rightarrow> string outcome" where
  "operand i args = (if i < length args then Ret (args ! i) else Crash)"

text \<open>The file in an array of 256 characters: in the working directory, if no device is named.\<close>

definition tool_file :: "'fs tenv \<Rightarrow> string \<Rightarrow> 'fs batch \<Rightarrow> string outcome" where
  "tool_file env arg s =
     obind (if \<not> arg_device_check arg then omap (\<lambda>cwd. cwd @ ''/'' @ arg) (of_option (t_cwd env (host s))) else Ret arg)
       (\<lambda>file. oguard (length file < MAX_PATH) (Ret file))"

definition file_array :: "string \<Rightarrow> byte list" where
  "file_array file = poke 0 (bytes_of file) (replicate MAX_PATH 0)"

text \<open>\<open>ps2link_open\<close> to the console; the address is read from its array.\<close>

definition open_console :: "'fs tenv \<Rightarrow> byte list \<Rightarrow> 'fs batch \<Rightarrow> ((int \<times> int) \<times> 'fs batch) outcome" where
  "open_console env ip s = obind (of_option (c_str ip)) (\<lambda>dst. Ret (ps2link_open (t_net env) dst s))"

text \<open>
  A tool that talks to the console itself: the connection for its files and the log are opened and put into
  the set for \<open>select\<close>, and requests are served.
\<close>

definition serve_console :: "'fs tenv \<Rightarrow> int \<Rightarrow> string \<Rightarrow> 'fs batch \<Rightarrow> 'fs tool" where
  "serve_console env nservice dst s =
     (let (fd, s) = cmd_listener (t_net env) dst SRV_PORT 60 s; s = s\<lparr>pko_srv_fd := fd\<rparr>;
          (lfd, s) = log_listener (t_net env) local_ip LOG_PORT s; s = s\<lparr>log_fd := lfd\<rparr> in
      oguard (0 \<le> fd \<and> fd < 1024 \<and> 0 \<le> lfd \<and> lfd < 1024)
        (omap (\<lambda>(ret, s). (0, s)) (batch_io_loop (t_os env) nservice (t_wakes env) s)))"

text \<open>The other address is only read if there is no shell here; \<open>request\<close> sends on the command connection.\<close>

definition remote_request ::
  "'fs tenv \<Rightarrow> int \<Rightarrow> byte list \<Rightarrow> (int \<Rightarrow> 'fs batch \<Rightarrow> 'fs tool) \<Rightarrow> 'fs batch \<Rightarrow> 'fs tool" where
  "remote_request env nservice ip request s =
     obind (of_option (c_str ip)) (\<lambda>dst.
     let s = snd (pko_cmd_con (t_net env) dst CMD_PORT s) in
     obind (request (cmd_fd s) s) (\<lambda>(ret, s). serve_console env nservice dst s))"

section \<open>eeexec and iopexec\<close>

text \<open>\<open>eeexec\<close>: the arguments of the program behind its name, with blanks between them.\<close>

definition eeexec_main :: "'fs tenv \<Rightarrow> string list \<Rightarrow> 'fs batch \<Rightarrow> 'fs tool" where
  "eeexec_main env argv s =
     (if length argv < 2 then Ret (0, s)
      else
        let (os, used, args) = getopt timeout_option (tl argv); ip = tool_ip os in
        if \<exists>(c, optarg) \<in> set os. c = CHR ''t'' \<and> no_number optarg then Ret (0, s)
        else
          let ((ret, sock), s) = ps2link_open (t_net env) local_ip s; s = s\<lparr>cmd_fd := sock\<rparr> in
          obind (if ret < 0 then open_console env ip (close_fd (cmd_fd s) s) else Ret ((ret, sock), s)) (\<lambda>((ret', sock'), s).
          let s = s\<lparr>cmd_fd := sock'\<rparr> in
          if ret' < 0 then Ret (-1, s)
          else
            obind (operand 0 args) (\<lambda>arg.
            obind (tool_file env arg s) (\<lambda>file.
            let file = file @ concat (map (\<lambda>a. '' '' @ a) (tl args)) in
            oguard (length file < MAX_PATH)
              (let request = (\<lambda>argc fd. pko_execee_req (t_junk env) fd (file_array file) (of_nat (length file)) argc) in
               if ret < 0 then
                 remote_request env 1 ip (request (of_nat (length args - 1))) (close_fd (cmd_fd s) s)
               else omap (\<lambda>(r, s). (0, s)) (request 1 (cmd_fd s) s))))))"

text \<open>\<open>iopexec\<close>: with a shell on this host the request goes to \<open>cmd_fd\<close>, although the connection is \<open>sock\<close>.\<close>

definition iopexec_main :: "'fs tenv \<Rightarrow> string list \<Rightarrow> 'fs batch \<Rightarrow> 'fs tool" where
  "iopexec_main env argv s =
     (if length argv < 2 then Ret (0, s)
      else
        let (os, used, args) = getopt timeout_option (tl argv); ip = tool_ip os in
        if \<exists>(c, optarg) \<in> set os. c = CHR ''t'' \<and> no_number optarg then Ret (0, s)
        else
          let ((ret, sock), s) = ps2link_open (t_net env) local_ip s in
          obind (if ret < 0 then open_console env ip (close_fd sock s) else Ret ((ret, sock), s)) (\<lambda>((ret', sock'), s).
          if ret' < 0 then Ret (-1, s)
          else
            obind (operand 0 args) (\<lambda>arg.
            obind (tool_file env arg s) (\<lambda>file.
            let request = (\<lambda>argc fd. pko_execiop_req (t_junk env) fd (file_array file) (of_nat (length file)) argc) in
            if ret < 0 then
              remote_request env 0 ip (request (of_nat (length args - 1))) (close_fd sock' s)
            else omap (\<lambda>(r, s). (0, s)) (request 1 (cmd_fd s) s)))))"

section \<open>gsexec, dumpmem and dumpreg\<close>

text \<open>
  \<open>sock = ps2link_open(&sock, local_ip)\<close>: the descriptor stored in \<open>sock\<close> is overwritten with the value that
  \<open>connect\<close> returns.
\<close>

definition open_local :: "'fs tenv \<Rightarrow> 'fs batch \<Rightarrow> int \<times> 'fs batch" where
  "open_local env s = (let ((ret, sock), s) = ps2link_open (t_net env) local_ip s in (ret, s))"

text \<open>In \<open>gsexec\<close> the address is a pointer to a string literal, which \<open>-h\<close> would overwrite.\<close>

definition gsexec_main :: "'fs tenv \<Rightarrow> string list \<Rightarrow> 'fs batch \<Rightarrow> 'fs tool" where
  "gsexec_main env argv s =
     (if length argv < 1 then Ret (0, s)
      else
        let (os, used, args) = getopt host_option (tl argv) in
        oguard (\<forall>(c, optarg) \<in> set os. c \<noteq> CHR ''h'')
          (let (ret, s) = open_local env s;
               ((ret', sock), s) = (if ret < 0 then ps2link_open (t_net env) ''127.0.0.2'' s else ((ret, ret), s)) in
           if ret' < 0 then Ret (-1, s)
           else
             obind (operand 0 args) (\<lambda>arg.
             obind (tool_file env arg s) (\<lambda>file.
             obind (operand 1 args) (\<lambda>arg1.
             if no_number arg1 then Ret (0, s)
             else omap (\<lambda>(r, s). (0, s)) (pko_gsexec_req sock (file_array file) (of_cint (strtol 0 arg1)) s))))))"

definition dumpmem_main :: "'fs tenv \<Rightarrow> string list \<Rightarrow> 'fs batch \<Rightarrow> 'fs tool" where
  "dumpmem_main env argv s =
     (if length argv < 2 then Ret (0, s)
      else
        let (os, used, args) = getopt host_option (tl argv); ip = tool_ip os; (ret, s) = open_local env s in
        obind (if ret < 0 then omap (\<lambda>((r, fd), s). (r, s\<lparr>cmd_fd := fd\<rparr>)) (open_console env ip s) else Ret (ret, s)) (\<lambda>(sock, s).
        if sock < 0 then Ret (-1, s)
        else
          obind (operand 0 args) (\<lambda>arg.
          obind (tool_file env arg s) (\<lambda>file.
          obind (operand 1 args) (\<lambda>arg1.
          if no_number arg1 then Ret (0, s)
          else
            obind (operand 2 args) (\<lambda>arg2.
            if no_number arg2 then Ret (0, s)
            else
              let request = (\<lambda>fd s. Ret (pko_dumpmemory_req fd file (of_cint (strtol 0 arg1)) (of_cint (strtol 0 arg2)) s)) in
              if ret < 0 then remote_request env 0 ip request (close_fd sock s)
              else omap (\<lambda>(r, s). (0, s)) (request sock s)))))))"

definition dumpreg_main :: "'fs tenv \<Rightarrow> string list \<Rightarrow> 'fs batch \<Rightarrow> 'fs tool" where
  "dumpreg_main env argv s =
     (if length argv < 3 then Ret (0, s)
      else
        let (os, used, args) = getopt host_option (tl argv); ip = tool_ip os; (ret, s) = open_local env s in
        obind (if ret < 0 then open_console env ip s else Ret ((ret, ret), s)) (\<lambda>((ret', sock), s).
        if ret' < 0 then Ret (-1, s)
        else
          obind (operand 0 args) (\<lambda>arg.
          obind (tool_file env arg s) (\<lambda>file.
          obind (operand 1 args) (\<lambda>arg1.
          let request = (\<lambda>fd s. Ret (pko_dumpregs_req fd file (of_nat (get_register_index arg1 (length arg1))) s)) in
          if ret < 0 then remote_request env 0 ip request (close_fd sock s)
          else omap (\<lambda>(r, s). (0, s)) (request sock s))))))"

section \<open>reset\<close>

definition reset_main :: "'fs tenv \<Rightarrow> string list \<Rightarrow> 'fs batch \<Rightarrow> 'fs tool" where
  "reset_main env argv s =
     (let (os, used, args) = getopt host_option (tl argv); ip = tool_ip os;
          ((ret, sock), s) = ps2link_open (t_net env) local_ip s in
      obind (if ret < 0 then open_console env ip (close_fd sock s) else Ret ((ret, sock), s)) (\<lambda>((ret', sock'), s).
      if ret' < 0 then Ret (-1, s)
      else if ret < 0 then
        obind (of_option (c_str ip)) (\<lambda>dst.
        let s = snd (pko_cmd_con (t_net env) dst CMD_PORT s) in
        Ret (0, snd (pko_reset_req (cmd_fd s) s)))
      else Ret (0, snd (pko_reset_req sock' s))))"

section \<open>viewmem\<close>

text \<open>
  The last loop over \<open>stat\<close> waits until the file has the size; the words of the file are printed in rows of
  one or four, as numbers or as what they are as floating-point numbers. Behind its end the last word is
  printed again.
\<close>

fun wait_file :: "(int \<times> stat) list \<Rightarrow> int \<Rightarrow> unit outcome" where
  "wait_file [] n = Hang"
| "wait_file ((ret, st) # sts) n = (if ret = 0 \<and> to_cint (st_size st) = n then Ret () else wait_file sts n)"

fun view_row :: "nat \<Rightarrow> byte list \<Rightarrow> byte list \<Rightarrow> u32 list \<times> byte list \<times> byte list" where
  "view_row 0 data file = ([], data, file)"
| "view_row (Suc n) data file =
     (let data = poke 0 (take 4 file) data; (ws, data', file') = view_row n data (drop 4 file)
      in (un_le32 data # ws, data', file'))"

fun view_rows :: "nat \<Rightarrow> nat \<Rightarrow> byte list \<Rightarrow> byte list \<Rightarrow> u32 list list" where
  "view_rows 0 width data file = []"
| "view_rows (Suc n) width data file =
     (let (row, data, file) = view_row (width div 4) data file in row # view_rows n width data file)"

text \<open>How often \<open>for (i = 0; i < size; i = i + width)\<close> runs.\<close>

definition row_count :: "int \<Rightarrow> nat \<Rightarrow> nat" where
  "row_count n width = (nat n + width - 1) div width"

definition view_width :: "(char \<times> string) list \<Rightarrow> nat" where
  "view_width os = foldl (\<lambda>w (c, optarg). if c = CHR ''w'' then 4 else if c = CHR ''q'' then 16 else w) 4 os"

text \<open>
  The value of \<open>main\<close> with the rows it printed. \<open>offset\<close> and \<open>size\<close> are the last two words, wherever the
  options are; \<open>close(cmd_fd)\<close> and the request to \<open>cmd_fd\<close> are as in the code.
\<close>

definition viewmem_main :: "'fs tenv \<Rightarrow> string list \<Rightarrow> 'fs batch \<Rightarrow> (int \<times> u32 list list \<times> 'fs batch) outcome" where
  "viewmem_main env argv s =
     (if length argv < 2 then Ret (0, [], s)
      else
        let (os, used, args) = getopt view_option (tl argv); ip = tool_ip os; argv = hd argv # used @ args;
            arg1 = argv ! (length argv - 2); arg2 = argv ! (length argv - 1) in
        if no_number arg1 \<or> no_number arg2 then Ret (0, [], s)
        else
          let offset = strtol 0 arg1; n = strtol 0 arg2; ((ret, sock), s) = ps2link_open (t_net env) local_ip s in
          obind (if ret < 0 then omap (\<lambda>((r, fd), s). (r, s\<lparr>cmd_fd := fd\<rparr>)) (open_console env ip (close_fd (cmd_fd s) s))
                 else Ret (ret, s)) (\<lambda>(ret', s).
          if ret' < 0 then Ret (-1, [], s)
          else
            let file = ''host:'' @ t_tmpnam env;
                request = (\<lambda>fd s. Ret (pko_dumpmemory_req fd file (of_cint offset) (of_cint n) s)) in
            obind (if ret < 0 then remote_request env 0 ip request (close_fd sock s) else request (cmd_fd s) s) (\<lambda>(r, s).
            obind (wait_file (t_stats env) n) (\<lambda>_.
            case t_file env (host s) (t_tmpnam env) of
              None \<Rightarrow> Ret (0, [], s)
            | Some bs \<Rightarrow> Ret (0, view_rows (row_count n (view_width os)) (view_width os) [0, 0, 0, 0] bs, s)))))"

section \<open>A request with a shell on this host\<close>

lemma getopt_plain: "\<forall>w \<in> set ws. \<not> prefix ''-'' w \<Longrightarrow> getopt takes ws = ([], [], ws)"
  by (induction ws) auto

lemma length_file_array: "length file < MAX_PATH \<Longrightarrow> length (file_array file) = MAX_PATH"
  by (simp add: file_array_def length_poke)

text \<open>The descriptors on which messages were sent, in order.\<close>

definition sent_to :: "('fs, 'z) link_scheme \<Rightarrow> int list" where
  "sent_to s = map fst (tx_log s)"

lemma exec_sent:
  assumes "tx_plan s fd = []" and "length file < MAX_PATH"
  shows "\<exists>r s'. exec_req c junk fd (file_array file) (of_nat (length file)) argc s = Ret (r, s') \<and> sent_to s' = sent_to s @ [fd]"
proof -
  have "unat (of_nat (length file) :: u32) = length file"
    using assms(2) by (subst unat_of_nat) (simp add: take_bit_nat_eq_self)
  then show ?thesis using assms by (simp add: exec_req_def length_file_array Let_def send_fd_whole sent_to_def)
qed

lemma gsexec_sent:
  assumes "tx_plan s fd = []" and "length file < MAX_PATH"
  shows "\<exists>r s'. pko_gsexec_req fd (file_array file) n s = Ret (r, s') \<and> sent_to s' = sent_to s @ [fd]"
  using assms by (simp add: pko_gsexec_req_def length_file_array send_fd_whole sent_to_def)

lemma tool_file_device: "arg_device_check file \<Longrightarrow> length file < MAX_PATH \<Longrightarrow> tool_file env file s = Ret file"
  by (simp add: tool_file_def)

text \<open>
  C21. A tool finds a shell on this host. \<open>eeexec\<close> and \<open>reset\<close> send their request to it; \<open>dumpmem\<close>, \<open>dumpreg\<close>
  and \<open>gsexec\<close> send theirs to descriptor 0, the value \<open>connect\<close> returned, and \<open>iopexec\<close> and \<open>viewmem\<close> to
  \<open>cmd_fd\<close>, which they never set: the shell gets nothing from these five.
\<close>

theorem tools_with_shell:
  assumes shell: "ps2link_open (t_net env) local_ip s = ((0, sock), s1)" and plan: "tx_plan s1 = (\<lambda>_. [])"
    and name: "arg_device_check name" "length name < MAX_PATH"
    and words: "\<forall>w \<in> {name, r, n1, n2}. \<not> prefix ''-'' w" "\<not> no_number n1" "\<not> no_number n2"
    and dump: "wait_file (t_stats env) (strtol 0 n2) = Ret ()"
  shows "(\<exists>s'. eeexec_main env [p, name] s = Ret (0, s') \<and> sent_to s' = sent_to s1 @ [sock])
     \<and> (\<exists>s'. reset_main env [p] s = Ret (0, s') \<and> sent_to s' = sent_to s1 @ [sock])
     \<and> (\<exists>s'. dumpmem_main env [p, name, n1, n2] s = Ret (0, s') \<and> sent_to s' = sent_to s1 @ [0])
     \<and> (\<exists>s'. dumpreg_main env [p, name, r] s = Ret (0, s') \<and> sent_to s' = sent_to s1 @ [0])
     \<and> (\<exists>s'. gsexec_main env [p, name, n1] s = Ret (0, s') \<and> sent_to s' = sent_to s1 @ [0])
     \<and> (\<exists>s'. iopexec_main env [p, name] s = Ret (0, s') \<and> sent_to s' = sent_to s1 @ [cmd_fd s1])
     \<and> (\<exists>rows s'. viewmem_main env [p, n1, n2] s = Ret (0, rows, s') \<and> sent_to s' = sent_to s1 @ [cmd_fd s1])"
proof (intro conjI)
  have plan': "tx_plan (s1\<lparr>cmd_fd := sock\<rparr>) sock = []" "tx_plan s1 fd = []" for fd using plan by simp_all
  have local: "open_local env s = (0, s1)" by (simp add: open_local_def shell)
  have plain: "getopt takes [name] = ([], [], [name])" "getopt takes [name, n1] = ([], [], [name, n1])"
    "getopt takes [name, r] = ([], [], [name, r])" "getopt takes [n1, n2] = ([], [], [n1, n2])"
    "getopt takes [name, n1, n2] = ([], [], [name, n1, n2])" for takes
    using words(1) by (simp_all only: getopt_plain list.set insert_iff empty_iff ball_simps simp_thms)
  note run = shell local operand_def tool_file_device [OF name] plain
  obtain q s2 where "exec_req EXECEE_CMD (t_junk env) sock (file_array name) (of_nat (length name)) 1 (s1\<lparr>cmd_fd := sock\<rparr>) = Ret (q, s2)"
    "sent_to s2 = sent_to (s1\<lparr>cmd_fd := sock\<rparr>) @ [sock]"
    using exec_sent [OF plan'(1) name(2)] by metis
  then show "\<exists>s'. eeexec_main env [p, name] s = Ret (0, s') \<and> sent_to s' = sent_to s1 @ [sock]"
    using words(1) name(2) by (simp add: eeexec_main_def run pko_execee_req_def sent_to_def del: getopt.simps)
  show "\<exists>s'. reset_main env [p] s = Ret (0, s') \<and> sent_to s' = sent_to s1 @ [sock]"
    by (simp add: reset_main_def shell pko_hdr_wire plan'(2) sent_to_def)
  show "\<exists>s'. dumpmem_main env [p, name, n1, n2] s = Ret (0, s') \<and> sent_to s' = sent_to s1 @ [0]"
    using words by (simp add: dumpmem_main_def run pko_memio_wire plan'(2) sent_to_def del: getopt.simps)
  show "\<exists>s'. dumpreg_main env [p, name, r] s = Ret (0, s') \<and> sent_to s' = sent_to s1 @ [0]"
    using words by (simp add: dumpreg_main_def run pko_dumpregs_wire plan'(2) sent_to_def del: getopt.simps)
  obtain q' s3 where "pko_gsexec_req 0 (file_array name) (of_cint (strtol 0 n1)) s1 = Ret (q', s3)" "sent_to s3 = sent_to s1 @ [0]"
    using gsexec_sent [OF plan'(2) name(2)] by metis
  then show "\<exists>s'. gsexec_main env [p, name, n1] s = Ret (0, s') \<and> sent_to s' = sent_to s1 @ [0]"
    using words by (simp add: gsexec_main_def run del: getopt.simps)
  obtain q'' s4 where "exec_req EXECIOP_CMD (t_junk env) (cmd_fd s1) (file_array name) (of_nat (length name)) 1 s1 = Ret (q'', s4)"
    "sent_to s4 = sent_to s1 @ [cmd_fd s1]"
    using exec_sent [OF plan'(2) name(2)] by metis
  then show "\<exists>s'. iopexec_main env [p, name] s = Ret (0, s') \<and> sent_to s' = sent_to s1 @ [cmd_fd s1]"
    using words(1) by (simp add: iopexec_main_def run pko_execiop_req_def del: getopt.simps)
  show "\<exists>rows s'. viewmem_main env [p, n1, n2] s = Ret (0, rows, s') \<and> sent_to s' = sent_to s1 @ [cmd_fd s1]"
    using words dump
    by (cases "t_file env (host s1) (t_tmpnam env)")
      (simp_all add: viewmem_main_def run pko_memio_wire plan'(2) sent_to_def Let_def del: getopt.simps)
qed

section \<open>What viewmem prints\<close>

lemma view_row_words:
  "length data = 4 \<Longrightarrow> 4 * n \<le> length bs \<Longrightarrow>
     (case view_row n data bs of (ws, data', bs') \<Rightarrow>
        length ws = n \<and> concat (map le32 ws) = take (4 * n) bs \<and> length data' = 4 \<and> bs' = drop (4 * n) bs)"
proof (induction n arbitrary: data bs)
  case (Suc n)
  have data: "poke 0 (take 4 bs) data = take 4 bs" using Suc.prems by (simp add: poke_def)
  have len: "length (take 4 bs) = 4" "4 * n \<le> length (drop 4 bs)" using Suc.prems(2) by simp_all
  obtain ws data' bs' where row: "view_row n (take 4 bs) (drop 4 bs) = (ws, data', bs')"
    by (cases "view_row n (take 4 bs) (drop 4 bs)") auto
  have "take (4 * Suc n) bs = take 4 bs @ take (4 * n) (drop 4 bs)" by (metis mult_Suc_right take_add)
  with Suc.IH [OF len] row data len(1) show ?case by (simp add: le32_un_le32 add.commute)
qed simp

text \<open>
  C40. \<open>viewmem\<close> prints the words of the dump in order, each once, in rows of as many as the width has, with
  the first byte of a word as its lowest: written out as bytes again, the words are the file.
\<close>

theorem viewmem_words:
  assumes "length data = 4" and "length bs = n * (4 * k)"
  shows "concat (map le32 (concat (view_rows n (4 * k) data bs))) = bs
     \<and> length (view_rows n (4 * k) data bs) = n \<and> (\<forall>row \<in> set (view_rows n (4 * k) data bs). length row = k)"
  using assms
proof (induction n arbitrary: data bs)
  case (Suc n)
  obtain row data' bs' where row: "view_row k data bs = (row, data', bs')" by (cases "view_row k data bs") auto
  have "4 * k \<le> length bs" using Suc.prems(2) by simp
  from view_row_words [OF Suc.prems(1) this] row have w: "length row = k" "concat (map le32 row) = take (4 * k) bs"
    "length data' = 4" "bs' = drop (4 * k) bs" by auto
  then have "length bs' = n * (4 * k)" using Suc.prems(2) by simp
  from Suc.IH [OF w(3) this] w show ?case by (simp add: row)
qed simp

theorem viewmem_words_witness:
  "view_rows 2 4 [0, 0, 0, 0] [1, 0, 0, 0, 0, 1, 0, 0] = [[1], [256]]
   \<and> concat (map le32 (concat (view_rows 2 4 [0, 0, 0, 0] [1, 0, 0, 0, 0, 1, 0, 0]))) = [1, 0, 0, 0, 0, 1, 0, 0]"
  using viewmem_words [of "[0, 0, 0, 0]" "[1, 0, 0, 0, 0, 1, 0, 0]" 2 1]
  by (simp add: numeral_2_eq_2 poke_def)

section \<open>Examples\<close>

definition tool_example :: "int tenv" where
  "tool_example = \<lparr>t_os = no_files, t_net = example_net, t_cwd = \<lambda>n. Some ''/'', t_junk = replicate 300 0, t_wakes = [],
     t_tmpnam = ''/tmp/x'', t_stats = [(0, \<lparr>st_mode = 0, st_size = 4, st_ctime = None, st_atime = None, st_mtime = None\<rparr>)],
     t_file = \<lambda>n f. Some [1, 0, 0, 0]\<rparr>"

theorem tools_with_shell_witness:
  "(\<exists>s'. eeexec_main tool_example [''eeexec'', ''host:a''] (batch_init 7) = Ret (0, s') \<and> sent_to s' = [7])
   \<and> (\<exists>s'. dumpmem_main tool_example [''dumpmem'', ''host:a'', ''0x10'', ''4''] (batch_init 7) = Ret (0, s') \<and> sent_to s' = [0])"
proof -
  have shell: "ps2link_open (t_net tool_example) local_ip (batch_init 7) = ((0, 7), (batch_init 7)\<lparr>host := 8\<rparr>)"
    by (simp add: ps2link_open_def on_host_def tool_example_def example_net_def)
  have "wait_file (t_stats tool_example) (strtol 0 ''4'') = Ret ()"
    by (simp add: tool_example_def strtol_def isspace_def digit_value_def digit_of_def to_cint_def)
  moreover have "arg_device_check ''host:a''" by (simp add: arg_device_check_def)
  moreover have "\<not> no_number ''0x10''" "\<not> no_number ''4''"
    by (simp_all add: no_number_def isspace_def digit_of_def digit_value_def)
  ultimately show ?thesis
    using tools_with_shell [OF shell, of "''host:a''" "''all''" "''0x10''" "''4''"]
    by (simp add: sent_to_def batch_init_def link_init_def link.defs)
qed

end
