(* ===== verification/Relay.thy ===== *)
theory Relay
  imports Tools
begin

text \<open>
  The batch tools and the shell together: a tool that finds a shell on its host sends its request there, and
  the shell sends it on to the console. This theory joins \<open>linkproto_stub.c\<close> on the side of the tool, the
  framing of requests and \<open>pko_srv_read\<close> in the shell, and \<open>linkproto_stub.c\<close> again on the side of the shell.
\<close>

text \<open>The message a request function sent.\<close>

definition wire :: "int \<times> ('fs, 'z) link_scheme \<Rightarrow> byte list" where
  "wire p = snd (last (tx_log (snd p)))"

text \<open>
  A message \<open>m\<close> on the connection of a client makes the shell send the messages \<open>ms\<close> to the console, on the
  command socket; it is taken off the connection, and what is behind it stays.
\<close>

definition relays :: "'fs env \<Rightarrow> int \<Rightarrow> byte list \<Rightarrow> byte list list \<Rightarrow> ('fs, 'z) shell_scheme \<Rightarrow> bool" where
  "relays env c m ms s \<longleftrightarrow> (\<forall>rest. stream (rx s c) = m @ rest \<longrightarrow>
     (\<exists>s'. pko_srv_read env c s = Ret (0, s') \<and> stream (rx s' c) = rest
       \<and> tx_log s' = tx_log s @ map (Pair (cmd_fd s')) ms))"

section \<open>A request in the shell\<close>

lemma cmd_con_rx [simp]: "rx (cmd_con env s) = rx s"
proof -
  obtain r s' where "pko_cmd_con (env_net env) (dst_ip s) CMD_PORT s = (r, s')" by fastforce
  with pko_cmd_con_opens(1) [OF this] show ?thesis by (simp add: cmd_con_def opens_def)
qed

lemma relaysI:
  assumes "wf_link s" and "m = packet cmd body" and "6 + length body \<le> PACKET_MAXSIZE"
    and "\<And>es. \<exists>s'. srv_switch env cmd (s\<lparr>rx := (rx s)(c := es), recv_packet := poke 0 m (recv_packet s)\<rparr>) = Ret s'
       \<and> rx s' = (rx s)(c := es) \<and> tx_log s' = tx_log s @ map (Pair (cmd_fd s')) ms"
  shows "relays env c m ms s"
  unfolding relays_def
proof (intro allI impI)
  fix rest
  assume "stream (rx s c) = m @ rest"
  then obtain es where run: "pko_srv_read env c s = obind (srv_switch env cmd (s\<lparr>rx := (rx s)(c := es),
      recv_packet := poke 0 m (recv_packet s)\<rparr>)) (\<lambda>s. Ret (0, s))" and es: "stream es = rest"
    using shell.serve_packet [OF assms(1) _ assms(3), of c cmd rest env] assms(2) by metis
  from assms(4) [of es] obtain s' where
    "srv_switch env cmd (s\<lparr>rx := (rx s)(c := es), recv_packet := poke 0 m (recv_packet s)\<rparr>) = Ret s'"
    "rx s' = (rx s)(c := es)" "tx_log s' = tx_log s @ map (Pair (cmd_fd s')) ms" by blast
  with run es show "\<exists>s'. pko_srv_read env c s = Ret (0, s') \<and> stream (rx s' c) = rest
       \<and> tx_log s' = tx_log s @ map (Pair (cmd_fd s')) ms" by auto
qed

lemma file_command_none:
  "cmd \<in> {DUMPMEM_CMD, DUMPREGS_CMD, STOPVU_CMD, STARTVU_CMD, EXECEE_CMD, EXECIOP_CMD, RESET_CMD, WRITEMEM_CMD,
     POWEROFF_CMD, SCRDUMP_CMD, NETDUMP_CMD} \<Longrightarrow> file_command os cmd = None"
  by (auto simp: file_command_def)

text \<open>The fields of the request in the buffer of the shell.\<close>

lemma view_memio_packet:
  fixes cmd a n :: u32
  assumes "no_nul name" and "length name < MAX_PATH"
  defines "m \<equiv> be32 cmd @ be16 270 @ be32 a @ be32 n @ strncpy name 256"
  shows "iq_offset (view_memio_req (poke 0 m buf)) = htonl a" "iq_size (view_memio_req (poke 0 m buf)) = htonl n"
    "c_str (drop 14 (poke 0 m buf)) = Some name" "m = packet cmd (be32 a @ be32 n @ strncpy name 256)"
proof -
  let ?r = "memio_packet cmd name a n"
  have m: "m = enc_memio_req ?r" by (simp add: m_def memio_packet_def enc_memio_req_def order_simps)
  have "ok_memio_req ?r" by (simp add: memio_packet_def ok_memio_req_def)
  then have "view_memio_req (poke 0 m buf) = ?r" using memio_req.view_store [of ?r buf] by (simp add: store_def m)
  then show "iq_offset (view_memio_req (poke 0 m buf)) = htonl a" "iq_size (view_memio_req (poke 0 m buf)) = htonl n"
    by (simp_all add: memio_packet_def)
  show "c_str (drop 14 (poke 0 m buf)) = Some name"
    using c_str_strncpy [of name 256] assms(1,2) by (simp add: m_def poke_def)
  show "m = packet cmd (be32 a @ be32 n @ strncpy name 256)" by (simp add: m_def packet_def)
qed

lemma view_dumpregs_packet:
  fixes n :: u32
  assumes "no_nul name" and "length name < MAX_PATH"
  defines "m \<equiv> be32 DUMPREGS_CMD @ be16 266 @ be32 n @ strncpy name 256"
  shows "eq_regs (view_dumpregs_req (poke 0 m buf)) = htonl n"
    "c_str (drop 10 (poke 0 m buf)) = Some name" "m = packet DUMPREGS_CMD (be32 n @ strncpy name 256)"
proof -
  let ?r = "\<lparr>p_cmd = htonl DUMPREGS_CMD, p_len = htons 266, eq_regs = htonl n, eq_argv = strncpy name 256\<rparr>"
  have m: "m = enc_dumpregs_req ?r" by (simp add: m_def enc_dumpregs_req_def order_simps)
  have "view_dumpregs_req (poke 0 m buf) = ?r"
    using dumpregs_req.view_store [of ?r buf] by (simp add: store_def m ok_dumpregs_req_def)
  then show "eq_regs (view_dumpregs_req (poke 0 m buf)) = htonl n" by simp
  show "c_str (drop 10 (poke 0 m buf)) = Some name"
    using c_str_strncpy [of name 256] assms(1,2) by (simp add: m_def poke_def)
  show "m = packet DUMPREGS_CMD (be32 n @ strncpy name 256)" by (simp add: m_def packet_def)
qed

section \<open>The requests one by one\<close>


lemma relay_reset:
  assumes "wf_link s" and "tx_plan s = (\<lambda>_. [])"
  shows "relays env c (be32 RESET_CMD @ be16 6) [be32 RESET_CMD @ be16 6] s"
  by (rule relaysI [OF assms(1), of _ RESET_CMD "[]"])
    (simp_all add: packet_def srv_switch_def file_command_none cli_reset_def Let_def case_prod_beta pko_hdr_wire
      assms(2) close_fd_def)

lemma relay_dumpmem:
  assumes "wf_link s" and "tx_plan s = (\<lambda>_. [])" and "no_nul name" and "length name < MAX_PATH"
    and "length (arg_prepend_host name) < MAX_PATH"
  shows "relays env c (be32 DUMPMEM_CMD @ be16 270 @ be32 a @ be32 n @ strncpy name 256)
     [be32 DUMPMEM_CMD @ be16 270 @ be32 a @ be32 n @ strncpy (arg_prepend_host name) 256] s"
proof (rule relaysI [OF assms(1) view_memio_packet(4) [OF assms(3,4)]])
  let ?m = "be32 DUMPMEM_CMD @ be16 270 @ be32 a @ be32 n @ strncpy name 256"
  fix es
  have "packet_string 14 (s\<lparr>rx := (rx s)(c := es), recv_packet := poke 0 ?m (recv_packet s)\<rparr>) = Ret name"
    using view_memio_packet(3) [OF assms(3,4), of DUMPMEM_CMD a n "recv_packet s"] by (simp add: packet_string_def)
  then show "\<exists>s'. srv_switch env DUMPMEM_CMD (s\<lparr>rx := (rx s)(c := es), recv_packet := poke 0 ?m (recv_packet s)\<rparr>) = Ret s'
       \<and> rx s' = (rx s)(c := es) \<and> tx_log s' = tx_log s @ map (Pair (cmd_fd s'))
         [be32 DUMPMEM_CMD @ be16 270 @ be32 a @ be32 n @ strncpy (arg_prepend_host name) 256]"
    using assms(2,5)
    by (simp add: srv_switch_def file_command_none dumpmem_def Let_def pko_memio_wire view_memio_packet(1,2) [OF assms(3,4)]
        del: poke_Nil)
qed simp

lemma relay_dumpregs:
  assumes "wf_link s" and "tx_plan s = (\<lambda>_. [])" and "no_nul name" and "length name < MAX_PATH"
    and "length (arg_prepend_host name) < MAX_PATH"
  shows "relays env c (be32 DUMPREGS_CMD @ be16 266 @ be32 n @ strncpy name 256)
     [be32 DUMPREGS_CMD @ be16 266 @ be32 n @ strncpy (arg_prepend_host name) 256] s"
proof (rule relaysI [OF assms(1) view_dumpregs_packet(3) [OF assms(3,4)]])
  let ?m = "be32 DUMPREGS_CMD @ be16 266 @ be32 n @ strncpy name 256"
  fix es
  have "packet_string 10 (s\<lparr>rx := (rx s)(c := es), recv_packet := poke 0 ?m (recv_packet s)\<rparr>) = Ret name"
    using view_dumpregs_packet(2) [OF assms(3,4), of n "recv_packet s"] by (simp add: packet_string_def)
  then show "\<exists>s'. srv_switch env DUMPREGS_CMD (s\<lparr>rx := (rx s)(c := es), recv_packet := poke 0 ?m (recv_packet s)\<rparr>) = Ret s'
       \<and> rx s' = (rx s)(c := es) \<and> tx_log s' = tx_log s @ map (Pair (cmd_fd s'))
         [be32 DUMPREGS_CMD @ be16 266 @ be32 n @ strncpy (arg_prepend_host name) 256]"
    using assms(2,5)
    by (simp add: srv_switch_def file_command_none dumpregs_def Let_def pko_dumpregs_wire
        view_dumpregs_packet(1) [OF assms(3,4)] del: poke_Nil)
qed simp

text \<open>The number of the unit is sent on as the 16 bits it came in.\<close>

lemma relay_vu:
  assumes "wf_link s" and "tx_plan s = (\<lambda>_. [])" and "cmd \<in> {STOPVU_CMD, STARTVU_CMD}"
  shows "relays env c (be32 cmd @ be16 10 @ be16 vpu @ [0, 0]) [be32 cmd @ be16 10 @ be16 vpu @ [0, 0]] s"
proof (rule relaysI [OF assms(1)])
  let ?m = "be32 cmd @ be16 10 @ be16 vpu @ [0, 0]"
  show m: "?m = packet cmd (be16 vpu @ [0, 0])" by (simp add: packet_def)
  show "6 + length (be16 vpu @ [0, 0] :: byte list) \<le> PACKET_MAXSIZE" by simp
  fix es
  let ?s = "s\<lparr>rx := (rx s)(c := es), recv_packet := poke 0 ?m (recv_packet s)\<rparr>"
  have wf: "wf_link ?s" using assms(1) by (simp add: wf_link_def length_poke)
  have "peek 6 2 (recv_packet ?s) = be16 vpu" by (simp add: poke_def peek_def)
  then have vpu: "be16 (ntohs (ucast (uq_vpu (view_vu_req (recv_packet ?s))))) = be16 vpu"
    using view_vpu [OF wf] by simp
  then show "\<exists>s'. srv_switch env cmd ?s = Ret s' \<and> rx s' = (rx s)(c := es)
       \<and> tx_log s' = tx_log s @ map (Pair (cmd_fd s')) [be32 cmd @ be16 10 @ be16 vpu @ [0, 0]]"
    using assms(2,3)
    by (elim insertE)
      (simp_all add: srv_switch_def file_command_none srv_stop_vu_def srv_start_vu_def Let_def pko_vu_wire ucast_up_down16)
qed

text \<open>Requests the shell does not know are dropped.\<close>

lemma relay_unknown:
  assumes "wf_link s" and "m = packet cmd body" and "6 + length body \<le> PACKET_MAXSIZE"
    and "cmd \<in> {WRITEMEM_CMD, POWEROFF_CMD, SCRDUMP_CMD, NETDUMP_CMD}"
  shows "relays env c m [] s"
  using assms(4) by (intro relaysI [OF assms(1-3)]) (auto simp: srv_switch_def file_command_none)

lemma exec_message:
  fixes cmd argc :: u32
  assumes "length line < MAX_PATH" and "length junk = 255 - length line" and "no_nul line"
  defines "m \<equiv> be32 cmd @ be16 266 @ be32 argc @ bytes_of line @ [0] @ junk"
  shows "m = packet cmd (be32 argc @ bytes_of line @ [0] @ junk)" "c_str (drop 10 (poke 0 m buf)) = Some line"
  using assms(1,2) c_str_bytes_of [OF assms(3)] by (simp_all add: m_def packet_def poke_def)

lemma relay_exec:
  assumes "wf_link s" and "tx_plan s = (\<lambda>_. [])" and "exec_state s \<noteq> 1"
    and "length line < MAX_PATH" and "length junk = 255 - length line" and "no_nul line"
    and "\<And>fs. fix_cmd_arg (is_file (env_os env) fs) MAX_PATH line = Ret (argc, argv)" and "length argv < MAX_PATH"
    and "sizeof_pkt_exec_req \<le> length (env_junk env)" and "cmd \<in> {EXECEE_CMD, EXECIOP_CMD}"
  shows "relays env c (be32 cmd @ be16 266 @ be32 n @ bytes_of line @ [0] @ junk) [exec_wire env cmd argc argv] s"
proof (rule relaysI [OF assms(1) exec_message(1) [OF assms(4-6)]])
  let ?m = "be32 cmd @ be16 266 @ be32 n @ bytes_of line @ [0] @ junk"
  show "6 + length (be32 n @ bytes_of line @ [0] @ junk) \<le> PACKET_MAXSIZE" using assms(4,5) by simp
  fix es
  let ?s = "s\<lparr>rx := (rx s)(c := es), recv_packet := poke 0 ?m (recv_packet s)\<rparr>"
  have "packet_string 10 ?s = Ret line"
    using exec_message(2) [OF assms(4-6), of cmd n "recv_packet s"] by (simp add: packet_string_def)
  then show "\<exists>s'. srv_switch env cmd ?s = Ret s' \<and> rx s' = (rx s)(c := es)
       \<and> tx_log s' = tx_log s @ map (Pair (cmd_fd s')) [exec_wire env cmd argc argv]"
    using assms(2,3,10)
    by (elim insertE)
      (simp_all add: srv_switch_def file_command_none cli_execee_def cli_execeiop_def shell_argv_def assms(7) Let_def
        pko_execee_req_def pko_execiop_req_def exec_sends [OF _ assms(8,9)])
qed

section \<open>Through the shell as without it\<close>

text \<open>
  C12. What a request function sends to the shell makes the shell send, as a single message, what the same
  function would send to the console itself: for a reset and the vector units the same bytes, for memory
  and registers with a device in front of the name of the file. Of the other requests nothing reaches the
  console: memory that is to be written, power off, and the two that choose where exceptions are shown.
\<close>

theorem requests_relayed:
  fixes s :: "('fs, 'z) shell_scheme" and t u :: "('gs, 'y) link_scheme"
  assumes "wf_link s" and "tx_plan s = (\<lambda>_. [])" and "tx_plan t k = []" and "tx_plan u j = []"
    and "no_nul name" and "length name < MAX_PATH" and "length (arg_prepend_host name) < MAX_PATH"
  shows "relays env c (wire (pko_reset_req k t)) [wire (pko_reset_req j u)] s
     \<and> relays env c (wire (pko_stop_vu k vpu t)) [wire (pko_stop_vu j vpu u)] s
     \<and> relays env c (wire (pko_start_vu k vpu t)) [wire (pko_start_vu j vpu u)] s
     \<and> relays env c (wire (pko_dumpmemory_req k name a n t)) [wire (pko_dumpmemory_req j (arg_prepend_host name) a n u)] s
     \<and> relays env c (wire (pko_dumpregs_req k name n t)) [wire (pko_dumpregs_req j (arg_prepend_host name) n u)] s
     \<and> relays env c (wire (pko_writemem_req k name a n t)) [] s
     \<and> relays env c (wire (pko_poweroff_req k t)) [] s
     \<and> relays env c (wire (pko_dump2screen_req k t)) [] s
     \<and> relays env c (wire (pko_dump2pc_req k t)) [] s"
proof -
  note wires = wire_def pko_hdr_wire assms(3,4) pko_vu_wire pko_memio_wire pko_dumpregs_wire
  note hdr = relay_unknown [OF assms(1), of "be32 cmd @ be16 6" cmd "[]" for cmd]
  show ?thesis
    using relay_reset [OF assms(1,2)] relay_vu [OF assms(1,2)] relay_dumpmem [OF assms(1,2,5-7)]
      relay_dumpregs [OF assms(1,2,5-7)] hdr
      relay_unknown [OF assms(1) view_memio_packet(4) [OF assms(5,6), where cmd = WRITEMEM_CMD and a = a and n = n], of env c]
    by (simp add: wires packet_def)
qed

theorem requests_relayed_witness:
  "\<exists>s'. pko_srv_read example_env 12
      (shell_example\<lparr>rx := \<lambda>_. [Arrive (wire (pko_dumpmemory_req 9 ''a'' 16 4 (link_init ()))), Arrive [1]]\<rparr>) = Ret (0, s')
     \<and> stream (rx s' 12) = [1] \<and> map snd (tx_log s') = [wire (pko_dumpmemory_req 3 ''host:a'' 16 4 (link_init ()))]"
proof -
  let ?s = "shell_example\<lparr>rx := \<lambda>_. [Arrive (wire (pko_dumpmemory_req 9 ''a'' 16 4 (link_init ()))), Arrive [1]]\<rparr>"
  have s: "wf_link ?s" "tx_plan ?s = (\<lambda>_. [])" "tx_log ?s = []" using shell_example_simps(1) by (simp_all add: wf_link_def)
  have t: "tx_plan (link_init ()) k = []" for k by (simp add: link_init_def)
  have name: "arg_prepend_host ''a'' = ''host:a''" by (simp add: arg_prepend_host_def strstr.simps)
  have "relays example_env 12 (wire (pko_dumpmemory_req 9 ''a'' 16 4 (link_init ())))
     [wire (pko_dumpmemory_req 3 ''host:a'' 16 4 (link_init ()))] ?s"
    using requests_relayed [OF s(1,2) t t, of "''a''" example_env 12 9 3 0 16 4] by (simp add: name)
  then show ?thesis using s(3) by (auto simp: relays_def)
qed

text \<open>
  C25. A program that a tool starts through the shell: the shell splits the line again and sends it as if it
  had been typed, with the arguments counted and completed by the device; the number of arguments the tool
  gave does not matter.
\<close>

theorem programs_relayed:
  fixes s :: "('fs, 'z) shell_scheme"
  assumes "wf_link s" and "tx_plan s = (\<lambda>_. [])" and "exec_state s \<noteq> 1"
    and "tx_plan t k = []" and "no_nul line" and "length line < MAX_PATH" and "sizeof_pkt_exec_req \<le> length junk"
    and "\<And>fs. fix_cmd_arg (is_file (env_os env) fs) MAX_PATH line = Ret (argc, argv)" and "length argv < MAX_PATH"
    and "sizeof_pkt_exec_req \<le> length (env_junk env)"
  shows "\<exists>p q. pko_execee_req junk k (file_array line) (of_nat (length line)) n t = Ret p
       \<and> pko_execiop_req junk k (file_array line) (of_nat (length line)) n t = Ret q
       \<and> relays env c (wire p) [exec_wire env EXECEE_CMD argc argv] s
       \<and> relays env c (wire q) [exec_wire env EXECIOP_CMD argc argv] s"
proof -
  have n: "unat (of_nat (length line) :: u32) = length line" using assms(6) by (simp add: unat_of_nat)
  have arr: "take (length line) (file_array line) = bytes_of line" by (simp add: file_array_def poke_def)
  have len: "length (peek (11 + length line) (255 - length line) junk) = 255 - length line"
    using assms(6,7) by (simp add: length_peek)
  note run = relay_exec [OF assms(1-3,6) len assms(5,8-10)]
  have "exec_req cmd junk k (file_array line) (of_nat (length line)) n t =
      Ret (266, t\<lparr>tx_log := tx_log t @ [(k, be32 cmd @ be16 266 @ be32 n @ bytes_of line @ [0] @
        peek (11 + length line) (255 - length line) junk)]\<rparr>)" for cmd
    using assms(4,6,7) by (simp add: exec_req_wire n arr length_file_array)
  then show ?thesis
    using run [of EXECEE_CMD c n] run [of EXECIOP_CMD c n]
    by (simp add: pko_execee_req_def pko_execiop_req_def wire_def)
qed

theorem programs_relayed_witness:
  "\<exists>p. pko_execee_req (replicate 266 9) 3 (file_array ''a'') 1 5 (link_init ()) = Ret p
     \<and> relays example_env 12 (wire p) [exec_wire example_env EXECEE_CMD 1 (''a'' @ [NUL])] shell_example"
proof -
  have argv: "fix_cmd_arg (is_file (env_os example_env) fs) MAX_PATH ''a'' = Ret (1, ''a'' @ [NUL])" for fs :: int
    using example_argv [of "shell_example\<lparr>host := fs\<rparr>"] by (simp add: shell_argv_def)
  have "tx_plan (link_init ()) 3 = []" by (simp add: link_init_def)
  from programs_relayed [OF _ _ _ this _ _ _ argv, of shell_example "replicate 266 9" 5 12] show ?thesis by auto
qed

end
