(* ===== verification/Ftp.thy ===== *)
theory Ftp
  imports Commands
begin

text \<open>
  The commands of \<open>pksh.c\<close> for a file server, which are compiled with \<open>-DFTP\<close> only. They hand their
  arguments to ftplib, whose functions are the record \<open>ftplib\<close>; what they share is the connection
  \<open>ftpConn\<close>, opened by the first command that needs one.
\<close>

section \<open>State\<close>

text \<open>
  A connection is a pointer, \<open>None\<close> for \<open>NULL\<close>; what a function of the library does with a pointer that is
  not a connection is its own affair. \<open>ftp_connect\<close> gives the returned value and what is in \<open>ftpConn\<close> then.
\<close>

type_synonym netbuf = "int option"

record 'l ftplib =
  FtpInit :: "'l \<Rightarrow> 'l"
  FtpConnect :: "'l \<Rightarrow> string \<Rightarrow> netbuf \<Rightarrow> (int \<times> netbuf) \<times> 'l"
  FtpLogin :: "'l \<Rightarrow> string \<Rightarrow> string \<Rightarrow> netbuf \<Rightarrow> (int \<times> 'l) outcome"
  FtpPassive :: "'l \<Rightarrow> netbuf \<Rightarrow> (int \<times> 'l) outcome"
  FtpDir :: "'l \<Rightarrow> string \<Rightarrow> netbuf \<Rightarrow> (int \<times> 'l) outcome"
  FtpNlst :: "'l \<Rightarrow> string \<Rightarrow> netbuf \<Rightarrow> (int \<times> 'l) outcome"
  FtpPut :: "'l \<Rightarrow> string \<Rightarrow> string \<Rightarrow> char \<Rightarrow> netbuf \<Rightarrow> (int \<times> 'l) outcome"
  FtpGet :: "'l \<Rightarrow> string \<Rightarrow> string \<Rightarrow> char \<Rightarrow> netbuf \<Rightarrow> (int \<times> 'l) outcome"
  FtpDelete :: "'l \<Rightarrow> string \<Rightarrow> netbuf \<Rightarrow> (int \<times> 'l) outcome"
  FtpSite :: "'l \<Rightarrow> string \<Rightarrow> netbuf \<Rightarrow> (int \<times> 'l) outcome"
  FtpQuit :: "'l \<Rightarrow> netbuf \<Rightarrow> 'l outcome"

text \<open>\<open>ftp_room\<close> is the size of the block behind \<open>malloc\<close>, for \<open>build_argv\<close>.\<close>

record 'l ftp =
  ftp_state :: 'l
  ftpConn :: netbuf

record 'l ftpenv =
  ftplib :: "'l ftplib"
  ftp_room :: "nat \<Rightarrow> nat"

text \<open>A call of the library on the connection.\<close>

definition on_ftp :: "('l \<Rightarrow> netbuf \<Rightarrow> (int \<times> 'l) outcome) \<Rightarrow> 'l ftp \<Rightarrow> (int \<times> 'l ftp) outcome" where
  "on_ftp call s = omap (\<lambda>(r, l). (r, s\<lparr>ftp_state := l\<rparr>)) (call (ftp_state s) (ftpConn s))"

definition ftp_connect :: "'l ftpenv \<Rightarrow> string \<Rightarrow> 'l ftp \<Rightarrow> int \<times> 'l ftp" where
  "ftp_connect env server s =
     (let ((r, conn), l) = FtpConnect (ftplib env) (ftp_state s) server (ftpConn s)
      in (r, s\<lparr>ftp_state := l, ftpConn := conn\<rparr>))"

section \<open>Commands\<close>

text \<open>\<open>cli_ftp\<close>: \<open>arg\<close> may be \<open>NULL\<close>. The result of \<open>FtpOptions\<close> is only printed.\<close>

definition cli_ftp :: "'l ftpenv \<Rightarrow> string option \<Rightarrow> 'l ftp \<Rightarrow> (int \<times> 'l ftp) outcome" where
  "cli_ftp env arg s =
     (let s = s\<lparr>ftp_state := FtpInit (ftplib env) (ftp_state s)\<rparr> in
      obind (build_argv (ftp_room env) arg) (\<lambda>(argc, argv).
      let (r, s) = ftp_connect env (case argv of [] \<Rightarrow> ''localhost'' | w # ws \<Rightarrow> w) s in
      if r = 0 then (if argv \<noteq> [] then omap (\<lambda>_. (-1, s)) (free_argv argv argc) else Ret (-1, s))
      else
        obind (free_argv argv argc) (\<lambda>_.
        obind (on_ftp (\<lambda>l. FtpLogin (ftplib env) l ''anonymous'' ''anonymous'') s) (\<lambda>(r, s).
        if r = 0 then Ret (-1, s)
        else omap (\<lambda>(r, s). (0, s)) (on_ftp (FtpPassive (ftplib env)) s)))))"

text \<open>\<open>if (!ftpConn) cli_ftp(NULL)\<close>, whose result is not looked at.\<close>

definition ftp_ensure :: "'l ftpenv \<Rightarrow> 'l ftp \<Rightarrow> 'l ftp outcome" where
  "ftp_ensure env s = (if ftpConn s = None then omap snd (cli_ftp env None s) else Ret s)"

definition cli_ftpdir :: "'l ftpenv \<Rightarrow> string \<Rightarrow> 'l ftp \<Rightarrow> (int \<times> 'l ftp) outcome" where
  "cli_ftpdir env arg s =
     obind (ftp_ensure env s) (\<lambda>s. omap (\<lambda>(r, s). (0, s)) (on_ftp (\<lambda>l. FtpDir (ftplib env) l arg) s))"

definition cli_ftplist :: "'l ftpenv \<Rightarrow> string \<Rightarrow> 'l ftp \<Rightarrow> (int \<times> 'l ftp) outcome" where
  "cli_ftplist env arg s =
     obind (ftp_ensure env s) (\<lambda>s. omap (\<lambda>(r, s). (0, s)) (on_ftp (\<lambda>l. FtpNlst (ftplib env) l arg) s))"

text \<open>The words of \<open>argv\<close> that were not stored are uninitialised or \<open>NULL\<close>.\<close>

definition cli_ftpput :: "'l ftpenv \<Rightarrow> string \<Rightarrow> 'l ftp \<Rightarrow> (int \<times> 'l ftp) outcome" where
  "cli_ftpput env arg s =
     obind (build_argv (ftp_room env) (Some arg)) (\<lambda>(argc, argv).
     obind (ftp_ensure env s) (\<lambda>s.
     oguard (2 \<le> length argv)
       (obind (on_ftp (\<lambda>l. FtpPut (ftplib env) l (argv ! 0) (argv ! 1) CHR ''I'') s) (\<lambda>(r, s).
        omap (\<lambda>_. (if r = 0 then -1 else 0, s)) (free_argv argv argc)))))"

definition cli_ftpget :: "'l ftpenv \<Rightarrow> string \<Rightarrow> 'l ftp \<Rightarrow> (int \<times> 'l ftp) outcome" where
  "cli_ftpget env arg s =
     obind (build_argv (ftp_room env) (Some arg)) (\<lambda>(argc, argv).
     obind (ftp_ensure env s) (\<lambda>s.
     oguard (2 \<le> length argv)
       (omap (\<lambda>(r, s). (0, s)) (on_ftp (\<lambda>l. FtpGet (ftplib env) l (argv ! 0) (argv ! 1) CHR ''I'') s))))"

definition cli_ftpdelete :: "'l ftpenv \<Rightarrow> string \<Rightarrow> 'l ftp \<Rightarrow> (int \<times> 'l ftp) outcome" where
  "cli_ftpdelete env arg s =
     obind (ftp_ensure env s) (\<lambda>s. omap (\<lambda>(r, s). (0, s)) (on_ftp (\<lambda>l. FtpDelete (ftplib env) l arg) s))"

definition cli_ftpclose :: "'l ftpenv \<Rightarrow> 'l ftp \<Rightarrow> (int \<times> 'l ftp) outcome" where
  "cli_ftpclose env s =
     omap (\<lambda>l. (0, s\<lparr>ftp_state := l\<rparr>)) (FtpQuit (ftplib env) (ftp_state s) (ftpConn s))"

definition cli_ftpsite :: "'l ftpenv \<Rightarrow> string \<Rightarrow> 'l ftp \<Rightarrow> (int \<times> 'l ftp) outcome" where
  "cli_ftpsite env arg s = omap (\<lambda>(r, s). (0, s)) (on_ftp (\<lambda>l. FtpSite (ftplib env) l arg) s)"

section \<open>The table\<close>

datatype ftp_cli =
  Cli_ftp | Cli_ftpdir | Cli_ftplist | Cli_ftpput | Cli_ftpget | Cli_ftpdelete | Cli_ftpclose | Cli_ftpsite

definition ftp_commands :: "(string \<times> ftp_cli) list" where
  "ftp_commands =
    [(''ftp'', Cli_ftp), (''dir'', Cli_ftpdir), (''flist'', Cli_ftplist), (''put'', Cli_ftpput), (''get'', Cli_ftpget),
     (''dele'', Cli_ftpdelete), (''close'', Cli_ftpclose), (''site'', Cli_ftpsite)]"

fun ftp_func :: "'l ftpenv \<Rightarrow> ftp_cli \<Rightarrow> string \<Rightarrow> 'l ftp \<Rightarrow> (int \<times> 'l ftp) outcome" where
  "ftp_func env Cli_ftp arg s = cli_ftp env (Some arg) s"
| "ftp_func env Cli_ftpdir arg s = cli_ftpdir env arg s"
| "ftp_func env Cli_ftplist arg s = cli_ftplist env arg s"
| "ftp_func env Cli_ftpput arg s = cli_ftpput env arg s"
| "ftp_func env Cli_ftpget arg s = cli_ftpget env arg s"
| "ftp_func env Cli_ftpdelete arg s = cli_ftpdelete env arg s"
| "ftp_func env Cli_ftpclose arg s = cli_ftpclose env s"
| "ftp_func env Cli_ftpsite arg s = cli_ftpsite env arg s"

text \<open>The entries behind the others hide none of them and are hidden by none.\<close>

lemma ftp_names_new: "set (map fst ftp_commands) \<inter> set (map c_name commands) = {} \<and> distinct (map fst ftp_commands)"
  by (simp add: ftp_commands_def commands_def)

section \<open>The connection\<close>

fun ftp_run :: "'l ftpenv \<Rightarrow> (ftp_cli \<times> string) list \<Rightarrow> 'l ftp \<Rightarrow> 'l ftp outcome" where
  "ftp_run env [] s = Ret s"
| "ftp_run env ((c, arg) # cs) s = obind (ftp_func env c arg s) (\<lambda>(r, s). ftp_run env cs s)"

lemma ftp_func_keeps_connection:
  "ftp_func env c arg s = Ret (r, s') \<Longrightarrow> c \<noteq> Cli_ftp \<Longrightarrow> ftpConn s = Some h \<Longrightarrow> ftpConn s' = Some h"
  by (cases c)
    (auto simp: cli_ftpdir_def cli_ftplist_def cli_ftpput_def cli_ftpget_def cli_ftpdelete_def cli_ftpclose_def
      cli_ftpsite_def ftp_ensure_def on_ftp_def obind_Ret_iff omap_Ret_iff oguard_Ret_iff)

text \<open>
  A connection is used by every command until \<open>ftp\<close> is given again, also after \<open>close\<close>, which ends it at
  the library but leaves the pointer: no command connects again, and the library gets the closed one.
\<close>

lemma ftp_connection_stays:
  assumes "ftp_run env cs s = Ret s'" and "Cli_ftp \<notin> fst ` set cs" and "ftpConn s = Some h"
  shows "ftpConn s' = Some h
     \<and> cli_ftpdir env arg s' = omap (\<lambda>(r, l). (0, s'\<lparr>ftp_state := l\<rparr>)) (FtpDir (ftplib env) (ftp_state s') arg (Some h))"
proof
  show conn: "ftpConn s' = Some h"
    using assms
  proof (induction cs arbitrary: s)
    case (Cons c cs)
    then obtain r s1 where "ftp_func env (fst c) (snd c) s = Ret (r, s1)" "ftp_run env cs s1 = Ret s'"
      by (cases c) (auto simp: obind_Ret_iff)
    with Cons.IH [of s1] Cons.prems ftp_func_keeps_connection [of env "fst c" "snd c" s r s1 h] show ?case by force
  qed simp
  show "cli_ftpdir env arg s' = omap (\<lambda>(r, l). (0, s'\<lparr>ftp_state := l\<rparr>)) (FtpDir (ftplib env) (ftp_state s') arg (Some h))"
    by (simp add: cli_ftpdir_def ftp_ensure_def conn on_ftp_def omap_omap split_def o_def)
qed

text \<open>A login that is refused leaves the connection, which the next command uses without one.\<close>

lemma ftp_refused_login:
  assumes "FtpConnect (ftplib env) (FtpInit (ftplib env) (ftp_state s)) ''localhost'' (ftpConn s) = ((r, Some h), l)"
    and "r \<noteq> 0" and "FtpLogin (ftplib env) l ''anonymous'' ''anonymous'' (Some h) = Ret (0, l')"
  shows "cli_ftp env None s = Ret (-1, s\<lparr>ftp_state := l', ftpConn := Some h\<rparr>)"
  using assms by (simp add: cli_ftp_def build_argv_def ftp_connect_def free_argv_def on_ftp_def Let_def)

end
