(* ===== verification/Session.thy ===== *)
theory Session
  imports Mainloop
begin

text \<open>
  The file service as a whole: what the console sees of a sequence of requests, whichever program
  serves them and however the bytes arrive. The specification \<open>session\<close> is a server without
  sockets, buffers or packets: a request changes the host's files and has an answer. The handlers
  of \<open>linkproto_core.c\<close> under the loops of \<open>batch.c\<close> and of \<open>pksh.c\<close> refine it.
\<close>

section \<open>Requests and answers\<close>

datatype request =
    Req_open u32 string | Req_close u32 | Req_read u32 u32 | Req_write u32 "byte list"
  | Req_lseek u32 u32 u32 | Req_dopen string | Req_dread u32 | Req_dclose u32

text \<open>A request on the connection: a packet, and behind a \<open>WRITE\<close> the data.\<close>

fun request_cmd :: "request \<Rightarrow> u32" where
  "request_cmd (Req_open flags p) = OPEN_CMD"
| "request_cmd (Req_close fd) = CLOSE_CMD"
| "request_cmd (Req_read fd n) = READ_CMD"
| "request_cmd (Req_write fd bs) = WRITE_CMD"
| "request_cmd (Req_lseek fd off wh) = LSEEK_CMD"
| "request_cmd (Req_dopen p) = DOPEN_CMD"
| "request_cmd (Req_dread d) = DREAD_CMD"
| "request_cmd (Req_dclose d) = DCLOSE_CMD"

fun request_body :: "request \<Rightarrow> byte list" where
  "request_body (Req_open flags p) = be32 flags @ strncpy p 256"
| "request_body (Req_close fd) = be32 fd"
| "request_body (Req_read fd n) = be32 fd @ be32 n"
| "request_body (Req_write fd bs) = be32 fd @ be32 (of_nat (length bs))"
| "request_body (Req_lseek fd off wh) = be32 fd @ be32 off @ be32 wh"
| "request_body (Req_dopen p) = be32 0 @ strncpy p 256"
| "request_body (Req_dread d) = be32 d"
| "request_body (Req_dclose d) = be32 d"

fun request_data :: "request \<Rightarrow> byte list" where
  "request_data (Req_write fd bs) = bs"
| "request_data _ = []"

definition request_bytes :: "request \<Rightarrow> byte list" where
  "request_bytes r = packet (request_cmd r) (request_body r) @ request_data r"

text \<open>
  A request that fits its packet: a path is shorter than its field, and so is every name on the
  search path; a \<open>WRITE\<close> has data, fewer than \<open>2 ^ 31\<close> bytes.
\<close>

fun ok_request :: "string list \<Rightarrow> request \<Rightarrow> bool" where
  "ok_request ds (Req_open flags p) \<longleftrightarrow> no_nul p \<and> length p < 256 \<and>
     (\<forall>d \<in> set ds. length d + Suc (length (fixed_path p)) < MAXPATHLEN)"
| "ok_request ds (Req_dopen p) \<longleftrightarrow> no_nul p \<and> length p < 256"
| "ok_request ds (Req_write fd bs) \<longleftrightarrow> bs \<noteq> [] \<and> length bs < 2 ^ 31"
| "ok_request ds _ \<longleftrightarrow> True"

text \<open>The first name that opens: the one asked for, then the same under the directories of the path.\<close>

definition opened :: "'fs os \<Rightarrow> string list \<Rightarrow> u32 \<Rightarrow> string \<Rightarrow> 'fs \<Rightarrow> int \<times> 'fs" where
  "opened os ds flags name fs =
     (case find (\<lambda>p. fst (os_open os fs p flags open_mode) \<noteq> -1) (name # map (\<lambda>d. d @ ''/'' @ name) ds) of
        None \<Rightarrow> (-1, fs) | Some p \<Rightarrow> os_open os fs p flags open_mode)"

text \<open>
  What the answer to a \<open>DREAD\<close> must hold; the other bytes of the packet are not determined by the request.
\<close>

definition dread_answer :: "u32 \<Rightarrow> string \<Rightarrow> stat \<Rightarrow> byte list \<Rightarrow> bool" where
  "dread_answer dirp name st msg \<longleftrightarrow> length msg = 306 \<and> take 10 msg = be32 DREAD_RLY @ be16 306 @ be32 dirp \<and>
     (dirp \<noteq> 0 \<longrightarrow> peek 10 4 msg = be32 (dirent_mode (st_mode st)) \<and> peek 14 4 msg = be32 0 \<and>
        peek 18 4 msg = be32 (st_size st) \<and> peek 46 4 msg = be32 0 \<and>
        (no_nul name \<and> length name < 256 \<longrightarrow> c_str (drop 50 msg) = Some name))"

text \<open>
  A request for a directory is for an open one, or undefined: the program hands the number in the packet to
  \<open>readdir\<close> or \<open>closedir\<close> as an address.
\<close>

fun wild_dir :: "'fs os \<Rightarrow> 'fs \<Rightarrow> request \<Rightarrow> bool" where
  "wild_dir os fs (Req_dread d) \<longleftrightarrow> \<not> os_isdir os fs d"
| "wild_dir os fs (Req_dclose d) \<longleftrightarrow> \<not> os_isdir os fs d"
| "wild_dir os fs _ \<longleftrightarrow> False"

text \<open>
  A request, its answer, and the files after it. \<open>wr fs fd bs\<close> are the files after a complete write. There
  is no answer to a \<open>DOPEN\<close> of a directory that does not open, and none to a \<open>READ\<close> without memory.
\<close>

fun answer_of ::
  "'fs os \<Rightarrow> ('fs \<Rightarrow> int \<Rightarrow> byte list \<Rightarrow> 'fs) \<Rightarrow> string list \<Rightarrow> 'fs \<Rightarrow> request \<Rightarrow> byte list \<Rightarrow> 'fs \<Rightarrow> bool" where
  "answer_of os wr ds fs (Req_open flags p) out fs' \<longleftrightarrow>
     (\<exists>k. opened os ds (pko_fix_flags flags) (fixed_path p) fs = (k, fs') \<and> out = file_rly_wire OPEN_RLY (of_cint k))"
| "answer_of os wr ds fs (Req_close fd) out fs' \<longleftrightarrow>
     (\<exists>k. os_close os fs (to_cint fd) = (k, fs') \<and> out = file_rly_wire CLOSE_RLY (of_cint k))"
| "answer_of os wr ds fs (Req_read fd n) out fs' \<longleftrightarrow>
     (if os_malloc os fs n then
        \<exists>k bs. os_read os fs (to_cint fd) n = ((k, bs), fs') \<and>
          out = be32 READ_RLY @ be16 14 @ be32 fd @ be32 (of_cint k) @ take (nat k) bs
      else out = [] \<and> fs' = fs)"
| "answer_of os wr ds fs (Req_write fd bs) out fs' \<longleftrightarrow>
     fs' = wr fs (to_cint fd) bs \<and> out = file_rly_wire WRITE_RLY (of_nat (length bs))"
| "answer_of os wr ds fs (Req_lseek fd off wh) out fs' \<longleftrightarrow>
     (\<exists>k. os_lseek os fs (to_cint fd) (to_cint off) (to_cint wh) = (k, fs') \<and>
       out = file_rly_wire LSEEK_RLY (of_cint k))"
| "answer_of os wr ds fs (Req_dopen p) out fs' \<longleftrightarrow>
     (\<exists>d. os_opendir os fs (fixed_path p) = (d, fs') \<and> out = (if d = 0 then [] else file_rly_wire DOPEN_RLY d))"
| "answer_of os wr ds fs (Req_dread d) out fs' \<longleftrightarrow>
     os_isdir os fs d \<and> (\<exists>e name. os_readdir os fs d = ((e, name), fs') \<and> dread_answer e name (snd (os_stat os fs' name)) out)"
| "answer_of os wr ds fs (Req_dclose d) out fs' \<longleftrightarrow>
     os_isdir os fs d \<and> (\<exists>k. os_closedir os fs d = (k, fs') \<and> out = file_rly_wire DCLOSE_RLY (of_cint k))"

inductive session ::
  "'fs os \<Rightarrow> ('fs \<Rightarrow> int \<Rightarrow> byte list \<Rightarrow> 'fs) \<Rightarrow> string list \<Rightarrow> 'fs \<Rightarrow> request list \<Rightarrow> byte list \<Rightarrow> 'fs \<Rightarrow> bool"
  for os wr ds where
  idle_session: "session os wr ds fs [] [] fs"
| next_request: "answer_of os wr ds fs r out fs1 \<Longrightarrow> session os wr ds fs1 rs outs fs2 \<Longrightarrow>
     session os wr ds fs (r # rs) (out @ outs) fs2"

inductive_simps session_simps [simp]: "session os wr ds fs [] out fs'" "session os wr ds fs (r # rs) out fs'"

text \<open>A sequence that comes, after some answers, to a request for a directory that is not open.\<close>

inductive breaks ::
  "'fs os \<Rightarrow> ('fs \<Rightarrow> int \<Rightarrow> byte list \<Rightarrow> 'fs) \<Rightarrow> string list \<Rightarrow> 'fs \<Rightarrow> request list \<Rightarrow> bool"
  for os wr ds where
  breaks_now: "wild_dir os fs r \<Longrightarrow> breaks os wr ds fs (r # rs)"
| breaks_later: "answer_of os wr ds fs r out fs1 \<Longrightarrow> breaks os wr ds fs1 rs \<Longrightarrow> breaks os wr ds fs (r # rs)"

inductive_simps breaks_simps [simp]: "breaks os wr ds fs []" "breaks os wr ds fs (r # rs)"

text \<open>The files after a request are determined, and a broken sequence has no session.\<close>

lemma answer_of_files: "answer_of os wr ds fs r out fs1 \<Longrightarrow> answer_of os wr ds fs r out' fs2 \<Longrightarrow> fs1 = fs2"
  by (cases r) (auto split: if_splits)

lemma answer_of_dir: "answer_of os wr ds fs r out fs1 \<Longrightarrow> \<not> wild_dir os fs r"
  by (cases r) auto

lemma breaks_answered: "answer_of os wr ds fs r out fs1 \<Longrightarrow> breaks os wr ds fs (r # rs) \<longleftrightarrow> breaks os wr ds fs1 rs"
  by (auto dest: answer_of_files answer_of_dir)

lemma breaks_no_session: "breaks os wr ds fs rs \<Longrightarrow> \<not> session os wr ds fs rs out fs'"
proof (induction rs arbitrary: fs out)
  case (Cons r rs)
  then show ?case using breaks_answered by (metis session_simps(2))
qed simp

text \<open>
  The host of a session: \<open>write\<close> takes all of at most one buffer and \<open>wr\<close> is what it does, two writes
  in a row are one; an \<open>open\<close> that fails leaves the files as they were.
\<close>

definition whole_writes :: "'fs os \<Rightarrow> ('fs \<Rightarrow> int \<Rightarrow> byte list \<Rightarrow> 'fs) \<Rightarrow> bool" where
  "whole_writes os wr \<longleftrightarrow>
     (\<forall>fs fd bs. bs \<noteq> [] \<and> length bs \<le> PACKET_MAXSIZE \<longrightarrow> os_write os fs fd bs = (int (length bs), wr fs fd bs)) \<and>
     (\<forall>fs fd bs cs. wr fs fd (bs @ cs) = wr (wr fs fd bs) fd cs)"

definition failed_open_keeps :: "'fs os \<Rightarrow> bool" where
  "failed_open_keeps os \<longleftrightarrow> (\<forall>fs p m fs'. os_open os fs p m open_mode = (-1, fs') \<longrightarrow> fs' = fs)"

lemma tape_os_host: "whole_writes tape_os (\<lambda>fs fd bs. fs @ bs)" "failed_open_keeps tape_os"
  by (simp_all add: whole_writes_def failed_open_keeps_def)

section \<open>The fields of a request\<close>

lemma un_le32_be32: "un_le32 (be32 w) = htonl w"
  by (simp add: htonl_def be32_def)

lemma packet_fields:
  "peek 6 4 (poke 0 (packet cmd (be32 a @ x)) buf) = be32 a"
  "peek 10 4 (poke 0 (packet cmd (be32 a @ be32 b @ x)) buf) = be32 b"
  "peek 14 4 (poke 0 (packet cmd (be32 a @ be32 b @ be32 c @ x)) buf) = be32 c"
  "drop 10 (poke 0 (packet cmd (be32 a @ x)) buf) = x @ drop (10 + length x) buf"
  by (simp_all add: packet_def peek_def poke_def)

lemmas packet_fields_end =
  packet_fields(1) [where x = "[]", simplified] packet_fields(2) [where x = "[]", simplified]
  packet_fields(3) [where x = "[]", simplified]

lemmas request_views = view_file_req_def view_close_req_def view_read_req_def view_write_req_def
  view_lseek_req_def un_le32_be32 packet_fields packet_fields_end

section \<open>One request\<close>

text \<open>A handler has left these files, sent this answer, and the stream at the byte behind the request.\<close>

definition replied :: "('fs, 'z) link_scheme \<Rightarrow> byte list \<Rightarrow> 'fs \<Rightarrow> byte list \<Rightarrow> ('fs, 'z) link_scheme \<Rightarrow> bool" where
  "replied s out fs rest s' \<longleftrightarrow> host s' = fs \<and>
     sent_on (pko_srv_fd s) s' = sent_on (pko_srv_fd s) s @ out \<and>
     stream (rx s' (pko_srv_fd s)) = rest \<and> tx_plan s' (pko_srv_fd s) = []"

lemma repliedI:
  "host s' = fs \<Longrightarrow> tx_log s' = tx_log s @ [(pko_srv_fd s, out)] \<Longrightarrow>
     stream (rx s' (pko_srv_fd s)) = rest \<Longrightarrow> tx_plan s' = tx_plan s \<Longrightarrow> tx_plan s (pko_srv_fd s) = [] \<Longrightarrow>
     replied s out fs rest s'"
  by (simp add: replied_def sent_on_log)

lemma replied_silent:
  "host s' = fs \<Longrightarrow> tx_log s' = tx_log s \<Longrightarrow>
     stream (rx s' (pko_srv_fd s)) = rest \<Longrightarrow> tx_plan s' = tx_plan s \<Longrightarrow> tx_plan s (pko_srv_fd s) = [] \<Longrightarrow>
     replied s [] fs rest s'"
  by (simp add: replied_def sent_on_def)

lemma file_reply_replied:
  "wf_link s \<Longrightarrow> tx_plan s (pko_srv_fd s) = [] \<Longrightarrow>
     replied s (file_rly_wire cmd v) fs (stream (rx s (pko_srv_fd s))) (file_reply cmd v (s\<lparr>host := fs\<rparr>))"
  by (rule repliedI) (simp_all add: file_reply_log file_reply_plan wf_link_def)

text \<open>The handler of a request does what the specification says.\<close>

definition handled ::
  "'fs os \<Rightarrow> ('fs \<Rightarrow> int \<Rightarrow> byte list \<Rightarrow> 'fs) \<Rightarrow> request \<Rightarrow> byte list \<Rightarrow>
     (('fs, 'z) link_scheme \<Rightarrow> (int \<times> ('fs, 'z) link_scheme) outcome) \<Rightarrow> ('fs, 'z) link_scheme \<Rightarrow> bool" where
  "handled os wr r rest h s \<longleftrightarrow> (\<exists>v s' out fs'. h s = Ret (v, s') \<and>
     answer_of os wr (path_list s) (host s) r out fs' \<and> replied s out fs' rest s')"

lemma handledI:
  "h s = Ret (v, s') \<Longrightarrow> answer_of os wr (path_list s) (host s) r out fs' \<Longrightarrow> replied s out fs' rest s' \<Longrightarrow>
     handled os wr r rest h s"
  unfolding handled_def by blast

text \<open>The state in which a handler runs: the packet in the buffer, and behind it the rest of the stream.\<close>

definition requested :: "request \<Rightarrow> byte list \<Rightarrow> ('fs, 'z) link_scheme \<Rightarrow> bool" where
  "requested r rest s \<longleftrightarrow> wf_link s \<and> tx_plan s (pko_srv_fd s) = [] \<and>
     (\<exists>buf. recv_packet s = poke 0 (packet (request_cmd r) (request_body r)) buf) \<and>
     stream (rx s (pko_srv_fd s)) = request_data r @ rest \<and> ok_request (path_list s) r"

lemma close_handled: "requested (Req_close fd) rest s \<Longrightarrow> handled os wr (Req_close fd) rest (pko_close_file os) s"
  unfolding requested_def
  by (elim conjE exE, cases "os_close os (host s) (to_cint fd)", rule handledI)
     (auto simp: pko_close_file_def Let_def request_views intro: file_reply_replied)

lemma dclose_handled: "requested (Req_dclose d) rest s \<Longrightarrow> os_isdir os (host s) d \<Longrightarrow> handled os wr (Req_dclose d) rest (pko_close_dir os) s"
  unfolding requested_def
  by (elim conjE exE, cases "os_closedir os (host s) d", rule handledI)
     (auto simp: pko_close_dir_def Let_def request_views intro: file_reply_replied)

lemma lseek_handled:
  "requested (Req_lseek fd off wh) rest s \<Longrightarrow> handled os wr (Req_lseek fd off wh) rest (pko_lseek_file os) s"
  unfolding requested_def
  by (elim conjE exE, cases "os_lseek os (host s) (to_cint fd) (to_cint off) (to_cint wh)", rule handledI)
     (auto simp: pko_lseek_file_def Let_def request_views intro: file_reply_replied)

lemma path_packet:
  "no_nul p \<Longrightarrow> length p < 256 \<Longrightarrow> c_str (drop 10 (poke 0 (packet cmd (be32 a @ strncpy p 256)) buf)) = Some p"
  by (simp add: packet_fields c_str_strncpy)

lemma open_handled:
  assumes "requested (Req_open flags p) rest s" and "failed_open_keeps os"
  shows "handled os wr (Req_open flags p) rest (pko_open_file os) s"
proof -
  from assms(1) obtain buf where wf: "wf_link s" and plan: "tx_plan s (pko_srv_fd s) = []"
    and buf: "recv_packet s = poke 0 (packet OPEN_CMD (be32 flags @ strncpy p 256)) buf"
    and strm: "stream (rx s (pko_srv_fd s)) = rest"
    and p: "no_nul p" "length p < 256" and fits: "\<forall>d \<in> set (path_list s). length d + Suc (length (fixed_path p)) < MAXPATHLEN"
    by (auto simp: requested_def)
  have path: "c_str (drop path_offset (recv_packet s)) = Some p"
    unfolding buf by (rule path_packet [OF p])
  have flags: "ntohl (fq_flags (view_file_req (recv_packet s))) = flags"
    by (simp add: buf request_views)
  obtain s' k where s': "pko_open_file os s = Ret (0, s')"
    "(k, host s') = opened os (path_list s) (pko_fix_flags flags) (fixed_path p) (host s)"
    "tx_log s' = tx_log s @ [(pko_srv_fd s, file_rly_wire OPEN_RLY (of_cint k))]" "rx s' = rx s" "tx_plan s' = tx_plan s"
    using pko_open_file_search [OF wf plan path fits, of os] assms(2)
    unfolding failed_open_keeps_def opened_def flags by blast
  show ?thesis
    by (rule handledI [where h = "pko_open_file os", OF s'(1) _ repliedI [OF refl s'(3)]])
      (use s'(2) [symmetric] s'(3-) strm plan in auto)
qed

lemma dopen_handled:
  assumes "requested (Req_dopen p) rest s"
  shows "handled os wr (Req_dopen p) rest (pko_open_dir os) s"
proof -
  from assms obtain buf where wf: "wf_link s" and plan: "tx_plan s (pko_srv_fd s) = []"
    and buf: "recv_packet s = poke 0 (packet DOPEN_CMD (be32 0 @ strncpy p 256)) buf"
    and strm: "stream (rx s (pko_srv_fd s)) = rest" and p: "no_nul p" "length p < 256"
    by (auto simp: requested_def)
  define s0 where "s0 = s\<lparr>send_packet := store enc_file_rly ((view_file_rly (send_packet s))\<lparr>
      p_cmd := htonl DOPEN_RLY, p_len := htons (of_nat sizeof_pkt_file_rly)\<rparr>) (send_packet s)\<rparr>"
  have "wf_link s0" using wf by (simp add: s0_def wf_link_def store_def length_poke enc_file_rly_def)
  moreover have "c_str (drop path_offset (recv_packet s0)) = Some p"
    using path_packet [OF p] by (simp add: s0_def buf)
  ultimately obtain buf' where fix_: "fix_request_path s0 = Ret (fixed_path p, s0\<lparr>recv_packet := buf'\<rparr>)"
    and wf': "wf_link (s0\<lparr>recv_packet := buf'\<rparr>)"
    using fix_request_path_spec [of s0 p] by (auto simp: wf_link_def)
  obtain d fs where op: "os_opendir os (host s) (fixed_path p) = (d, fs)" by fastforce
  define s1 where "s1 = s0\<lparr>recv_packet := buf', host := fs\<rparr>"
  have s1: "wf_link s1" "tx_plan s1 = tx_plan s" "tx_log s1 = tx_log s" "rx s1 = rx s" "pko_srv_fd s1 = pko_srv_fd s"
    "host s1 = fs"
    using wf' by (simp_all add: s1_def s0_def wf_link_def)
  have run: "pko_open_dir os s = (if d = 0 then Ret (-1, s1) else Ret (0, file_reply DOPEN_RLY d s1))"
    using fix_ op unfolding pko_open_dir_def Let_def s0_def [symmetric] by (simp add: s1_def s0_def)
  show ?thesis
  proof (cases "d = 0")
    case True
    show ?thesis
      by (rule handledI [where h = "pko_open_dir os", OF run [unfolded if_P [OF True]] _ replied_silent [OF refl]])
        (use op s1 strm plan True in auto)
  next
    case False
    show ?thesis
      by (rule handledI [where h = "pko_open_dir os", OF run [unfolded if_not_P [OF False]] _ repliedI [OF refl]])
        (use op s1 strm plan False in \<open>auto simp: file_reply_log file_reply_plan\<close>)
  qed
qed

lemma read_handled:
  assumes "requested (Req_read fd n) rest s"
  shows "handled os wr (Req_read fd n) rest (pko_read_file os) s"
proof -
  from assms obtain buf where wf: "wf_link s" and plan: "tx_plan s (pko_srv_fd s) = []"
    and buf: "recv_packet s = poke 0 (packet READ_CMD (be32 fd @ be32 n)) buf"
    and strm: "stream (rx s (pko_srv_fd s)) = rest"
    by (auto simp: requested_def)
  have fields: "fd = ntohl (rq_fd (view_read_req (recv_packet s)))" "n = ntohl (rq_nbytes (view_read_req (recv_packet s)))"
    by (simp_all add: buf request_views)
  obtain k bs fs where rd: "os_read os (host s) (to_cint fd) n = ((k, bs), fs)" by (metis prod.collapse)
  from pko_read_file_reply [OF wf plan fields rd] obtain s' where
    "if os_malloc os (host s) n
     then pko_read_file os s = Ret (0, s') \<and> host s' = fs \<and>
       sent_on (pko_srv_fd s) s' = sent_on (pko_srv_fd s) s @
         be32 READ_RLY @ be16 14 @ be32 fd @ be32 (of_cint k) @ take (nat k) bs \<and>
       rx s' = rx s \<and> tx_plan s' = tx_plan s
     else pko_read_file os s = Ret (-1, s') \<and> host s' = host s \<and> tx_log s' = tx_log s \<and>
       rx s' = rx s \<and> tx_plan s' = tx_plan s" by blast
  with rd strm plan show ?thesis
    unfolding handled_def replied_def by (auto simp: sent_on_def split: if_splits)
qed

lemma dread_handled:
  assumes "requested (Req_dread d) rest s" and dir: "os_isdir os (host s) d"
  shows "handled os wr (Req_dread d) rest (pko_read_dir os) s"
proof -
  from assms(1) obtain buf where wf: "wf_link s" and plan: "tx_plan s (pko_srv_fd s) = []"
    and buf: "recv_packet s = poke 0 (packet DREAD_CMD (be32 d)) buf"
    and strm: "stream (rx s (pko_srv_fd s)) = rest"
    by (auto simp: requested_def)
  obtain e name fs where rd: "os_readdir os (host s) d = ((e, name), fs)" by (metis prod.collapse)
  moreover have "ntohl (rq_fd (view_read_req (recv_packet s))) = d" by (simp add: buf request_views)
  ultimately have dir': "os_isdir os (host s) (ntohl (rq_fd (view_read_req (recv_packet s))))"
    and rd': "os_readdir os (host s) (ntohl (rq_fd (view_read_req (recv_packet s)))) = ((e, name), fs)"
    using dir by simp_all
  define st where "st = snd (os_stat os fs name)"
  from pko_read_dir_reply [OF wf plan dir' rd' st_def] obtain s' msg where
    s': "pko_read_dir os s = Ret (0, s')" "host s' = fs" "tx_log s' = tx_log s @ [(pko_srv_fd s, msg)]"
      "rx s' = rx s" "tx_plan s' = tx_plan s"
    and "take 10 msg = be32 DREAD_RLY @ be16 306 @ be32 e"
    and "if e = 0 then drop 10 msg = peek 10 296 (send_packet s)
      else length msg = 306 \<and> peek 10 4 msg = be32 (dirent_mode (st_mode st)) \<and>
        peek 14 4 msg = be32 0 \<and> peek 18 4 msg = be32 (st_size st) \<and> peek 46 4 msg = be32 0 \<and>
        (no_nul name \<and> length name < 256 \<longrightarrow> c_str (drop 50 msg) = Some name)" by blast
  then have "dread_answer e name st msg"
    using wf by (auto simp: dread_answer_def length_peek wf_link_def split: if_splits dest!: arg_cong [of "drop 10 msg" _ length])
  with rd dir have "answer_of os wr (path_list s) (host s) (Req_dread d) msg fs" by (simp add: st_def)
  then show ?thesis
    by (rule handledI [where h = "pko_read_dir os", OF s'(1) _ repliedI [OF s'(2,3)]]) (use s' strm plan in auto)
qed

lemma to_cint_of_nat: "n < 2 ^ 31 \<Longrightarrow> to_cint (of_nat n) = int n" "n < 2 ^ 31 \<Longrightarrow> of_cint (int n) = of_nat n"
  using to_cint_of_cint [of "int n"] by (simp_all add: of_cint_def is_cint_def)

lemma write_handled:
  assumes "requested (Req_write fd bs) rest s" and host: "whole_writes os wr"
  shows "handled os wr (Req_write fd bs) rest (pko_write_file os) s"
proof -
  from assms(1) obtain buf where wf: "wf_link s" and plan: "tx_plan s (pko_srv_fd s) = []"
    and buf: "recv_packet s = poke 0 (packet WRITE_CMD (be32 fd @ be32 (of_nat (length bs)))) buf"
    and strm: "stream (rx s (pko_srv_fd s)) = bs @ rest" and n: "bs \<noteq> []" "length bs < 2 ^ 31"
    by (auto simp: requested_def)
  let ?fd = "to_cint fd" and ?n = "int (length bs)"
  have fields: "to_cint (ntohl (wq_fd (view_write_req (recv_packet s)))) = ?fd"
    "to_cint (ntohl (wq_nbytes (view_write_req (recv_packet s)))) = ?n"
    using to_cint_of_nat(1) [OF n(2)] by (simp_all add: buf request_views)
  obtain s1 where s1: "write_loop os ?fd ?n s = Ret (0, s1)" "host s1 = wr (host s) ?fd bs"
    "stream (rx s1 (pko_srv_fd s)) = rest" "tx_log s1 = tx_log s" "tx_plan s1 = tx_plan s" "serves s s1"
    using write_loop_transfers [of os ?fd "\<lambda>fs bs fs'. fs' = wr fs ?fd bs" s ?n] host wf n strm
    by (auto simp: whole_writes_def)
  have wf1: "wf_link s1" "pko_srv_fd s1 = pko_srv_fd s"
    using s1(6) wf by (auto simp: serves_def)
  have run: "pko_write_file os s = Ret (0, file_reply WRITE_RLY (of_nat (length bs)) s1)"
    using s1(1) to_cint_of_nat(2) [OF n(2)] by (simp add: pko_write_file_def Let_def fields)
  show ?thesis
    by (rule handledI [where h = "pko_write_file os", OF run _ repliedI [OF refl]])
      (use s1 wf1 plan in \<open>auto simp: file_reply_log file_reply_plan\<close>)
qed

lemma request_handled:
  assumes "requested r rest s" and "file_command os (request_cmd r) = Some h"
    and "\<not> wild_dir os (host s) r" and "whole_writes os wr" and "failed_open_keeps os"
  shows "handled os wr r rest h s"
  using assms
  by (cases r) (auto simp: file_command_def open_handled close_handled read_handled write_handled lseek_handled
      dopen_handled dread_handled dclose_handled)

lemma request_has_handler:
  obtains h where "file_command os (request_cmd r) = Some h"
  by (cases r) (auto simp: file_command_def)

lemma length_request_body: "6 + length (request_body r) \<le> PACKET_MAXSIZE"
  by (cases r) simp_all

section \<open>Memory\<close>

text \<open>
  No handler leaves its arrays, whatever the host and the connection do, if a request for a name has it in
  its field, with its end, and the names of the search path are shorter than the array by such a field.
\<close>

definition name_fits :: "string list \<Rightarrow> u32 \<Rightarrow> byte list \<Rightarrow> bool" where
  "name_fits ds cmd body \<longleftrightarrow> (cmd = OPEN_CMD \<or> cmd = DOPEN_CMD \<longrightarrow>
     0 \<in> set (take MAX_PATH (drop 4 body)) \<and> (\<forall>d \<in> set ds. length d + Suc MAX_PATH < MAXPATHLEN))"

lemma c_str_field:
  assumes "0 \<in> set (take n bs)"
  obtains p where "c_str (bs @ rest) = Some p" and "length p < n"
proof -
  let ?q = "takeWhile (\<lambda>b. b \<noteq> 0) bs"
  obtain k where k: "k < length (take n bs)" "take n bs ! k = 0"
    using assms by (auto simp: in_set_conv_nth)
  then have nul: "0 \<in> set bs" using in_set_takeD [OF assms] by simp
  have "length ?q \<le> k"
  proof (rule ccontr)
    assume "\<not> length ?q \<le> k"
    then have "?q ! k = bs ! k" "?q ! k \<in> set ?q" using nth_mem [of k ?q] by (simp_all add: takeWhile_nth)
    then show False using k set_takeWhileD by fastforce
  qed
  then have "length ?q < n" using k(1) by simp
  moreover have "takeWhile (\<lambda>b. b \<noteq> 0) (bs @ rest) = ?q" using nul by (auto simp: takeWhile_append)
  ultimately show thesis using nul that [of "string_of ?q"] by (simp add: c_str_def)
qed

lemma name_in_packet:
  assumes "name_fits ds cmd body" and "cmd = OPEN_CMD \<or> cmd = DOPEN_CMD"
  obtains p where "c_str (drop path_offset (poke 0 (packet cmd body) buf)) = Some p" and "length p < MAX_PATH"
proof -
  have nul: "0 \<in> set (take MAX_PATH (drop 4 body))" using assms by (auto simp: name_fits_def)
  then have "4 \<le> length body" by (cases "4 \<le> length body") auto
  then have "drop path_offset (poke 0 (packet cmd body) buf) = drop 4 body @ drop (6 + length body) buf"
    by (simp add: packet_def poke_def add.commute)
  with c_str_field [OF nul] that show thesis by metis
qed

lemma length_fixed_path: "length (fixed_path p) \<le> max 1 (length p)"
  by (simp add: fixed_path_def)

lemma try_path_list_safe:
  "\<forall>d \<in> set ds. length d + Suc (length name) < MAXPATHLEN \<Longrightarrow> try_path_list os name flags ds k fs \<noteq> Crash"
  by (induction ds arbitrary: k fs) (auto simp: Let_def split: prod.splits)

lemma recv_into_packet_safe:
  assumes "nat n \<le> length (recv_packet s)"
  shows "recv_into_packet fd 0 n s \<noteq> Crash"
proof -
  have "recv_loop n (length (recv_packet s)) (nat n) (rx s fd) \<noteq> Crash"
    using assms recv_loop_refines [of n "length (recv_packet s)" "nat n" "rx s fd"]
    by (auto simp: recv_spec_def split: if_splits ending.splits)
  then show ?thesis by (simp add: recv_into_packet_def pko_recv_bytes_def recv_bytes_def)
qed

lemma write_loop_safe: "wf_link s \<Longrightarrow> write_loop os fd left s \<noteq> Crash"
proof (induction os fd left s rule: write_loop.induct)
  case (1 os fd left s)
  define n where "n = (if left > int PACKET_MAXSIZE then int PACKET_MAXSIZE else left)"
  have rcv: "recv_into_packet (pko_srv_fd s) 0 n s \<noteq> Crash"
    by (rule recv_into_packet_safe) (use "1.prems" in \<open>simp add: n_def wf_link_def nat_le_iff\<close>)
  have "wf_link s1" if "recv_into_packet (pko_srv_fd s) 0 n s = Ret (got, s1)" for got s1
    using serves_wf [OF serves_recv [OF that] "1.prems"] by simp
  then show ?case
    using rcv "1.IH" [folded n_def] unfolding write_loop.simps [of os fd left s] Let_def n_def [symmetric]
    by (auto simp: wf_link_def obind_Crash_iff split: prod.splits)
qed

text \<open>The handlers that read their request and answer it at once.\<close>

lemma plain_handlers_safe:
  "pko_close_file os s \<noteq> Crash" "pko_lseek_file os s \<noteq> Crash" "pko_read_file os s \<noteq> Crash"
  by (simp_all add: pko_close_file_def pko_lseek_file_def pko_read_file_def Let_def case_prod_beta)

text \<open>The address in a request for a directory; those bytes are from an earlier packet if the body is short.\<close>

definition packet_dir :: "u32 \<Rightarrow> byte list \<Rightarrow> byte list \<Rightarrow> u32" where
  "packet_dir cmd body buf = ntohl (un_le32 (peek 6 4 (poke 0 (packet cmd body) buf)))"

definition wild_packet :: "'fs os \<Rightarrow> 'fs \<Rightarrow> u32 \<Rightarrow> byte list \<Rightarrow> byte list \<Rightarrow> bool" where
  "wild_packet os fs cmd body buf \<longleftrightarrow>
     (cmd = DREAD_CMD \<or> cmd = DCLOSE_CMD) \<and> \<not> os_isdir os fs (packet_dir cmd body buf)"

lemma dir_handlers_crash:
  assumes "recv_packet s = poke 0 (packet cmd body) buf"
  shows "pko_close_dir os s = Crash \<longleftrightarrow> \<not> os_isdir os (host s) (packet_dir cmd body buf)"
    and "pko_read_dir os s = Crash \<longleftrightarrow> \<not> os_isdir os (host s) (packet_dir cmd body buf)"
  by (simp_all add: pko_close_dir_def pko_read_dir_def packet_dir_def assms view_close_req_def view_read_req_def
      Let_def case_prod_beta oguard_def)

lemma write_file_safe: "wf_link s \<Longrightarrow> pko_write_file os s \<noteq> Crash"
  using write_loop_safe by (auto simp: pko_write_file_def Let_def obind_Crash_iff)

lemma open_file_safe:
  assumes "wf_link s" and "c_str (drop path_offset (recv_packet s)) = Some p"
    and "\<forall>d \<in> set (path_list s). length d + Suc (length (fixed_path p)) < MAXPATHLEN"
  shows "pko_open_file os s \<noteq> Crash"
proof -
  obtain buf where "fix_request_path s = Ret (fixed_path p, s\<lparr>recv_packet := buf\<rparr>)"
    using fix_request_path_spec [OF assms(1,2)] by blast
  then show ?thesis
    using try_path_list_safe [OF assms(3), of os]
    by (simp add: pko_open_file_def Let_def case_prod_beta pko_get_path_def obind_Crash_iff)
qed

lemma open_dir_safe:
  assumes "wf_link s" and "c_str (drop path_offset (recv_packet s)) = Some p"
  shows "pko_open_dir os s \<noteq> Crash"
proof -
  let ?s0 = "s\<lparr>send_packet := store enc_file_rly ((view_file_rly (send_packet s))\<lparr>
      p_cmd := htonl DOPEN_RLY, p_len := htons (of_nat sizeof_pkt_file_rly)\<rparr>) (send_packet s)\<rparr>"
  have "wf_link ?s0"
    using assms(1) by (simp add: wf_link_def store_def length_poke enc_file_rly_def)
  then obtain buf where "fix_request_path ?s0 = Ret (fixed_path p, ?s0\<lparr>recv_packet := buf\<rparr>)"
    using fix_request_path_spec [of ?s0 p] assms(2) by auto
  then show ?thesis by (simp add: pko_open_dir_def Let_def case_prod_beta)
qed

lemma handler_safe:
  assumes h: "file_command os cmd = Some h" and wf: "wf_link s" and fits: "name_fits (path_list s) cmd body"
    and buf: "recv_packet s = poke 0 (packet cmd body) buf" and dir: "\<not> wild_packet os (host s) cmd body buf"
  shows "h s \<noteq> Crash"
proof (cases "cmd = OPEN_CMD \<or> cmd = DOPEN_CMD")
  case True
  from name_in_packet [OF fits True] obtain p where p: "c_str (drop path_offset (recv_packet s)) = Some p" "length p < MAX_PATH"
    unfolding buf by blast
  have "length (fixed_path p) \<le> MAX_PATH" using p(2) length_fixed_path [of p] by simp
  then have "\<forall>d \<in> set (path_list s). length d + Suc (length (fixed_path p)) < MAXPATHLEN"
    using fits True by (auto simp: name_fits_def)
  from open_file_safe [OF wf p(1) this] open_dir_safe [OF wf p(1)] h True show ?thesis
    by (auto simp: file_command_def)
next
  case False
  with h show ?thesis
    using plain_handlers_safe [of os s] write_file_safe [OF wf] dir_handlers_crash [OF buf, of os] dir
    by (auto simp: file_command_def wild_packet_def split: if_splits)
qed

text \<open>A name that fills the buffer and has no end.\<close>

definition unended :: "u32 \<Rightarrow> byte list \<Rightarrow> bool" where
  "unended cmd body \<longleftrightarrow> (cmd = OPEN_CMD \<or> cmd = DOPEN_CMD) \<and> length body = PACKET_MAXSIZE - 6 \<and> 0 \<notin> set (drop 4 body)"

lemma fix_slashes_unended: "0 \<notin> set a \<Longrightarrow> fix_slashes a = None"
  by (induction a) auto

lemma unended_crashes:
  assumes "wf_link s" and "recv_packet s = poke 0 (packet cmd body) buf" and "unended cmd body"
  shows "pko_open_file os s = Crash" and "pko_open_dir os s = Crash"
proof -
  have body: "length body = 4090" "0 \<notin> set (drop 4 body)" using assms(3) by (simp_all add: unended_def)
  have "length (recv_packet s) = 4096" using assms(1) by (simp add: wf_link_def)
  then have "drop path_offset (recv_packet s) = drop 4 body"
    using body(1) by (auto simp: assms(2) packet_def poke_def)
  then have "pko_fix_path (drop path_offset (recv_packet s)) = None"
    using body fix_slashes_unended [OF body(2)] by (auto simp: pko_fix_path_def split: list.splits)
  then have "fix_request_path s' = Crash" if "recv_packet s' = recv_packet s" for s' :: "('a, 'b) link_scheme"
    using that by (simp add: fix_request_path_def)
  then show "pko_open_file os s = Crash" "pko_open_dir os s = Crash"
    by (simp_all add: pko_open_file_def pko_open_dir_def Let_def)
qed

section \<open>The interface of the two programs\<close>

text \<open>
  A program that serves files: it frames requests, and hands those for files to \<open>linkproto_core.c\<close>. What it
  does behind the handler does not touch the state of the link, nor the part of its own state that \<open>own\<close>
  selects.
\<close>

lemma truncate_inject:
  assumes "link.truncate s = link.truncate s'"
  shows "host s = host s'" "rx s = rx s'" "tx_plan s = tx_plan s'" "tx_log s = tx_log s'"
    "wf_link s = wf_link s'" "pko_srv_fd s = pko_srv_fd s'" "log_fd s = log_fd s'" "path_list s = path_list s'"
  using assms by (simp_all add: link.truncate_def wf_link_def)

text \<open>The state between two requests.\<close>

definition serving :: "('fs, 'z) link_scheme \<Rightarrow> bool" where
  "serving s \<longleftrightarrow> wf_link s \<and> tx_plan s (pko_srv_fd s) = []"

definition same_service :: "('fs, 'z) link_scheme \<Rightarrow> ('fs, 'z) link_scheme \<Rightarrow> bool" where
  "same_service s s' \<longleftrightarrow> pko_srv_fd s' = pko_srv_fd s \<and> log_fd s' = log_fd s \<and> path_list s' = path_list s"

locale file_service = framed_server serve dispatch
  for serve :: "int \<Rightarrow> ('fs, 'z) link_scheme \<Rightarrow> (int \<times> ('fs, 'z) link_scheme) outcome"
    and dispatch :: "u32 \<Rightarrow> ('fs, 'z) link_scheme \<Rightarrow> (int \<times> ('fs, 'z) link_scheme) outcome" +
  fixes os :: "'fs os" and own :: "'z \<Rightarrow> 'own"
  assumes dispatch_file: "file_command os cmd = Some h \<Longrightarrow> h s = Ret (v, s1) \<Longrightarrow>
      \<exists>s2. dispatch cmd s = Ret (0, s2) \<and> link.truncate s2 = link.truncate s1 \<and>
        own (link.more s2) = own (link.more s1)"
    and dispatch_crash: "file_command os cmd = Some h \<Longrightarrow> dispatch cmd s = Crash \<longleftrightarrow> h s = Crash"
begin

lemma serve_safe:
  assumes "wf_link s" and "stream (rx s fd) = packet cmd body @ rest" and "6 + length body \<le> PACKET_MAXSIZE"
    and "file_command os cmd = Some (h :: ('fs, 'z) link_scheme \<Rightarrow> _)" and "name_fits (path_list s) cmd body"
    and "\<not> wild_packet os (host s) cmd body (recv_packet s)"
  shows "serve fd s \<noteq> Crash"
proof -
  obtain es where run: "serve fd s = dispatch cmd (s\<lparr>rx := (rx s)(fd := es),
      recv_packet := poke 0 (packet cmd body) (recv_packet s)\<rparr>)"
    using serve_packet [OF assms(1-3)] by blast
  let ?s = "s\<lparr>rx := (rx s)(fd := es), recv_packet := poke 0 (packet cmd body) (recv_packet s)\<rparr>"
  have "wf_link ?s" using assms(1,3) by (simp add: wf_link_def length_poke packet_def)
  then have "h ?s \<noteq> Crash" using handler_safe [OF assms(4), of ?s body "recv_packet s"] assms(5,6) by simp
  then show ?thesis using run dispatch_crash [OF assms(4)] by auto
qed

lemma serve_overrun:
  assumes "wf_link s" and "stream (rx s fd) = packet cmd body @ rest" and "unended cmd body"
  shows "serve fd s = Crash"
proof -
  have len: "6 + length body \<le> PACKET_MAXSIZE" using assms(3) by (simp add: unended_def)
  obtain es where run: "serve fd s = dispatch cmd (s\<lparr>rx := (rx s)(fd := es),
      recv_packet := poke 0 (packet cmd body) (recv_packet s)\<rparr>)"
    using serve_packet [OF assms(1,2) len] by blast
  let ?s = "s\<lparr>rx := (rx s)(fd := es), recv_packet := poke 0 (packet cmd body) (recv_packet s)\<rparr>"
  have "wf_link ?s" using assms(1) len by (simp add: wf_link_def length_poke packet_def)
  with unended_crashes [of ?s cmd body "recv_packet s" os] assms(3) run dispatch_crash [of cmd _ ?s] show ?thesis
    by (auto simp: file_command_def unended_def)
qed

lemma serve_wild:
  assumes "wf_link s" and "stream (rx s fd) = packet cmd body @ rest" and "6 + length body \<le> PACKET_MAXSIZE"
    and "wild_packet os (host s) cmd body (recv_packet s)"
  shows "serve fd s = Crash"
proof -
  obtain es where run: "serve fd s = dispatch cmd (s\<lparr>rx := (rx s)(fd := es),
      recv_packet := poke 0 (packet cmd body) (recv_packet s)\<rparr>)"
    using serve_packet [OF assms(1-3)] by blast
  let ?s = "s\<lparr>rx := (rx s)(fd := es), recv_packet := poke 0 (packet cmd body) (recv_packet s)\<rparr>"
  show ?thesis
    using dir_handlers_crash [of ?s cmd body "recv_packet s" os] assms(4) run dispatch_crash [of cmd _ ?s]
    by (auto simp: file_command_def wild_packet_def)
qed

lemma serve_wild_request:
  assumes "wf_link s" and "stream (rx s fd) = request_bytes r @ rest" and "wild_dir os (host s) r"
  shows "serve fd s = Crash"
proof (rule serve_wild [OF assms(1) _ length_request_body])
  show "stream (rx s fd) = packet (request_cmd r) (request_body r) @ (request_data r @ rest)"
    using assms(2) by (simp add: request_bytes_def)
  show "wild_packet os (host s) (request_cmd r) (request_body r) (recv_packet s)"
    using assms(3) by (cases r) (simp_all add: wild_packet_def packet_dir_def request_views)
qed

lemma serve_large:
  assumes "wf_link s" and "stream (rx s fd) = packet cmd body @ rest"
    and "PACKET_MAXSIZE < 6 + length body" "length body < 65530"
  shows "serve fd s = Crash"
proof (rule serve_overflow [OF assms(1)])
  show "stream (rx s fd) = be32 cmd @ be16 (of_nat (6 + length body)) @ body @ rest"
    using assms(2) by (simp add: packet_def)
  show "4096 < uint (of_nat (6 + length body) :: u16)" using assms(3,4) by (subst uint_length16) auto
  show "4090 < length (body @ rest)" using assms(3) by simp
qed

lemma serve_answers:
  assumes "serving s" and "stream (rx s (pko_srv_fd s)) = request_bytes r @ rest" and "ok_request (path_list s) r"
    and dir: "\<not> wild_dir os (host s) r" and host: "whole_writes os wr" "failed_open_keeps os"
  obtains s' out where "serve (pko_srv_fd s) s = Ret (0, s')"
    and "answer_of os wr (path_list s) (host s) r out (host s')"
    and "sent_on (pko_srv_fd s) s' = sent_on (pko_srv_fd s) s @ out" and "stream (rx s' (pko_srv_fd s)) = rest"
    and "serving s'" and "same_service s s'" and "own (link.more s') = own (link.more s)"
proof -
  let ?p = "packet (request_cmd r) (request_body r)"
  have strm: "stream (rx s (pko_srv_fd s)) = ?p @ (request_data r @ rest)"
    using assms(2) by (simp add: request_bytes_def)
  have wf: "wf_link s" using assms(1) by (simp add: serving_def)
  obtain es where es: "stream es = request_data r @ rest"
    and run: "serve (pko_srv_fd s) s = dispatch (request_cmd r)
      (s\<lparr>rx := (rx s)(pko_srv_fd s := es), recv_packet := poke 0 ?p (recv_packet s)\<rparr>)"
    using serve_packet [OF wf strm length_request_body] by blast
  define s1 where "s1 = s\<lparr>rx := (rx s)(pko_srv_fd s := es), recv_packet := poke 0 ?p (recv_packet s)\<rparr>"
  have wf1: "wf_link s1"
    using wf length_request_body [of r] by (simp add: s1_def wf_link_def length_poke packet_def)
  have same: "host s1 = host s" "path_list s1 = path_list s" "pko_srv_fd s1 = pko_srv_fd s" "log_fd s1 = log_fd s"
    "tx_log s1 = tx_log s"
    by (simp_all add: s1_def)
  have "requested r rest s1"
    unfolding requested_def same using wf1 assms(1,3) es by (auto simp: s1_def serving_def)
  moreover obtain h :: "('fs, 'z) link_scheme \<Rightarrow> (int \<times> ('fs, 'z) link_scheme) outcome"
    where h: "file_command os (request_cmd r) = Some h"
    using request_has_handler .
  ultimately have "handled os wr r rest h s1"
    by (rule request_handled) (use dir host same in simp_all)
  then obtain v s2 out fs where s2: "h s1 = Ret (v, s2)" "answer_of os wr (path_list s) (host s) r out fs"
    "replied s1 out fs rest s2"
    unfolding handled_def same by blast
  obtain s3 where s3: "dispatch (request_cmd r) s1 = Ret (0, s3)" "link.truncate s3 = link.truncate s2"
    "own (link.more s3) = own (link.more s2)"
    using dispatch_file [OF h s2(1)] by blast
  have keeps: "serves s1 s2" by (rule file_command_handler [OF h wf1 s2(1)])
  note core = truncate_inject [OF s3(2)]
  show thesis
  proof (rule that)
    show "serve (pko_srv_fd s) s = Ret (0, s3)" using run s3(1) by (simp add: s1_def)
    show "answer_of os wr (path_list s) (host s) r out (host s3)" using s2(2,3) by (simp add: core replied_def)
    show "sent_on (pko_srv_fd s) s3 = sent_on (pko_srv_fd s) s @ out"
      using s2(3) by (simp add: replied_def same sent_on_def core)
    show "stream (rx s3 (pko_srv_fd s)) = rest" using s2(3) by (simp add: replied_def same core)
    show "serving s3" "same_service s s3"
      using s2(3) keeps wf1 by (simp_all add: serving_def same_service_def core replied_def same serves_def)
    show "own (link.more s3) = own (link.more s)" using s3(3) keeps by (simp add: serves_def s1_def)
  qed
qed

end

interpretation batch_files: file_service "batch_io_read os" "\<lambda>cmd s. obind (batch_switch os cmd s) (\<lambda>s. Ret (0, s))" os
  "\<lambda>_. ()" for os :: "'fs os"
  by unfold_locales (auto simp: batch_io_read_def Let_def batch_switch_def link.truncate_def obind_Crash_iff omap_Crash_iff)

interpretation shell_files: file_service "pko_srv_read env" "\<lambda>cmd s. obind (srv_switch env cmd s) (\<lambda>s. Ret (0, s))"
  "env_os env" "\<lambda>own. own" for env :: "'fs env"
  by unfold_locales (auto simp: pko_srv_read_def Let_def srv_switch_def obind_Crash_iff omap_Crash_iff)

section \<open>Sessions\<close>

lemma same_service_refl [simp]: "same_service s s"
  by (simp add: same_service_def)

lemma same_service_trans: "same_service s s1 \<Longrightarrow> same_service s1 s2 \<Longrightarrow> same_service s s2"
  by (simp add: same_service_def)

lemma batch_round_request:
  "pko_srv_fd s \<in> set fds \<Longrightarrow> log_fd s \<notin> set fds \<Longrightarrow> batch_io_read os (pko_srv_fd s) s = Ret (r, s') \<Longrightarrow>
     batch_round os fds s = Ret s'"
  by (simp add: batch_round_def)

text \<open>
  C1. The batch tools serve a session: in the rounds of \<open>batch_io_loop\<close> in which the connection is ready, one
  for each request, whatever the requests are and however the stream was cut, the console receives exactly
  the answers of the specification, in order, the host's files become what the specification says, and the
  stream is left behind the last request. If the console asks for a directory that is not open at that
  point, the tool uses the number it sent as an address.
\<close>

theorem batch_session:
  assumes "serving s" and "nservice \<noteq> 0"
    and "stream (rx s (pko_srv_fd s)) = concat (map request_bytes rs) @ rest"
    and "\<forall>r \<in> set rs. ok_request (path_list s) r"
    and "length rounds = length rs" and "\<forall>fds \<in> set rounds. pko_srv_fd s \<in> set fds \<and> log_fd s \<notin> set fds"
    and host: "whole_writes os wr" "failed_open_keeps os"
  shows "if breaks os wr (path_list s) (host s) rs then batch_io_loop os nservice (map Ready rounds @ ws) s = Crash
     else \<exists>out s'. session os wr (path_list s) (host s) rs out (host s') \<and>
       batch_io_loop os nservice (map Ready rounds @ ws) s = batch_io_loop os nservice ws s' \<and>
       sent_on (pko_srv_fd s) s' = sent_on (pko_srv_fd s) s @ out \<and> stream (rx s' (pko_srv_fd s)) = rest"
  using assms(1,3-6)
proof (induction rs arbitrary: s rounds)
  case (Cons r rs)
  from Cons.prems obtain fds rounds' where rounds: "rounds = fds # rounds'" "length rounds' = length rs"
    by (cases rounds) auto
  have strm: "stream (rx s (pko_srv_fd s)) = request_bytes r @ (concat (map request_bytes rs) @ rest)"
    using Cons.prems(2) by simp
  show ?case
  proof (cases "wild_dir os (host s) r")
    case True
    have "batch_io_read os (pko_srv_fd s) s = Crash"
      using batch_files.serve_wild_request [OF _ strm True] Cons.prems(1) by (simp add: serving_def)
    then have "batch_round os fds s = Crash"
      using Cons.prems(5) rounds(1) by (simp add: batch_round_def)
    with True rounds(1) show ?thesis by simp
  next
    case False
    have "ok_request (path_list s) r" using Cons.prems(3) by simp
    from batch_files.serve_answers [OF Cons.prems(1) strm this False host] obtain s1 out where
      s1: "batch_io_read os (pko_srv_fd s) s = Ret (0, s1)" "answer_of os wr (path_list s) (host s) r out (host s1)"
        "sent_on (pko_srv_fd s) s1 = sent_on (pko_srv_fd s) s @ out"
        "stream (rx s1 (pko_srv_fd s)) = concat (map request_bytes rs) @ rest" "serving s1" and same: "same_service s s1"
      by blast
    note same = same [unfolded same_service_def] and breaks = breaks_answered [OF s1(2), of rs]
    have step: "batch_io_loop os nservice (map Ready rounds @ ws) s = batch_io_loop os nservice (map Ready rounds' @ ws) s1"
      using batch_round_request [OF _ _ s1(1), of fds] Cons.prems(5) rounds assms(2) by simp
    have IH: "if breaks os wr (path_list s1) (host s1) rs then batch_io_loop os nservice (map Ready rounds' @ ws) s1 = Crash
      else \<exists>out s'. session os wr (path_list s1) (host s1) rs out (host s') \<and>
        batch_io_loop os nservice (map Ready rounds' @ ws) s1 = batch_io_loop os nservice ws s' \<and>
        sent_on (pko_srv_fd s1) s' = sent_on (pko_srv_fd s1) s1 @ out \<and> stream (rx s' (pko_srv_fd s1)) = rest"
      by (rule Cons.IH) (use s1 same rounds Cons.prems(3,5) in auto)
    show ?thesis
    proof (cases "breaks os wr (path_list s) (host s1) rs")
      case True
      then show ?thesis using IH same step breaks by simp
    next
      case False
      then obtain outs s' where s': "session os wr (path_list s) (host s1) rs outs (host s')"
        "batch_io_loop os nservice (map Ready rounds' @ ws) s1 = batch_io_loop os nservice ws s'"
        "sent_on (pko_srv_fd s) s' = sent_on (pko_srv_fd s) s1 @ outs" "stream (rx s' (pko_srv_fd s)) = rest"
        using IH same by auto
      have "session os wr (path_list s) (host s) (r # rs) (out @ outs) (host s')"
        using s1(2) s'(1) by auto
      then show ?thesis using s'(2-4) s1(3) step False breaks
        by (simp del: session_simps breaks_simps) (blast intro: append_assoc [symmetric])
    qed
  qed
qed auto

text \<open>
  A console that opens a file, writes two bytes, closes the file and asks for a directory, in two segments with
  an interruption between them.
\<close>

definition console_session :: "request list" where
  "console_session = [Req_open 2 ''f'', Req_write 3 [7, 8], Req_close 3, Req_dopen ''d'']"

definition console_stream :: "rx_event list" where
  "console_stream = (let bs = concat (map request_bytes console_session)
     in [Arrive (take 9 bs), RxError EINTR, Arrive (drop 9 bs)])"

lemma console_stream [simp]: "stream console_stream = concat (map request_bytes console_session)"
  by (simp add: console_stream_def Let_def fatal_def)

lemma console_session_ok: "\<forall>r \<in> set console_session. ok_request [''x'', ''a''] r"
  by (simp add: console_session_def fixed_path_def slash_def)

lemma console_session_length: "length console_session = 4"
  by (simp add: console_session_def)

lemma console_session_dirs [simp]: "\<not> breaks os wr ds fs console_session"
  by (simp add: console_session_def)

theorem batch_session_witness:
  "\<exists>s'. batch_io_loop tape_os 1 (map Ready [[4], [4], [4], [4]] @ [SelectError])
      ((batch_init [9])\<lparr>pko_srv_fd := 4, log_fd := 5, path_list := [''x'', ''a''], rx := \<lambda>_. console_stream\<rparr>) = Ret (0, s') \<and>
     host s' = [9, 7, 8] \<and> stream (rx s' 4) = [] \<and>
     sent_on 4 s' = file_rly_wire OPEN_RLY (of_cint 3) @ file_rly_wire WRITE_RLY 2 @ file_rly_wire CLOSE_RLY (of_cint 0)"
proof -
  let ?s = "(batch_init [9 :: byte])\<lparr>pko_srv_fd := 4, log_fd := 5, path_list := [''x'', ''a''], rx := \<lambda>_. console_stream\<rparr>"
  have "serving ?s" "sent_on 4 ?s = []"
    by (simp_all add: serving_def batch_init_def link_init_def link.defs wf_link_def sent_on_def)
  then obtain out s' where s': "session tape_os (\<lambda>fs fd bs. fs @ bs) [''x'', ''a''] [9] console_session out (host s')"
    "batch_io_loop tape_os 1 (map Ready [[4], [4], [4], [4]] @ [SelectError]) ?s = batch_io_loop tape_os 1 [SelectError] s'"
    "sent_on 4 s' = out" "stream (rx s' 4) = []"
    using batch_session [of ?s 1 console_session "[]" "[[4], [4], [4], [4]]" tape_os "\<lambda>fs fd bs. fs @ bs" "[SelectError]"]
      console_session_ok console_session_length tape_os_host console_session_dirs
    by auto
  from s'(1) have "host s' = [9, 7, 8] \<and> out = file_rly_wire OPEN_RLY (of_cint 3) @ file_rly_wire WRITE_RLY 2 @
      file_rly_wire CLOSE_RLY (of_cint 0)"
    by (auto simp: console_session_def opened_def fixed_path_def slash_def)
  then show ?thesis using s'(2-4) by (intro exI [of _ s']) simp
qed

section \<open>Turns of the shell\<close>

lemma same_doloop:
  fixes s s' :: "('fs, 'z) shell_scheme"
  shows "link.more s' = link.more s \<Longrightarrow> doloop s' = doloop s"
  by (cases s, cases s') simp

text \<open>
  C2. The shell serves the same sessions: in the turns of its loop in which only the connection to the console
  is ready, one for each request, the console receives the answers of the specification in order, the host's
  files become what it says, the stream is left behind the last request, and the table of clients is as it was.
  A request for a directory that is not open makes the shell use the number as an address.
\<close>

theorem shell_session:
  assumes "serving s" and "doloop s \<noteq> 0"
    and table: "wf_table p" "int i \<le> maxi p" "client p ! i = pko_srv_fd s"
    and "0 < pko_srv_fd s" and "log_fd s \<noteq> pko_srv_fd s"
    and "stream (rx s (pko_srv_fd s)) = concat (map request_bytes rs) @ rest"
    and "\<forall>r \<in> set rs. ok_request (path_list s) r"
    and "length turns = length rs" and "\<forall>rd \<in> set turns. rd_set rd = [pko_srv_fd s]"
    and host: "whole_writes (env_os env) wr" "failed_open_keeps (env_os env)"
  shows "if breaks (env_os env) wr (path_list s) (host s) rs then main_loop env (map Select_ready turns @ evs) (p, s) = Crash
     else \<exists>out s'. session (env_os env) wr (path_list s) (host s) rs out (host s') \<and>
       main_loop env (map Select_ready turns @ evs) (p, s) = main_loop env evs (p, s') \<and>
       sent_on (pko_srv_fd s) s' = sent_on (pko_srv_fd s) s @ out \<and> stream (rx s' (pko_srv_fd s)) = rest"
  using assms(1,2,5-11)
proof (induction rs arbitrary: s turns)
  case (Cons r rs)
  from Cons.prems obtain rd turns' where turns: "turns = rd # turns'" "length turns' = length rs" "rd_set rd = [pko_srv_fd s]"
    by (cases turns) auto
  have strm: "stream (rx s (pko_srv_fd s)) = request_bytes r @ (concat (map request_bytes rs) @ rest)"
    using Cons.prems(6) by simp
  have pos: "0 \<le> pko_srv_fd s" using Cons.prems(4) by simp
  let ?env = "env\<lparr>env_line := rd_line rd\<rparr>"
  have os: "env_os ?env = env_os env" by simp
  show ?case
  proof (cases "wild_dir (env_os env) (host s) r")
    case True
    have "pko_srv_read ?env (pko_srv_fd s) s = Crash"
      using shell_files.serve_wild_request [of s _ r _ ?env, OF _ strm] True Cons.prems(1) by (simp add: serving_def)
    then have "serve_client ?env rd i (p, s) = Crash"
      using Cons.prems(3-5) turns(3) by (simp add: serve_client_def Let_def)
    then have "turn env rd (p, s) = Crash" using serve_only_fails [OF _ table(1,2) Cons.prems(3) pos turns(3)] by blast
    with True turns(1) Cons.prems(2) show ?thesis by simp
  next
    case False
    have "ok_request (path_list s) r" using Cons.prems(7) by simp
    from shell_files.serve_answers [of s r _ ?env, OF Cons.prems(1) strm this False [folded os] host [folded os]] obtain s1 out where
      s1: "pko_srv_read ?env (pko_srv_fd s) s = Ret (0, s1)" "answer_of (env_os env) wr (path_list s) (host s) r out (host s1)"
        "sent_on (pko_srv_fd s) s1 = sent_on (pko_srv_fd s) s @ out"
        "stream (rx s1 (pko_srv_fd s)) = concat (map request_bytes rs) @ rest" "serving s1" and same: "same_service s s1"
        and loop: "doloop s1 = doloop s"
      unfolding os by (metis same_doloop)
    note same = same [unfolded same_service_def] and breaks = breaks_answered [OF s1(2), of rs]
    have run: "serve_client ?env rd i (p, s) = Ret (p, s1)"
      using s1(1) Cons.prems(3-5) turns(3) by (simp add: serve_client_def Let_def)
    have turn: "turn env rd (p, s) = Ret (p, s1)"
      by (rule serve_only [OF table(1,2) Cons.prems(3) pos turns(3) run])
    then have step: "main_loop env (map Select_ready turns @ evs) (p, s) = main_loop env (map Select_ready turns' @ evs) (p, s1)"
      using turns(1) Cons.prems(2) by simp
    have IH: "if breaks (env_os env) wr (path_list s1) (host s1) rs then main_loop env (map Select_ready turns' @ evs) (p, s1) = Crash
      else \<exists>out s'. session (env_os env) wr (path_list s1) (host s1) rs out (host s') \<and>
        main_loop env (map Select_ready turns' @ evs) (p, s1) = main_loop env evs (p, s') \<and>
        sent_on (pko_srv_fd s1) s' = sent_on (pko_srv_fd s1) s1 @ out \<and> stream (rx s' (pko_srv_fd s1)) = rest"
      by (rule Cons.IH) (use s1 same loop turns Cons.prems(2-5,7,9) in auto)
    show ?thesis
    proof (cases "breaks (env_os env) wr (path_list s) (host s1) rs")
      case True
      then show ?thesis using IH same step breaks by simp
    next
      case False
      then obtain outs s' where s': "session (env_os env) wr (path_list s) (host s1) rs outs (host s')"
        "main_loop env (map Select_ready turns' @ evs) (p, s1) = main_loop env evs (p, s')"
        "sent_on (pko_srv_fd s) s' = sent_on (pko_srv_fd s) s1 @ outs" "stream (rx s' (pko_srv_fd s)) = rest"
        using IH same by auto
      have "session (env_os env) wr (path_list s) (host s) (r # rs) (out @ outs) (host s')"
        using s1(2) s'(1) by auto
      then show ?thesis using s'(2-4) s1(3) step False breaks
        by (simp del: session_simps breaks_simps) (blast intro: append_assoc [symmetric])
    qed
  qed
qed auto

text \<open>A host that counts the bytes written to it.\<close>

definition count_os :: "int os" where
  "count_os = no_files\<lparr>os_write := \<lambda>fs fd bs. (int (length bs), fs + int (length bs))\<rparr>"

lemma count_os_simps [simp]:
  "os_open count_os fs p f m = (-1, fs)" "os_close count_os fs fd = (-1, fs)" "os_opendir count_os fs p = (0, fs)"
  "os_write count_os fs fd bs = (int (length bs), fs + int (length bs))"
  by (simp_all add: count_os_def no_files_def)

lemma count_os_host: "whole_writes count_os (\<lambda>fs fd bs. fs + int (length bs))" "failed_open_keeps count_os"
  by (simp_all add: whole_writes_def failed_open_keeps_def)

abbreviation (input) console_turn :: ready where
  "console_turn \<equiv> \<lparr>rd_set = [4], rd_key = Typed, rd_accept = -1, rd_line = ''''\<rparr>"

theorem shell_session_witness:
  "\<exists>s'. main_loop (example_env\<lparr>env_os := count_os\<rparr>) (map Select_ready (replicate 4 console_turn) @ [Select_failed False])
      (two_clients, shell_example\<lparr>log_fd := 8, path_list := [''x'', ''a''], rx := \<lambda>_. console_stream\<rparr>) =
        main_loop (example_env\<lparr>env_os := count_os\<rparr>) [Select_failed False] (two_clients, s') \<and>
     host s' = 9 \<and> stream (rx s' 4) = [] \<and>
     sent_on 4 s' = file_rly_wire OPEN_RLY (of_cint (-1)) @ file_rly_wire WRITE_RLY 2 @ file_rly_wire CLOSE_RLY (of_cint (-1))"
proof -
  let ?s = "shell_example\<lparr>log_fd := 8, path_list := [''x'', ''a''], rx := \<lambda>_. console_stream\<rparr>"
  let ?env = "example_env\<lparr>env_os := count_os\<rparr>"
  have "serving ?s" "sent_on 4 ?s = []" "doloop ?s = 1"
    using shell_example_simps(1)
    by (simp_all add: serving_def wf_link_def sent_on_def) (simp_all add: shell_example_def shell_init_def link.defs)
  moreover have "client two_clients ! 1 = 4" "maxi two_clients = 5" by (simp_all add: two_clients_def)
  ultimately obtain out s' where s': "session count_os (\<lambda>fs fd bs. fs + int (length bs)) [''x'', ''a''] 7 console_session out (host s')"
    "main_loop ?env (map Select_ready (replicate 4 console_turn) @ [Select_failed False]) (two_clients, ?s) =
       main_loop ?env [Select_failed False] (two_clients, s')"
    "sent_on 4 s' = out" "stream (rx s' 4) = []"
    using shell_session [of ?s two_clients 1 console_session "[]" "replicate 4 console_turn" ?env
        "\<lambda>fs fd bs. fs + int (length bs)" "[Select_failed False]"]
      console_session_ok console_session_length wf_two_clients(1) count_os_host
    by (auto simp del: main_loop.simps replicate.simps)
  from s'(1) have "host s' = 9 \<and> out = file_rly_wire OPEN_RLY (of_cint (-1)) @ file_rly_wire WRITE_RLY 2 @
      file_rly_wire CLOSE_RLY (of_cint (-1))"
    by (auto simp: console_session_def opened_def)
  then show ?thesis using s'(2-4) by (intro exI [of _ s']) simp
qed

section \<open>Requests and the arrays\<close>

text \<open>
  A packet that makes the code leave its arrays or use a wild address: one larger than \<open>recv_packet\<close>, one with a
  name that fills the buffer and has no end, and one for a directory that is not open. And a packet that does
  not: it fits the buffer, the name in it ends in its field and leaves the names of the search path room, and
  a directory in it is open.
\<close>

definition bad_packet :: "'fs os \<Rightarrow> ('fs, 'z) link_scheme \<Rightarrow> u32 \<Rightarrow> byte list \<Rightarrow> bool" where
  "bad_packet os s cmd body \<longleftrightarrow>
     PACKET_MAXSIZE < 6 + length body \<or> unended cmd body \<or> wild_packet os (host s) cmd body (recv_packet s)"

definition good_packet :: "'fs os \<Rightarrow> ('fs, 'z) link_scheme \<Rightarrow> u32 \<Rightarrow> byte list \<Rightarrow> bool" where
  "good_packet os s cmd body \<longleftrightarrow>
     6 + length body \<le> PACKET_MAXSIZE \<and> name_fits (path_list s) cmd body \<and> \<not> wild_packet os (host s) cmd body (recv_packet s)"

text \<open>
  C4. What a file request that has arrived whole does to the memory of the two programs, whatever the host
  answers, however the data and the answers are cut, and whether or not the connection lasts behind the
  packet. Both serve it without leaving an array if the packet fits \<open>recv_packet\<close>, the name in it, if it has
  one, ends in its field and the names of the search path leave room for it, and the directory in it, if it has
  one, is open. Both go wrong on a packet that is larger than the buffer, on a name without an end that
  fills it, and on a directory that is not open, whose number they use as an address.
\<close>

theorem file_requests_memory:
  fixes s :: "('fs, 'y) batch_scheme" and t :: "('gs, 'z) shell_scheme"
  assumes "wf_link s" and "stream (rx s fd) = packet cmd body @ rest"
    and "wf_link t" and "stream (rx t fd) = packet cmd body @ rest"
    and len: "length body < 65530"
    and cmd: "cmd \<in> {OPEN_CMD, CLOSE_CMD, READ_CMD, WRITE_CMD, LSEEK_CMD, DOPEN_CMD, DREAD_CMD, DCLOSE_CMD}"
  shows "(good_packet os s cmd body \<longrightarrow> batch_io_read os fd s \<noteq> Crash)
    \<and> (good_packet (env_os env) t cmd body \<longrightarrow> pko_srv_read env fd t \<noteq> Crash)
    \<and> (bad_packet os s cmd body \<longrightarrow> batch_io_read os fd s = Crash)
    \<and> (bad_packet (env_os env) t cmd body \<longrightarrow> pko_srv_read env fd t = Crash)"
proof (intro conjI impI)
  obtain h where h: "file_command os cmd = Some (h :: ('fs, 'y) batch_scheme \<Rightarrow> _)"
    using cmd by (auto simp: file_command_def)
  obtain k where k: "file_command (env_os env) cmd = Some (k :: ('gs, 'z) shell_scheme \<Rightarrow> _)"
    using cmd by (auto simp: file_command_def)
  show "batch_io_read os fd s \<noteq> Crash" if "good_packet os s cmd body"
    using batch_files.serve_safe [OF assms(1,2) _ h] that by (simp add: good_packet_def)
  show "pko_srv_read env fd t \<noteq> Crash" if "good_packet (env_os env) t cmd body"
    using shell_files.serve_safe [OF assms(3,4) _ k] that by (simp add: good_packet_def)
  show "batch_io_read os fd s = Crash" if "bad_packet os s cmd body"
    using batch_files.serve_large [OF assms(1,2) _ len] batch_files.serve_overrun [OF assms(1,2)]
      batch_files.serve_wild [OF assms(1,2)] that unfolding bad_packet_def by (meson not_le)
  show "pko_srv_read env fd t = Crash" if "bad_packet (env_os env) t cmd body"
    using shell_files.serve_large [OF assms(3,4) _ len] shell_files.serve_overrun [OF assms(3,4)]
      shell_files.serve_wild [OF assms(3,4)] that unfolding bad_packet_def by (meson not_le)
qed

theorem file_requests_memory_witness:
  "batch_io_read tape_os 4 ((batch_init [])\<lparr>rx := \<lambda>_. [Arrive (packet OPEN_CMD (replicate 4090 1))]\<rparr>) = Crash
   \<and> pko_srv_read example_env 4 (shell_example\<lparr>rx := \<lambda>_. [Arrive (packet DCLOSE_CMD (be32 9))]\<rparr>) = Crash
   \<and> batch_io_read tape_os 4 ((batch_init [])\<lparr>rx := \<lambda>_. [Arrive (packet OPEN_CMD (replicate 8 1 @ [0]))]\<rparr>) \<noteq> Crash"
proof -
  let ?batch = "\<lambda>p. (batch_init [])\<lparr>rx := \<lambda>_. [Arrive p]\<rparr>" and ?shell = "\<lambda>p. shell_example\<lparr>rx := \<lambda>_. [Arrive p]\<rparr>"
  have wf: "wf_link (?batch p)" "wf_link (?shell p)" "path_list (?batch p) = []" for p
    using shell_example_simps(1) by (simp_all add: wf_link_def batch_init_def link_init_def link.defs)
  have "bad_packet tape_os (?batch (packet OPEN_CMD (replicate 4090 1))) OPEN_CMD (replicate 4090 1)"
    by (simp add: bad_packet_def unended_def)
  moreover have "good_packet tape_os (?batch (packet OPEN_CMD (replicate 8 1 @ [0]))) OPEN_CMD (replicate 8 1 @ [0])"
    by (simp add: good_packet_def name_fits_def wild_packet_def wf(3))
  moreover have "bad_packet (env_os example_env) (?shell (packet DCLOSE_CMD (be32 9))) DCLOSE_CMD (be32 9)"
    by (simp add: bad_packet_def wild_packet_def packet_dir_def request_views no_files_def)
  ultimately show ?thesis
    using file_requests_memory [OF wf(1) _ wf(2), of "packet OPEN_CMD (replicate 4090 1)" 4 OPEN_CMD "replicate 4090 1" "[]"
        "packet OPEN_CMD (replicate 4090 1)" tape_os example_env]
      file_requests_memory [OF wf(1) _ wf(2), of "packet OPEN_CMD (replicate 8 1 @ [0])" 4 OPEN_CMD "replicate 8 1 @ [0]" "[]"
        "packet OPEN_CMD (replicate 8 1 @ [0])" tape_os example_env]
      file_requests_memory [OF wf(1) _ wf(2), of "packet DCLOSE_CMD (be32 9)" 4 DCLOSE_CMD "be32 9" "[]"
        "packet DCLOSE_CMD (be32 9)" tape_os example_env]
    by simp
qed

end
