(* ===== verification/Cable.thy ===== *)
theory Cable
  imports Npsh
begin

text \<open>
  The files of the host over the USB cable: what a console sees of a sequence of requests that
  \<open>naplink_process\<close> serves. The specification \<open>usb_session\<close> knows neither the register nor transfers: a
  request changes the files and has a value and data as its answer. The loop of npsh refines it, on every
  cable on which the two sides take turns.
\<close>

section \<open>Requests and answers\<close>

datatype usb_request =
    Usb_open u32 string | Usb_close u32 | Usb_read u32 u32 | Usb_write u32 "byte list"
  | Usb_lseek u32 u32 u32 | Usb_poll

fun usb_type :: "usb_request \<Rightarrow> u32" where
  "usb_type (Usb_open fl p) = PACKET_OPEN"
| "usb_type (Usb_close fd) = PACKET_CLOSE"
| "usb_type (Usb_read fd n) = PACKET_READ"
| "usb_type (Usb_write fd bs) = PACKET_WRITE"
| "usb_type (Usb_lseek fd off wh) = PACKET_LSEEK"
| "usb_type Usb_poll = PACKET_WAZZUP"

fun usb_body :: "usb_request \<Rightarrow> byte list" where
  "usb_body (Usb_open fl p) = le32 fl @ bytes_of p @ [0]"
| "usb_body (Usb_close fd) = le32 fd"
| "usb_body (Usb_read fd n) = le32 fd @ le32 n"
| "usb_body (Usb_write fd bs) = le32 fd @ le32 (of_nat (length bs)) @ bs"
| "usb_body (Usb_lseek fd off wh) = le32 fd @ le32 off @ le32 wh"
| "usb_body Usb_poll = []"

definition usb_header :: "usb_request \<Rightarrow> packet_header" where
  "usb_header r = \<lparr>ph_size = of_nat (length (usb_body r)), ph_type = usb_type r\<rparr>"

text \<open>A request that fits: names fit the array of the search, and sizes a packet.\<close>

fun ok_usb :: "string list \<Rightarrow> usb_request \<Rightarrow> bool" where
  "ok_usb ds (Usb_open fl p) \<longleftrightarrow> no_nul p \<and> (\<forall>d \<in> set ds. length (d @ ''/'' @ p) < MAXPATHLEN) \<and> length p < 2 ^ 31"
| "ok_usb ds (Usb_read fd n) \<longleftrightarrow> unat n < 2 ^ 31 - 4"
| "ok_usb ds (Usb_write fd bs) \<longleftrightarrow> length bs < 2 ^ 31 - 8"
| "ok_usb ds _ \<longleftrightarrow> True"

text \<open>The answer to a request: the value, the data behind it, and the files after it.\<close>

fun usb_answer ::
  "('fs, 'e) uenv_scheme \<Rightarrow> string list \<Rightarrow> 'fs \<Rightarrow> usb_request \<Rightarrow> int \<times> byte list \<times> 'fs" where
  "usb_answer env ds fs (Usb_open fl p) =
     (if p = ''/dev/tty'' then (1, [], fs)
      else let (k, fs) = first_open env (np_flags fl) (p # map (\<lambda>d. d @ ''/'' @ p) ds) fs in (k, [], fs))"
| "usb_answer env ds fs (Usb_close fd) =
     (if to_cint fd \<le> 2 then (0, [], fs) else let (k, fs) = os_close (uenv_os env) fs (to_cint fd) in (k, [], fs))"
| "usb_answer env ds fs (Usb_read fd n) =
     (let ((k, bs), fs) = os_read (uenv_os env) fs (to_cint fd) n in (k, take (nat k) bs, fs))"
| "usb_answer env ds fs (Usb_write fd bs) =
     (let (k, fs) = os_write (uenv_os env) fs (to_cint fd) bs in (k, [], fs))"
| "usb_answer env ds fs (Usb_lseek fd off wh) =
     (let (k, fs) = os_lseek (uenv_os env) fs (to_cint fd) (to_cint off) (to_cint wh) in (k, [], fs))"
| "usb_answer env ds fs Usb_poll = (0, [], fs)"

text \<open>A sequence of looks at the cable, each with the request that is there, if any.\<close>

fun usb_session ::
  "('fs, 'e) uenv_scheme \<Rightarrow> string list \<Rightarrow> 'fs \<Rightarrow> usb_request option list \<Rightarrow> byte list list \<times> 'fs" where
  "usb_session env ds fs [] = ([], fs)"
| "usb_session env ds fs (None # rs) = usb_session env ds fs rs"
| "usb_session env ds fs (Some r # rs) =
     (let (k, bs, fs) = usb_answer env ds fs r; (outs, fs) = usb_session env ds fs rs
      in (return_packet k bs @ outs, fs))"

text \<open>The host: allocations succeed, and \<open>read\<close> fails or gives as many bytes as it says, not more than asked.\<close>

definition usb_host :: "('fs, 'e) uenv_scheme \<Rightarrow> bool" where
  "usb_host env \<longleftrightarrow> (\<forall>fs n. os_malloc (uenv_os env) fs n) \<and>
     (\<forall>fs fd n k bs fs'. os_read (uenv_os env) fs fd n = ((k, bs), fs') \<longrightarrow>
        length bs \<le> unat n \<and> (k < 0 \<or> k = int (length bs)))"

section \<open>The cable\<close>

text \<open>What is still to be read of the register and of the transfers, and how many control messages are accepted.\<close>

definition on_cable :: "byte list \<Rightarrow> byte list list \<Rightarrow> nat \<Rightarrow> ('fs, 'z) usb_scheme \<Rightarrow> bool" where
  "on_cable rest later n s \<longleftrightarrow> statuses (polls s) = rest \<and> bulk_in s = later \<and> accepts n s"

text \<open>
  The values of the register while a packet is answered: the look that finds the request, those until the
  packet is there and complete, and those until the console is ready and has taken the answer.
\<close>

definition request_turn :: "byte list \<Rightarrow> bool" where
  "request_turn bs \<longleftrightarrow> (\<exists>look req fin ready ack. bs = look # req @ fin @ ready @ ack \<and> look AND TX_REQ \<noteq> 0 \<and>
     settles (\<lambda>b. b AND TX_REQ \<noteq> 0) req \<and> settles (\<lambda>b. b AND TX_C \<noteq> 0) fin \<and>
     settles (\<lambda>b. b AND TX_RDY \<noteq> 0) ready \<and> settles (\<lambda>b. b AND TX_REQ = 0) ack)"

fun cable_turn :: "usb_request option \<Rightarrow> byte list \<Rightarrow> bool" where
  "cable_turn None bs \<longleftrightarrow> (\<exists>b. bs = [b] \<and> b AND TX_REQ = 0)"
| "cable_turn (Some r) bs \<longleftrightarrow> request_turn bs"

fun request_transfers :: "usb_request option \<Rightarrow> byte list list" where
  "request_transfers None = []"
| "request_transfers (Some r) = transfers (usb_header r) (usb_body r)"

text \<open>The state between two looks.\<close>

definition nap_serving :: "('fs, 'z) nap_scheme \<Rightarrow> bool" where
  "nap_serving s \<longleftrightarrow> benchmarking s = 0 \<and> commandWaiting s = 0 \<and> pl_open s"

section \<open>One request\<close>

lemma do_return_runs:
  assumes "on_cable (ready @ ack @ rest) later (Suc (Suc m)) t"
    and "settles (\<lambda>b. b AND TX_RDY \<noteq> 0) ready" and "settles (\<lambda>b. b AND TX_REQ = 0) ack"
    and host: "\<forall>fs k. os_malloc (uenv_os env) fs k"
    and n: "n < 2 ^ 31 - 4" "0 < n \<Longrightarrow> data = Some bs \<and> nat n \<le> length bs" "n \<le> 0 \<Longrightarrow> bs = []"
  obtains s' where "do_return env k data n t = Ret s'" and "on_cable rest later m s'"
    and "talks (return_packet k (take (nat n) bs)) t s'"
proof -
  define n' where "n' = (if n < 0 then 0 else n)"
  let ?ph = "\<lparr>ph_size = of_cint (4 + n'), ph_type = PACKET_RETURN\<rparr>"
  have len: "nat n' \<le> length bs" using n(2) by (cases "0 < n") (auto simp: n'_def)
  have "uint (word_of_int (4 + n') :: u32) = 4 + n'"
    by (subst uint_word_of_int_eq) (use n(1) in \<open>simp add: n'_def take_bit_int_eq_self\<close>)
  then have "unat (of_cint (4 + n') :: u32) = nat (4 + n')"
    unfolding of_cint_def nat_uint_eq [symmetric] by simp
  then have fits: "unat (ph_size ?ph) \<le> length (le32 (of_cint k) @ take (nat n') bs)"
    using len by (simp add: n'_def nat_add_distrib)
  obtain s' where s': "usb_send_packet ?ph (le32 (of_cint k) @ take (nat n') bs) t = Ret s'"
    "statuses (polls s') = rest" "accepts m s'" "bulk_in s' = bulk_in t"
    using send_runs [OF _ assms(2,3) _ fits] assms(1) unfolding on_cable_def by metis
  have "take (nat n') bs = take (nat n) bs" by (simp add: n'_def)
  moreover have "(if n' \<noteq> 0 then of_option data else Ret []) = Ret bs"
    using n by (auto simp: n'_def not_less split: if_splits)
  ultimately have run: "do_return env k data n t = Ret s'"
    using s'(1) host len unfolding do_return_def Let_def n'_def [symmetric] by simp
  have "talks (return_packet k (take (nat n) bs)) t s'"
    by (rule do_return_talks [OF run], cases "0 < n") (use n(2,3) in auto)
  then show thesis using that [OF run] s' assms(1) by (simp add: on_cable_def)
qed

text \<open>What processing a request leaves, in the state \<open>s\<close> in which its packet has been received.\<close>

definition usb_replied ::
  "byte list \<Rightarrow> byte list list \<Rightarrow> nat \<Rightarrow> int \<times> byte list \<times> 'fs \<Rightarrow> ('fs, 'z) nap_scheme \<Rightarrow> ('fs, 'z) nap_scheme \<Rightarrow> bool" where
  "usb_replied rest later n ans s s' \<longleftrightarrow> (case ans of (k, bs, fs) \<Rightarrow>
     pc s' = fs \<and> written (bus_log s') = written (bus_log s) @ return_packet k bs \<and> on_cable rest later n s' \<and>
     nap_serving s' \<and> np_path_list s' = np_path_list s)"

text \<open>The state in which a request is answered differs from that before it only in the files and counters.\<close>

definition recounted :: "('fs, 'z) nap_scheme \<Rightarrow> ('fs, 'z) nap_scheme \<Rightarrow> bool" where
  "recounted s t \<longleftrightarrow> t = s\<lparr>pc := pc t, counter := counter t, processing := processing t\<rparr>"

lemma recounted_fields:
  assumes "recounted s t"
  shows "polls t = polls s" "bulk_in t = bulk_in s" "controls t = controls s" "bus_log t = bus_log s"
    "benchmarking t = benchmarking s" "commandWaiting t = commandWaiting s" "pl_open t = pl_open s"
    "np_path_list t = np_path_list s"
  by (subst assms [unfolded recounted_def], simp)+

lemma recounted_intros [intro]:
  fixes s :: "('fs, 'z) nap_scheme"
  shows "recounted s s" "recounted s (s\<lparr>counter := c\<rparr>)" "recounted s (s\<lparr>counter := c, pc := fs\<rparr>)"
    "recounted s (s\<lparr>processing := p, counter := c\<rparr>)" "recounted s (s\<lparr>processing := p, counter := c, pc := fs\<rparr>)"
  by (cases s, simp add: recounted_def)+

lemma usb_repliedI:
  fixes s t s' :: "('fs, 'z) nap_scheme"
  assumes "recounted s t" and "nap_serving s" and "pc t = fs"
    and "on_cable (ready @ ack @ rest) later (Suc (Suc m)) s"
    and "settles (\<lambda>b. b AND TX_RDY \<noteq> 0) ready" and "settles (\<lambda>b. b AND TX_REQ = 0) ack"
    and "\<forall>fs k. os_malloc (uenv_os env) fs k"
    and "n < 2 ^ 31 - 4" "0 < n \<Longrightarrow> data = Some bs \<and> nat n \<le> length bs" "n \<le> 0 \<Longrightarrow> bs = []"
  shows "\<exists>s'. do_return env k data n t = Ret s' \<and> usb_replied rest later m (k, take (nat n) bs, fs) s s'"
proof -
  note same = recounted_fields [OF assms(1)]
  have "on_cable (ready @ ack @ rest) later (Suc (Suc m)) t"
    using assms(4) by (simp add: on_cable_def accepts_def same)
  from do_return_runs [OF this assms(5-10)] obtain s' where s': "do_return env k data n t = Ret s'"
    "on_cable rest later m s'" "talks (return_packet k (take (nat n) bs)) t s'" by blast
  then have bus: "bus_only t s'" by (simp add: talks_def)
  show ?thesis
    by (intro exI [of _ s'])
      (use s' bus_only_keeps [OF bus] bus_only_nap [OF bus] assms(2,3) in
        \<open>simp add: usb_replied_def talks_def nap_serving_def same\<close>)
qed

lemma body_fields:
  "field 0 (Some (le32 a @ x)) = Ret a"
  "field 4 (Some (le32 a @ le32 b @ x)) = Ret b"
  "field 8 (Some (le32 a @ le32 b @ le32 c @ x)) = Ret c"
  by (simp_all add: field_def)

lemmas body_fields_end = body_fields(1) [where x = "[]", simplified] body_fields(2) [where x = "[]", simplified]
  body_fields(3) [where x = "[]", simplified]

lemma unat_of_nat32: "n < 2 ^ 32 \<Longrightarrow> unat (of_nat n :: u32) = n"
  by (simp add: unat_of_nat take_bit_nat_eq_self)

lemma packet_types [simp]:
  "process_packet env b PACKET_OPEN = process_open env" "process_packet env b PACKET_CLOSE = process_close env"
  "process_packet env b PACKET_READ = process_read env" "process_packet env b PACKET_WRITE = process_write env"
  "process_packet env b PACKET_LSEEK = process_lseek env" "process_packet env b PACKET_WAZZUP buf = process_wazzup env b"
  by (simp_all add: process_packet_def fun_eq_iff)

text \<open>The buffer in which the packet of a request is received.\<close>

definition usb_buffer :: "usb_request \<Rightarrow> byte list option" where
  "usb_buffer r = (if usb_body r = [] then None else Some (usb_body r))"

lemma le32_not_Nil [simp]: "le32 w \<noteq> []"
  by (simp flip: length_0_conv)

lemma usb_processed:
  fixes s :: "('fs, 'z) nap_scheme"
  assumes serving: "nap_serving s" and ok: "ok_usb (np_path_list s) r" and host: "usb_host env"
    and cable: "on_cable (ready @ ack @ rest) later (Suc (Suc m)) s"
    and turn: "settles (\<lambda>b. b AND TX_RDY \<noteq> 0) ready" "settles (\<lambda>b. b AND TX_REQ = 0) ack"
  shows "\<exists>s'. process_packet env b (usb_type r) (usb_buffer r) s = Ret s' \<and>
     usb_replied rest later m (usb_answer env (np_path_list s) (pc s) r) s s'"
proof -
  have alloc: "\<forall>fs k. os_malloc (uenv_os env) fs k" using host by (simp add: usb_host_def)
  have bench: "benchmarking s = 0" "commandWaiting s = 0" using serving by (simp_all add: nap_serving_def)
  have silent: "\<exists>s'. do_return env k None 0 t = Ret s' \<and> usb_replied rest later m (k, [], pc t) s s'"
    if "recounted s t" for k t
    using usb_repliedI [OF that serving refl cable turn alloc, of 0 None "[]" k] by simp
  show ?thesis
  proof (cases r)
    case (Usb_open fl p)
    obtain k fs where first: "first_open env (np_flags fl) (p # map (\<lambda>d. d @ ''/'' @ p) (np_path_list s)) (pc s) = (k, fs)"
      by fastforce
    have p: "no_nul p" "\<forall>d \<in> set (np_path_list s). length (d @ ''/'' @ p) < MAXPATHLEN" using ok Usb_open by simp_all
    have "process_open env (Some (usb_body r)) s =
        (if p = ''/dev/tty'' then do_return env 1 None 0 (s\<lparr>processing := 1, counter := 0\<rparr>)
         else do_return env k None 0 (s\<lparr>processing := 1, counter := 0, pc := fs\<rparr>))"
      using open_searched [OF p first, of "[]"] Usb_open by simp
    then show ?thesis
      using silent [of "s\<lparr>processing := 1, counter := 0\<rparr>" 1] silent [of "s\<lparr>processing := 1, counter := 0, pc := fs\<rparr>" k]
        first Usb_open by (auto simp: usb_buffer_def)
  next
    case (Usb_close fd)
    obtain k fs where k: "(if to_cint fd \<le> 2 then (0, pc s) else os_close (uenv_os env) (pc s) (to_cint fd)) = (k, fs)"
      by fastforce
    then have "process_close env (Some (le32 fd)) s = do_return env k None 0 (s\<lparr>processing := 0, counter := 0, pc := fs\<rparr>)"
      by (cases s) (auto simp: process_close_def np_set_counter_def body_fields_end split: if_splits)
    then show ?thesis using silent [of "s\<lparr>processing := 0, counter := 0, pc := fs\<rparr>" k] k Usb_close
      by (auto simp: usb_buffer_def split: if_splits)
  next
    case (Usb_read fd n)
    obtain k bs fs where rd: "os_read (uenv_os env) (pc s) (to_cint fd) n = ((k, bs), fs)" by (metis prod.collapse)
    have len: "length bs \<le> unat n" "k < 0 \<or> k = int (length bs)" "unat n < 2 ^ 31 - 4"
      using host [unfolded usb_host_def, THEN conjunct2] rd ok Usb_read by (blast, blast, simp)
    let ?blk = "poke 0 bs (fresh env (unat n))"
    have "process_read env (Some (le32 fd @ le32 n)) s = do_return env k (Some ?blk) k (s\<lparr>counter := 0, pc := fs\<rparr>)"
      using alloc rd bench by (simp add: process_read_def np_set_counter_def body_fields body_fields_end Let_def)
    moreover have "\<exists>s'. do_return env k (Some ?blk) k (s\<lparr>counter := 0, pc := fs\<rparr>) = Ret s' \<and>
        usb_replied rest later m (k, take (nat k) (if 0 < k then ?blk else []), fs) s s'"
      by (rule usb_repliedI [OF _ serving _ cable turn alloc]) (use len in \<open>auto simp: length_poke\<close>)
    moreover have "take (nat k) (if 0 < k then ?blk else []) = take (nat k) bs"
      using len(2) by (auto simp: poke_def)
    ultimately show ?thesis using rd Usb_read by (simp add: usb_buffer_def)
  next
    case (Usb_write fd bs)
    obtain k fs where k: "os_write (uenv_os env) (pc s) (to_cint fd) bs = (k, fs)" by fastforce
    have "unat (of_nat (length bs) :: u32) = length bs" using ok Usb_write by (intro unat_of_nat32) simp
    then have "process_write env (Some (usb_body r)) s = do_return env k None 0 (s\<lparr>counter := 0, pc := fs\<rparr>)"
      using k bench Usb_write by (simp add: process_write_def np_set_counter_def body_fields)
    then show ?thesis using silent [of "s\<lparr>counter := 0, pc := fs\<rparr>" k] k Usb_write by (auto simp: usb_buffer_def)
  next
    case (Usb_lseek fd off wh)
    obtain k fs where k: "os_lseek (uenv_os env) (pc s) (to_cint fd) (to_cint off) (to_cint wh) = (k, fs)" by fastforce
    then have "process_lseek env (Some (usb_body r)) s = do_return env k None 0 (s\<lparr>counter := 0, pc := fs\<rparr>)"
      using Usb_lseek by (simp add: process_lseek_def np_set_counter_def body_fields body_fields_end)
    then show ?thesis using silent [of "s\<lparr>counter := 0, pc := fs\<rparr>" k] k Usb_lseek by (auto simp: usb_buffer_def)
  next
    case Usb_poll
    define t where "t = (if processing s = 0 then np_update_counter s else s)"
    have t: "recounted s t" "pc t = pc s" "commandWaiting t = 0"
      using bench by (auto simp: t_def np_update_counter_def)
    from silent [OF t(1), of 0] obtain s' where s': "do_return env 0 None 0 t = Ret s'"
      "usb_replied rest later m (0, [], pc s) s s'" unfolding t(2) by blast
    then have "s'\<lparr>commandWaiting := 0\<rparr> = s'" by (cases s') (simp add: usb_replied_def nap_serving_def)
    with s' t(3) show ?thesis using Usb_poll
      by (simp add: usb_buffer_def process_wazzup_def Let_def t_def [symmetric])
  qed
qed

section \<open>Looks at the cable\<close>

lemma length_usb_body: "ok_usb ds r \<Longrightarrow> unat (of_nat (length (usb_body r)) :: u32) = length (usb_body r)"
  by (cases r) (auto intro!: unat_of_nat32 simp del: of_nat_add of_nat_Suc)

lemma body_empty: "ok_usb ds r \<Longrightarrow> (of_nat (length (usb_body r)) :: u32) = 0 \<longleftrightarrow> usb_body r = []"
  using length_usb_body [of ds r] by (metis length_0_conv unat_eq_zero)

lemma recv_usb_request:
  fixes s :: "('fs, 'z) nap_scheme"
  assumes "nap_serving s" and ok: "ok_usb (np_path_list s) r" and host: "usb_host env"
    and cable: "on_cable (req @ fin @ rest) (transfers (usb_header r) (usb_body r) @ later) (Suc (Suc m)) s"
    and turn: "settles (\<lambda>b. b AND TX_REQ \<noteq> 0) req" "settles (\<lambda>b. b AND TX_C \<noteq> 0) fin"
  obtains s' where "usb_recv_packet env s = Ret (usb_header r, usb_buffer r, s')" and "on_cable rest later m s'"
    and "nap_serving s'" and "pc s' = pc s" and "np_path_list s' = np_path_list s"
    and "written (bus_log s') = written (bus_log s)"
proof -
  have len: "length (usb_body r) = unat (ph_size (usb_header r))"
    using length_usb_body [OF ok] by (simp add: usb_header_def)
  have here: "statuses (polls s) = req @ fin @ rest" "bulk_in s = transfers (usb_header r) (usb_body r) @ later"
    "accepts (Suc (Suc m)) s" using cable by (simp_all add: on_cable_def)
  obtain ps cs where run: "usb_recv_packet env s =
      Ret (usb_header r, if ph_size (usb_header r) \<noteq> 0 \<and> os_malloc (uenv_os env) (pc s) (ph_size (usb_header r)) then Some (usb_body r) else None,
        s\<lparr>polls := ps, controls := cs, bulk_in := later,
          bus_log := bus_log s @ map Saw req @ [Cleared TX_REQ] @ map Saw fin @ [Cleared TX_C]\<rparr>)"
    and ps: "statuses ps = rest" and acc: "accepts m (s\<lparr>controls := cs\<rparr>)"
    using recv_transfers [OF here(1) turn here(3) len here(2), of env] by blast
  have buffer: "(if ph_size (usb_header r) \<noteq> 0 \<and> os_malloc (uenv_os env) (pc s) (ph_size (usb_header r)) then Some (usb_body r) else None) = usb_buffer r"
    using host body_empty [OF ok] by (simp add: usb_buffer_def usb_header_def usb_host_def)
  show thesis
    by (rule that [OF run [unfolded buffer]]) (use ps acc assms(1) in \<open>simp_all add: on_cable_def accepts_def nap_serving_def\<close>)
qed

lemma process_request:
  fixes s :: "('fs, 'z) nap_scheme"
  assumes serving: "nap_serving s" and ok: "ok_usb (np_path_list s) r" and host: "usb_host env"
    and "request_turn bs"
    and cable: "on_cable (bs @ rest) (transfers (usb_header r) (usb_body r) @ later) (m + 4) s"
  shows "\<exists>s'. naplink_process env s = Ret s' \<and> usb_replied rest later m (usb_answer env (np_path_list s) (pc s) r) s s'"
proof -
  obtain look req fin ready ack where bs: "bs = look # req @ fin @ ready @ ack" "look AND TX_REQ \<noteq> 0"
    and turn: "settles (\<lambda>b. b AND TX_REQ \<noteq> 0) req" "settles (\<lambda>b. b AND TX_C \<noteq> 0) fin"
      "settles (\<lambda>b. b AND TX_RDY \<noteq> 0) ready" "settles (\<lambda>b. b AND TX_REQ = 0) ack"
    using assms(4) unfolding request_turn_def by blast
  obtain ps where look: "CHECK_QLF TX_REQ s = Ret (look AND TX_REQ, s\<lparr>polls := ps, bus_log := bus_log s @ [Saw look]\<rparr>)"
    "statuses ps = req @ fin @ ready @ ack @ rest"
    using cable bs(1) by (cases rule: check_cases [of TX_REQ s]) (auto simp: on_cable_def)
  define s1 where "s1 = s\<lparr>polls := ps, bus_log := bus_log s @ [Saw look]\<rparr>"
  have s1: "nap_serving s1" "pc s1 = pc s" "np_path_list s1 = np_path_list s" "written (bus_log s1) = written (bus_log s)"
    "on_cable (req @ fin @ (ready @ ack @ rest)) (transfers (usb_header r) (usb_body r) @ later) (Suc (Suc (Suc (Suc m)))) s1"
    using serving cable look(2) by (simp_all add: s1_def nap_serving_def on_cable_def accepts_def)
  have "ok_usb (np_path_list s1) r" using ok s1(3) by simp
  from recv_usb_request [OF s1(1) this host s1(5) turn(1,2)] obtain s2 where
    recv: "usb_recv_packet env s1 = Ret (usb_header r, usb_buffer r, s2)"
    and s2: "on_cable (ready @ ack @ rest) later (Suc (Suc m)) s2" "nap_serving s2" "pc s2 = pc s" "np_path_list s2 = np_path_list s"
      "written (bus_log s2) = written (bus_log s)"
    unfolding s1(2-4) by blast
  have "ok_usb (np_path_list s2) r" using ok s2(4) by simp
  from usb_processed [OF s2(2) this host s2(1) turn(3,4)] obtain s3 where
    s3: "process_packet env (do_benchmark (process_within env (length (polls s1)))) (usb_type r) (usb_buffer r) s2 = Ret s3"
      "usb_replied rest later m (usb_answer env (np_path_list s) (pc s) r) s2 s3"
    unfolding s2(3,4) by blast
  have "recv_and_process_packet env s1 = Ret (usb_type r, s3)"
    using recv s3(1) by (simp add: recv_and_process_packet_def usb_header_def)
  then have "naplink_process env s = Ret s3"
    using look(1) bs(2) serving by (simp add: naplink_process_def s1_def nap_serving_def)
  moreover have "usb_replied rest later m (usb_answer env (np_path_list s) (pc s) r) s s3"
    using s3(2) s2(4,5) by (simp add: usb_replied_def split: prod.splits)
  ultimately show ?thesis by blast
qed

text \<open>
  C3. The files of the host over the cable: the loop \<open>naplink_times\<close> of npsh returns, and for any sequence of
  requests and polls, with quiet looks in between, and whatever the register shows while the two sides wait
  for each other, the console receives exactly the answers of the specification, in order, one packet for
  each request; the host's files become what the specification says, and the transfers behind the last
  request are not touched. Hypotheses: no command waits, the sides take turns, control messages are accepted
  (four for each look), and the host is as \<open>usb_host\<close> says.
\<close>

theorem cable_session:
  fixes s :: "('fs, 'z) nap_scheme"
  assumes "nap_serving s" and "\<forall>r. Some r \<in> set rs \<longrightarrow> ok_usb (np_path_list s) r" and host: "usb_host env"
    and "list_all2 cable_turn rs turns"
    and "on_cable (concat turns @ rest) (concat (map request_transfers rs) @ later) (m + 4 * length rs) s"
  shows "\<exists>s' outs. naplink_times (length rs) env s = Ret s' \<and>
     usb_session env (np_path_list s) (pc s) rs = (outs, pc s') \<and>
     written (bus_log s') = written (bus_log s) @ outs \<and>
     statuses (polls s') = rest \<and> bulk_in s' = later \<and> nap_serving s'"
  using assms(1,2,4,5)
proof (induction rs arbitrary: s turns)
  case Nil
  then show ?case by (simp add: on_cable_def)
next
  case (Cons x rs)
  from Cons.prems(3) obtain bs turns' where turns: "turns = bs # turns'" "cable_turn x bs" "list_all2 cable_turn rs turns'"
    by (cases turns) auto
  have step: "\<exists>s' outs. naplink_times (length (x # rs)) env s = Ret s' \<and>
      usb_session env (np_path_list s) fs rs = (outs, pc s') \<and> written (bus_log s') = written (bus_log s1) @ outs \<and>
      statuses (polls s') = rest \<and> bulk_in s' = later \<and> nap_serving s'"
    if run: "naplink_process env s = Ret s1" "nap_serving s1" "np_path_list s1 = np_path_list s" "pc s1 = fs"
      "on_cable (concat turns' @ rest) (concat (map request_transfers rs) @ later) (m + 4 * length rs) s1" for s1 fs
    using Cons.IH [OF run(2) _ turns(3) run(5)] Cons.prems(2) run(1,3,4) by simp
  show ?case
  proof (cases x)
    case None
    then obtain b where b: "bs = [b]" "b AND TX_REQ = 0" using turns(2) by auto
    have "statuses (polls s) = b # (concat turns' @ rest)" using Cons.prems(4) b turns(1) by (simp add: on_cable_def)
    then obtain ps where ps: "naplink_process env s = Ret (s\<lparr>polls := ps, bus_log := bus_log s @ [Saw b]\<rparr>)"
      "statuses ps = concat turns' @ rest"
      using quiet_process b(2) Cons.prems(1) by (metis nap_serving_def)
    show ?thesis
      using step [OF ps(1)] Cons.prems(1,4) ps(2) None
      by (auto simp: nap_serving_def on_cable_def accepts_def)
  next
    case (Some r)
    then have "ok_usb (np_path_list s) r" using Cons.prems(2) by simp
    moreover have "request_turn bs" using turns(2) Some by simp
    moreover have "on_cable (bs @ (concat turns' @ rest)) (transfers (usb_header r) (usb_body r) @
        (concat (map request_transfers rs) @ later)) (m + 4 * length rs + 4) s"
      using Cons.prems(4) turns(1) Some by (simp add: algebra_simps)
    ultimately obtain s1 where s1: "naplink_process env s = Ret s1"
      "usb_replied (concat turns' @ rest) (concat (map request_transfers rs) @ later) (m + 4 * length rs)
        (usb_answer env (np_path_list s) (pc s) r) s s1"
      using process_request [OF Cons.prems(1) _ host] by blast
    obtain k d fs where ans: "usb_answer env (np_path_list s) (pc s) r = (k, d, fs)" by (metis prod.collapse)
    then show ?thesis
      using step [OF s1(1)] s1(2) Some by (fastforce simp: usb_replied_def)
  qed
qed

text \<open>
  A console from which nothing comes at first, which then opens a file that does not exist, polls, and closes
  a descriptor.
\<close>

definition cable_requests :: "usb_request option list" where
  "cable_requests = [None, Some (Usb_open 1 ''f''), Some Usb_poll, Some (Usb_close 4)]"

definition cable_turns :: "byte list list" where
  "cable_turns = [[0x00], [0x02, 0x00, 0x02, 0x04, 0x20, 0x00], [0x02, 0x02, 0x04, 0x20, 0x00], [0x02, 0x02, 0x04, 0x00, 0x20, 0x00]]"

definition cable_example :: "int nap" where
  "cable_example = (nap_example (map (Pair 1) (concat cable_turns)) (concat (map request_transfers cable_requests)) 0)
     \<lparr>controls := replicate 16 0\<rparr>"

lemma cable_example_simps:
  "nap_serving cable_example" "np_path_list cable_example = [''/a'']" "pc cable_example = 7" "bus_log cable_example = []"
  "on_cable (concat cable_turns) (concat (map request_transfers cable_requests)) 16 cable_example"
  by (simp_all add: cable_example_def example_simps nap_serving_def on_cable_def accepts_def statuses_def o_def)

lemma request_turnI:
  "look AND TX_REQ \<noteq> 0 \<Longrightarrow> settles (\<lambda>b. b AND TX_REQ \<noteq> 0) req \<Longrightarrow> settles (\<lambda>b. b AND TX_C \<noteq> 0) fin \<Longrightarrow>
     settles (\<lambda>b. b AND TX_RDY \<noteq> 0) ready \<Longrightarrow> settles (\<lambda>b. b AND TX_REQ = 0) ack \<Longrightarrow>
     request_turn (look # req @ fin @ ready @ ack)"
  unfolding request_turn_def by blast

lemma cable_turns: "list_all2 cable_turn cable_requests cable_turns"
  using request_turnI [of 2 "[0, 2]" "[4]" "[32]" "[0]"] request_turnI [of 2 "[2]" "[4]" "[32]" "[0]"]
    request_turnI [of 2 "[2]" "[4]" "[0, 32]" "[0]"]
  by (simp add: cable_requests_def cable_turns_def settles_def)

theorem cable_session_witness:
  "\<exists>s'. naplink_times 4 uenv_example cable_example = Ret s' \<and> pc s' = 7 \<and> bulk_in s' = [] \<and>
     written (bus_log s') = return_packet (-1) [] @ return_packet 0 [] @ return_packet 0 []"
proof -
  have "usb_host uenv_example" by (simp add: usb_host_def uenv_example_def)
  moreover have "\<forall>r. Some r \<in> set cable_requests \<longrightarrow> ok_usb (np_path_list cable_example) r"
    by (simp add: cable_requests_def cable_example_simps)
  moreover have "length cable_requests = 4" by (simp add: cable_requests_def)
  ultimately obtain s' outs where s': "naplink_times 4 uenv_example cable_example = Ret s'"
    "usb_session uenv_example [''/a''] 7 cable_requests = (outs, pc s')" "written (bus_log s') = outs" "bulk_in s' = []"
    using cable_session [of cable_example cable_requests uenv_example cable_turns "[]" "[]" 0]
      cable_turns cable_example_simps by (auto simp del: naplink_times.simps)
  from s'(2) have "pc s' = 7 \<and> outs = return_packet (-1) [] @ return_packet 0 [] @ return_packet 0 []"
    by (auto simp: cable_requests_def np_open_def uenv_example_def to_cint_def)
  with s' show ?thesis by auto
qed

end
