(* ===== verification/Spec2Isabelle.thy ===== *)
theory Spec2Isabelle
  imports Mainloop Npsh Copies Relay Ftp Session Cable
begin

text \<open>
  A verification development of pksh: the network shell of a PlayStation 2 console, the batch tools that
  come with it, and npsh, the shell for a console on a USB cable. File names below are those under \<open>src/\<close>.

  \<^bold>\<open>The program.\<close> The console runs ps2link, which opens one stream connection to the host, on which it
  asks for files of the host, sends its log in datagrams, and takes commands in datagrams. \<open>pksh.c\<close> is the
  shell: it answers the requests for files, prints the log, reads command lines, talks to a second service
  of the console for the files there (ps2netfs), and accepts clients of its own. The batch tools each send
  one request, either to a shell on the same host or to the console, and then serve files as the shell
  does. \<open>npsh.c\<close> does the same over a USB cable with another protocol, naplink: the console polls, the host
  answers.

  \<^bold>\<open>The theories\<close>, in the order in which they build on each other:

  \<^item> \<open>Prelude\<close>, \<open>Cstring\<close>: bytes, words, byte order, outcomes of C routines, buffers; \<open><string.h>\<close>.
  \<^item> \<open>Sockets\<close>: stream sockets as scripts; the loops of \<open>pko_recv_bytes\<close> and \<open>pko_send_bytes\<close> with the
    reference they refine.
  \<^item> \<open>Packets\<close>: the packed structures of \<open>linkproto_core.h\<close> and \<open>linkproto_stub.h\<close>.
  \<^item> \<open>Linkcore\<close>, \<open>Fileserver\<close>: the state and the file handlers of \<open>linkproto_core.c\<close>, and what they promise.
  \<^item> \<open>Connect\<close>, \<open>Linkstub\<close>: how sockets are opened, and the requests of \<open>linkproto_stub.c\<close>.
  \<^item> \<open>Framing\<close>: header and body on a connection, the contract \<open>framed_server\<close> of both programs.
  \<^item> \<open>Netfs\<close>: \<open>netfsproto_core.c\<close>, the client of the console's file system.
  \<^item> \<open>Common\<close>, \<open>Rlcommon\<close>: \<open>common.c\<close> and \<open>rl_common.c\<close>.
  \<^item> \<open>Batch\<close>: \<open>batch.c\<close>, the loop of the tools.
  \<^item> \<open>Shell\<close>, \<open>Netcmds\<close>, \<open>Commands\<close>, \<open>Mainloop\<close>: \<open>pksh.c\<close> and \<open>pksh.h\<close>: the commands for the link with the
    log and the service of requests; the commands on files; the command line and the configuration file;
    \<open>main\<close>.
  \<^item> \<open>Copies\<close>: whole runs of \<open>cp\<close> between the host and the console.
  \<^item> \<open>Tools\<close>: \<open>main\<close> of \<open>eeexec.c\<close>, \<open>iopexec.c\<close>, \<open>gsexec.c\<close>, \<open>dumpmem.c\<close>, \<open>dumpreg.c\<close>, \<open>viewmem.c\<close>, \<open>reset.c\<close>.
  \<^item> \<open>Relay\<close>: a tool, the shell and the console together.
  \<^item> \<open>Session\<close>: the specification of the file service, and that the tools and the shell refine it.
  \<^item> \<open>Usb\<close>, \<open>Naplink\<close>, \<open>Npsh\<close>: \<open>pl2301.c\<close> and \<open>packet.c\<close>; \<open>naplink.c\<close>; \<open>npsh.c\<close>, with their headers.
  \<^item> \<open>Cable\<close>: the specification of the files over the cable, and that npsh refines it.
  \<^item> \<open>Ftp\<close>: the commands of \<open>pksh.c\<close> that are compiled with \<open>-DFTP\<close>.

  \<^bold>\<open>How the model corresponds to the code.\<close> A C function is a definition of the same name, with a prefix
  where two files use the name (\<open>npsh_\<close>, \<open>usb_\<close>, and \<open>eeexec_main\<close> and so on); a part of a long function, a
  case of a \<open>switch\<close> or a loop, is a definition of its own that the function's definition calls. The static
  variables of a file are a record, extended where a program adds its own: \<open>link\<close> is the state of
  \<open>linkproto_core.c\<close>, \<open>batch\<close> and \<open>shell\<close> extend it; \<open>usb\<close> is the cable, \<open>nap\<close> and \<open>npsh\<close> extend it. A structure of
  a packet is a record with its layout in bytes; writing through a pointer into a buffer is \<open>store\<close>, which
  keeps the bytes of the fields that are not assigned, so that stale bytes are visible where the code sends
  them. Integers have the width of the C type: \<open>u16\<close> and \<open>u32\<close> are words, an \<open>int\<close> of C is an integer that is
  converted where the code converts.

  A routine that may fail has an \<open>outcome\<close>: \<open>Ret\<close> is a normal return, with the errors it reports as values,
  \<open>Hang\<close> is a call that never returns, \<open>Crash\<close> is undefined behaviour: a write past an array, a pointer that
  is \<open>NULL\<close> or wild, a string without an end, a free of what is not allocated, a use of a closed handle, a sum that
  overflows an \<open>int\<close>.

  \<^bold>\<open>The world.\<close> System calls are functions of the state of the host, in the records \<open>os\<close> and \<open>net\<close> and the
  environments built on them; nothing is assumed of them, except where a theorem says so. Which numbers are the
  address of an open directory is one of them (\<open>os_isdir\<close>): \<open>readdir\<close> and \<open>closedir\<close> of another is \<open>Crash\<close>. What a
  connection brings is a script of segments, errors and its end, and what a socket accepts is a plan; the
  results of \<open>select\<close> are the events of a run; the register and the transfers of the USB device are scripts
  with a log of what was done. A theorem for all scripts is one for everything the other side can do. The
  contents of uninitialised memory are parameters (\<open>junk\<close>).

  \<^bold>\<open>What is shown.\<close>

  \<^item> The transfers refine a function on the bytes alone, whatever the segments and the interrupted calls;
    what is sent is a prefix, in order, and everything on a live connection.
  \<^item> A whole session of the console: for every sequence of requests, cut into segments in any way, the loops of
    \<open>batch.c\<close> and \<open>pksh.c\<close> give the answers, the files and the position in the stream that a server without
    sockets, buffers and packets gives (\<open>session\<close>). The hypotheses are on the host (a \<open>write\<close> of one buffer is
    complete, a failing \<open>open\<close> changes nothing) and on the requests (they fit their packets). If the sequence
    comes to a directory that is not open (\<open>breaks\<close>), the run is \<open>Crash\<close>.
  \<^item> The same for the cable (\<open>usb_session\<close>): for every sequence of requests and polls, and whatever the register
    shows while the sides wait, \<open>naplink_times\<close> returns with the answers and the files of the specification.
  \<^item> Every file handler keeps buffers, descriptors and the other connections, answers in the layout of the
    protocol, and \<open>write\<close> counts exactly what it stored.
  \<^item> What a file request does to memory: the tools and the shell serve it without leaving an array if its packet
    fits \<open>recv_packet\<close>, its name ends in its field and leaves room for the search path, and its directory is open;
    a packet larger than the buffer, a name without an end that fills it, and a directory that is not open
    are \<open>Crash\<close> in both.
  \<^item> A request is taken off a connection exactly, and dispatched, in the shell and in the tools; over all
    turns of the loops the state stays well formed (reachability over \<open>server_step\<close>, \<open>batch_step\<close> and \<open>npsh_step\<close>;
    for the shell whatever \<open>accept\<close> returns, since a closed descriptor may still be in the table of clients).
    A new connection of the console is served only if it has the number of the old one.
  \<^item> The requests to the console and to its file system, byte by byte, and what comes back for each reply;
    the listing of a directory over a whole run of its loop, and a copy of a file in either direction from its
    first request to its last, or up to the refusal of a file.
  \<^item> Loops end: the listing, the reconnection, the loops of the tools and of the shell. The
    loops that may go on for ever are \<open>partial_function\<close> (\<open>reconnect\<close>, \<open>list_loop\<close>, \<open>put_loop\<close>), with theorems on
    when they return.
  \<^item> A request that goes through a shell reaches the console as if it had been sent directly.
  \<^item> The waiting loops of the USB protocol are a reference function; a packet sent is the packet received;
    polls, requests and the time-out of npsh.
  \<^item> Where the code does not do what it means to, the theorem states what it does.

  \<^bold>\<open>Interfaces.\<close> \<open>packed_struct\<close> is the contract of a layout, \<open>exact_reader\<close> that of a transfer, \<open>file_handler\<close> of a
  handler, \<open>framed_server\<close> of a server of requests (the tools and the shell) and \<open>file_service\<close>, which extends it, of
  one that hands file requests to \<open>linkproto_core.c\<close>, \<open>netfs_request\<close> of a request to the
  console's files, \<open>shell_command\<close> of a command, \<open>console_request\<close> and \<open>nap_step\<close> (with \<open>nap_step_keeps\<close>) of
  what naplink serves and of a step of it. Each is interpreted on all definitions of the code that have it.

  \<^bold>\<open>Bounds.\<close> \<open>recv_and_process_packet\<close> and \<open>do_benchmark\<close> call each other without a bound; the model counts
  with the number of values of the register that are left, of which each packet takes at least one, and
  \<open>recv_and_process_unfold\<close> shows that the count never decides anything. The runs of the main loops are over
  lists of events, and a list that ends before the loop does is \<open>Hang\<close>. The other loops have a measure.

  \<^bold>\<open>Not modelled.\<close> Texts that are only diagnostics, the times printed in verbose mode, and the \<open>DEBUG\<close> output
  of naplink. Readline is a parameter: its history file, its variables, and how it edits a line. \<open>viewmem\<close>
  prints floating-point numbers with \<open>-f\<close>; the model gives the words they are made from. The numbers
  \<open>-t\<close> of two tools are parsed but, as in the code, not used. The Windows branches. The functions that
  \<open>netfsproto_core.h\<close> and \<open>linkproto_core.h\<close> declare without a body (\<open>ps2netfs_cmd_*\<close>, \<open>fileio\<close>).
  The host is a little-endian machine with
  \<open>int\<close>, \<open>long\<close> and pointers of 32 bits, as the sources assume when they cast a \<open>DIR *\<close> to \<open>int\<close>.
\<close>

end
